theory Spec2Isabelle
  imports Main "HOL-Library.Word" "HOL-Library.Tree"
begin

unbundle bit_operations_syntax

section \<open>Machine types and tunables of kernel/sched/qhmp_fair.c\<close>

text \<open>
  The embedding follows an LP64 build (arm64, \<^verbatim>\<open>CONFIG_64BIT\<close>): \<^verbatim>\<open>u64\<close> and
  \<^verbatim>\<open>unsigned long\<close> are 64-bit words, \<^verbatim>\<open>unsigned int\<close> and \<^verbatim>\<open>u32\<close> are 32-bit
  words, \<^verbatim>\<open>s64\<close> is a 64-bit word read through \<open>sint\<close>. Arithmetic on words wraps as
  the C arithmetic on unsigned types does. A source name that starts with two
  underscores is written with the prefix \<open>raw_\<close> (\<^verbatim>\<open>__calc_delta\<close> is
  \<open>raw_calc_delta\<close>).
\<close>

type_synonym u64 = "64 word"
type_synonym u32 = "32 word"
type_synonym ulong = "64 word"

text \<open>The scheduler tunables (file-scope variables, lines 51-123).\<close>

record tunables =
  sysctl_sched_latency :: u32
  sysctl_sched_min_granularity :: u32
  sched_nr_latency :: u32
  sysctl_sched_wakeup_granularity :: u32
  sysctl_sched_cfs_bandwidth_slice :: u32

definition default_tunables :: tunables where
  "default_tunables =
     \<lparr> sysctl_sched_latency = 6000000,
       sysctl_sched_min_granularity = 750000,
       sched_nr_latency = 8,
       sysctl_sched_wakeup_granularity = 1000000,
       sysctl_sched_cfs_bandwidth_slice = 5000 \<rparr>"

text \<open>
  The scheduler features read through \<^verbatim>\<open>sched_feat()\<close>. Their table (features.h) is
  not part of this file, so the three features the modelled functions test are
  parameters.
\<close>

record sched_features =
  START_DEBIT :: bool
  GENTLE_FAIR_SLEEPERS :: bool
  STRICT_SKIP_BUDDY :: bool

section \<open>Load weights and the fixed-point multiply\<close>

record load_weight =
  weight :: ulong
  inv_weight :: u32

text \<open>
  \<^verbatim>\<open>scale_load_down\<close> and \<^verbatim>\<open>NICE_0_LOAD\<close> come from the scheduler's header. With
  \<^verbatim>\<open>SCHED_LOAD_RESOLUTION\<close> 0 the first is the identity and the second is \<open>2^10\<close>
  (the comment above \<^verbatim>\<open>__calc_delta\<close>: "NICE_0_LOAD gives another 10 bits").
\<close>

definition scale_load_down :: "ulong \<Rightarrow> ulong" where
  "scale_load_down w = w"

definition NICE_0_LOAD :: ulong where
  "NICE_0_LOAD = 1024"

definition WMULT_CONST :: u32 where
  "WMULT_CONST = 0xFFFFFFFF"

definition WMULT_SHIFT :: int where
  "WMULT_SHIFT = 32"

definition update_load_add :: "load_weight \<Rightarrow> ulong \<Rightarrow> load_weight" where
  "update_load_add lw inc = lw\<lparr>weight := weight lw + inc, inv_weight := 0\<rparr>"

definition update_load_sub :: "load_weight \<Rightarrow> ulong \<Rightarrow> load_weight" where
  "update_load_sub lw dec = lw\<lparr>weight := weight lw - dec, inv_weight := 0\<rparr>"

definition update_load_set :: "load_weight \<Rightarrow> ulong \<Rightarrow> load_weight" where
  "update_load_set lw w = lw\<lparr>weight := w, inv_weight := 0\<rparr>"

definition raw_update_inv_weight :: "load_weight \<Rightarrow> load_weight" where
  "raw_update_inv_weight lw =
     (if inv_weight lw \<noteq> 0 then lw
      else let w = scale_load_down (weight lw) in
        if w \<ge> ucast WMULT_CONST then lw\<lparr>inv_weight := 1\<rparr>
        else if w = 0 then lw\<lparr>inv_weight := WMULT_CONST\<rparr>
        else lw\<lparr>inv_weight := ucast (ucast WMULT_CONST div w)\<rparr>)"

text \<open>
  \<^verbatim>\<open>mul_u64_u32_shr(a, mul, shift)\<close> of linux/math64.h: the 96-bit product shifted
  right, cut to 64 bits.
\<close>

definition mul_u64_u32_shr :: "u64 \<Rightarrow> u32 \<Rightarrow> nat \<Rightarrow> u64" where
  "mul_u64_u32_shr a mul shift = of_nat ((unat a * unat mul) div 2 ^ shift)"

text \<open>The loop \<^verbatim>\<open>while (fact >> 32) { fact >>= 1; shift--; }\<close>.\<close>

function shrink_fact :: "u64 \<Rightarrow> int \<Rightarrow> u64 \<times> int" where
  "shrink_fact fct shift =
     (if drop_bit 32 fct \<noteq> 0 then shrink_fact (drop_bit 1 fct) (shift - 1)
      else (fct, shift))"
  by pat_completeness auto
termination
proof (relation "measure (\<lambda>(fct, shift). unat fct)")
  show "wf (measure (\<lambda>(fct :: u64, shift :: int). unat fct))"
    by simp
next
  fix fct :: u64 and shift :: int
  assume nz: "drop_bit 32 fct \<noteq> 0"
  then have "fct \<noteq> 0"
    by auto
  then have "unat fct \<noteq> 0"
    by (simp add: unat_eq_0)
  then have "unat fct div 2 < unat fct"
    by simp
  then have "unat (drop_bit 1 fct) < unat fct"
    by (simp add: drop_bit_eq_div unat_div)
  then show "((drop_bit 1 fct, shift - 1), (fct, shift))
               \<in> measure (\<lambda>(fct, shift). unat fct)"
    by simp
qed

text \<open>
  \<^verbatim>\<open>__calc_delta\<close> (lines 236-259). The source caches the inverse weight in
  \<^verbatim>\<open>lw->inv_weight\<close>; the model returns the value computed. The shift handed to
  \<^verbatim>\<open>mul_u64_u32_shr\<close> is an \<^verbatim>\<open>int\<close> in the source and is read as a natural number
  here: it stays in \<open>0..32\<close> whenever \<open>weight\<close> is below \<open>2^32\<close>.
\<close>

definition raw_calc_delta :: "u64 \<Rightarrow> ulong \<Rightarrow> load_weight \<Rightarrow> u64" where
  "raw_calc_delta delta_exec w lw =
     (let lw' = raw_update_inv_weight lw;
          (fact1, shift1) = shrink_fact (scale_load_down w) WMULT_SHIFT;
          fact2 = ucast (ucast fact1 :: u32) * ucast (inv_weight lw');
          (fact3, shift3) = shrink_fact fact2 shift1
      in mul_u64_u32_shr delta_exec (ucast fact3) (nat shift3))"

section \<open>Entities and the per-queue state of the virtual-time engine\<close>

text \<open>
  Entities are referred to by address; \<open>ents\<close> maps an address to the entity stored
  there and \<open>None\<close> is the NULL pointer. The record carries the fields that the
  virtual-time functions read or write; statistics, load tracking and bandwidth
  fields of \<^verbatim>\<open>struct sched_entity\<close> and \<^verbatim>\<open>struct cfs_rq\<close> are outside this state.
\<close>

type_synonym se_ptr = nat

record sched_entity =
  load :: load_weight
  vruntime :: u64
  sum_exec_runtime :: u64
  prev_sum_exec_runtime :: u64
  exec_start :: u64
  on_rq :: bool

type_synonym entities = "se_ptr \<Rightarrow> sched_entity"

record cfs_rq =
  cfs_load :: load_weight
  nr_running :: u32
  min_vruntime_of :: u64
  tasks_timeline :: "se_ptr tree"
  rb_leftmost :: "se_ptr option"
  curr :: "se_ptr option"
  next_buddy :: "se_ptr option"
  last_buddy :: "se_ptr option"
  skip_buddy :: "se_ptr option"

subsection \<open>Comparing virtual runtimes (lines 458-480)\<close>

definition max_vruntime :: "u64 \<Rightarrow> u64 \<Rightarrow> u64" where
  "max_vruntime max_vr vr =
     (let delta = sint (vr - max_vr) in if delta > 0 then vr else max_vr)"

definition min_vruntime :: "u64 \<Rightarrow> u64 \<Rightarrow> u64" where
  "min_vruntime min_vr vr =
     (let delta = sint (vr - min_vr) in if delta < 0 then vr else min_vr)"

definition entity_before :: "sched_entity \<Rightarrow> sched_entity \<Rightarrow> bool" where
  "entity_before a b \<longleftrightarrow> sint (vruntime a - vruntime b) < 0"

text \<open>\<^verbatim>\<open>update_min_vruntime\<close> (lines 482-506).\<close>

definition update_min_vruntime :: "entities \<Rightarrow> cfs_rq \<Rightarrow> cfs_rq" where
  "update_min_vruntime ents q =
     (let v0 = min_vruntime_of q;
          v1 = (case curr q of Some c \<Rightarrow> vruntime (ents c) | None \<Rightarrow> v0);
          v2 = (case rb_leftmost q of
                  None \<Rightarrow> v1
                | Some l \<Rightarrow>
                    (case curr q of
                       None \<Rightarrow> vruntime (ents l)
                     | Some c \<Rightarrow> min_vruntime v1 (vruntime (ents l))))
      in q\<lparr>min_vruntime_of := max_vruntime (min_vruntime_of q) v2\<rparr>)"

subsection \<open>The timeline (lines 508-577)\<close>

text \<open>
  \<^verbatim>\<open>tasks_timeline\<close> is the red-black tree of the queued entities. The descent of
  \<^verbatim>\<open>__enqueue_entity\<close> is modelled on the binary tree; \<^verbatim>\<open>rb_link_node\<close> puts the new
  node at the leaf the descent reached. \<^verbatim>\<open>rb_insert_color\<close>, \<^verbatim>\<open>rb_erase\<close> and
  \<^verbatim>\<open>rb_next\<close> belong to lib/rbtree.c: recolouring and rotations keep the in-order
  sequence, which is all the scheduler reads, so they are modelled by their effect
  on that sequence.
\<close>

fun rb_find_link :: "entities \<Rightarrow> se_ptr \<Rightarrow> se_ptr tree \<Rightarrow> bool \<Rightarrow> se_ptr tree \<times> bool" where
  "rb_find_link ents se Leaf leftmost = (Node Leaf se Leaf, leftmost)"
| "rb_find_link ents se (Node l entry r) leftmost =
     (if entity_before (ents se) (ents entry)
      then (let (l', lm) = rb_find_link ents se l leftmost in (Node l' entry r, lm))
      else (let (r', lm) = rb_find_link ents se r False in (Node l entry r', lm)))"

definition raw_enqueue_entity :: "entities \<Rightarrow> cfs_rq \<Rightarrow> se_ptr \<Rightarrow> cfs_rq" where
  "raw_enqueue_entity ents q se =
     (let (t', leftmost) = rb_find_link ents se (tasks_timeline q) True
      in q\<lparr>tasks_timeline := t',
            rb_leftmost := (if leftmost then Some se else rb_leftmost q)\<rparr>)"

text \<open>\<^verbatim>\<open>rb_next\<close>: the in-order successor of a node, NULL for the last one.\<close>

fun list_next :: "se_ptr \<Rightarrow> se_ptr list \<Rightarrow> se_ptr option" where
  "list_next p [] = None"
| "list_next p [x] = None"
| "list_next p (x # y # ys) = (if x = p then Some y else list_next p (y # ys))"

definition rb_next :: "se_ptr \<Rightarrow> se_ptr tree \<Rightarrow> se_ptr option" where
  "rb_next p t = list_next p (inorder t)"

text \<open>\<^verbatim>\<open>rb_erase\<close>: the node leaves the tree, the others keep their order.\<close>

fun rb_split_min :: "se_ptr tree \<Rightarrow> se_ptr tree \<Rightarrow> se_ptr \<Rightarrow> se_ptr \<times> se_ptr tree" where
  "rb_split_min Leaf r x = (x, r)"
| "rb_split_min (Node ll y lr) r x =
     (let (m, l') = rb_split_min ll lr y in (m, Node l' x r))"

fun rb_erase :: "se_ptr \<Rightarrow> se_ptr tree \<Rightarrow> se_ptr tree" where
  "rb_erase p Leaf = Leaf"
| "rb_erase p (Node l x r) =
     (if x = p then
        (case r of
           Leaf \<Rightarrow> l
         | Node rl y rr \<Rightarrow> (let (m, r') = rb_split_min rl rr y in Node l m r'))
      else Node (rb_erase p l) x (rb_erase p r))"

definition raw_dequeue_entity :: "cfs_rq \<Rightarrow> se_ptr \<Rightarrow> cfs_rq" where
  "raw_dequeue_entity q se =
     (let lm = (if rb_leftmost q = Some se then rb_next se (tasks_timeline q)
                else rb_leftmost q)
      in q\<lparr>rb_leftmost := lm, tasks_timeline := rb_erase se (tasks_timeline q)\<rparr>)"

definition raw_pick_first_entity :: "cfs_rq \<Rightarrow> se_ptr option" where
  "raw_pick_first_entity q = rb_leftmost q"

definition raw_pick_next_entity :: "cfs_rq \<Rightarrow> se_ptr \<Rightarrow> se_ptr option" where
  "raw_pick_next_entity q se = rb_next se (tasks_timeline q)"

subsection \<open>Period and slice (lines 618-681)\<close>

text \<open>
  The entity walk \<^verbatim>\<open>for_each_sched_entity\<close> is the one of the build without
  \<^verbatim>\<open>CONFIG_FAIR_GROUP_SCHED\<close> (lines 392-449): one iteration, on the entity itself,
  whose queue is the queue passed in. With group scheduling the same holds for
  every entity of a root queue, whose parent is NULL.
\<close>

definition calc_delta_fair :: "u64 \<Rightarrow> sched_entity \<Rightarrow> u64" where
  "calc_delta_fair delta se =
     (if weight (load se) \<noteq> NICE_0_LOAD
      then raw_calc_delta delta NICE_0_LOAD (load se) else delta)"

definition raw_sched_period :: "tunables \<Rightarrow> ulong \<Rightarrow> u64" where
  "raw_sched_period tun nr =
     (if nr > ucast (sched_nr_latency tun)
      then nr * ucast (sysctl_sched_min_granularity tun)
      else ucast (sysctl_sched_latency tun))"

definition sched_slice :: "tunables \<Rightarrow> cfs_rq \<Rightarrow> sched_entity \<Rightarrow> u64" where
  "sched_slice tun q se =
     (let slice = raw_sched_period tun
                    (ucast (nr_running q + (if on_rq se then 0 else 1)));
          ld = (if \<not> on_rq se then update_load_add (cfs_load q) (weight (load se))
                else cfs_load q)
      in raw_calc_delta slice (weight (load se)) ld)"

definition sched_vslice :: "tunables \<Rightarrow> cfs_rq \<Rightarrow> sched_entity \<Rightarrow> u64" where
  "sched_vslice tun q se = calc_delta_fair (sched_slice tun q se) se"

subsection \<open>Run-time accounting of the running entity (lines 723-756)\<close>

text \<open>
  \<open>now\<close> is \<^verbatim>\<open>rq_clock_task(rq_of(cfs_rq))\<close>. The calls after
  \<^verbatim>\<open>update_min_vruntime\<close> (tracing, cpuacct, bandwidth accounting) do not touch the
  modelled fields.
\<close>

definition update_curr :: "u64 \<Rightarrow> entities \<times> cfs_rq \<Rightarrow> entities \<times> cfs_rq" where
  "update_curr now s =
     (let (ents, q) = s in
      case curr q of
        None \<Rightarrow> (ents, q)
      | Some c \<Rightarrow>
          (let e = ents c; delta_exec = now - exec_start e in
           if sint delta_exec \<le> 0 then (ents, q)
           else
             (let e' = e\<lparr>exec_start := now,
                         sum_exec_runtime := sum_exec_runtime e + delta_exec,
                         vruntime := vruntime e + calc_delta_fair delta_exec e\<rparr>;
                  ents' = ents(c := e')
              in (ents', update_min_vruntime ents' q))))"

definition account_entity_enqueue :: "entities \<Rightarrow> cfs_rq \<Rightarrow> se_ptr \<Rightarrow> cfs_rq" where
  "account_entity_enqueue ents q se =
     q\<lparr>cfs_load := update_load_add (cfs_load q) (weight (load (ents se))),
       nr_running := nr_running q + 1\<rparr>"

definition account_entity_dequeue :: "entities \<Rightarrow> cfs_rq \<Rightarrow> se_ptr \<Rightarrow> cfs_rq" where
  "account_entity_dequeue ents q se =
     q\<lparr>cfs_load := update_load_sub (cfs_load q) (weight (load (ents se))),
       nr_running := nr_running q - 1\<rparr>"

subsection \<open>Placement, enqueue and dequeue (lines 5172-5339)\<close>

definition place_entity ::
  "sched_features \<Rightarrow> tunables \<Rightarrow> entities \<Rightarrow> cfs_rq \<Rightarrow> se_ptr \<Rightarrow> bool \<Rightarrow> entities" where
  "place_entity feat tun ents q se initial =
     (let e = ents se;
          v0 = min_vruntime_of q;
          v1 = (if initial \<and> START_DEBIT feat then v0 + sched_vslice tun q e else v0);
          v2 = (if \<not> initial then
                  (let thresh0 = (ucast (sysctl_sched_latency tun) :: ulong);
                       thresh = (if GENTLE_FAIR_SLEEPERS feat then drop_bit 1 thresh0
                                 else thresh0)
                   in v1 - thresh)
                else v1)
      in ents(se := e\<lparr>vruntime := max_vruntime (vruntime e) v2\<rparr>))"

text \<open>
  The flags of enqueue and dequeue that the modelled code tests
  (\<^verbatim>\<open>ENQUEUE_WAKEUP\<close>, \<^verbatim>\<open>ENQUEUE_WAKING\<close>, \<^verbatim>\<open>DEQUEUE_SLEEP\<close>).
\<close>

record enqueue_flags =
  ENQUEUE_WAKEUP :: bool
  ENQUEUE_WAKING :: bool

definition clear_buddies :: "cfs_rq \<Rightarrow> se_ptr \<Rightarrow> cfs_rq" where
  "clear_buddies q se =
     (let q1 = (if last_buddy q = Some se then q\<lparr>last_buddy := None\<rparr> else q);
          q2 = (if next_buddy q1 = Some se then q1\<lparr>next_buddy := None\<rparr> else q1)
      in if skip_buddy q2 = Some se then q2\<lparr>skip_buddy := None\<rparr> else q2)"

text \<open>
  \<^verbatim>\<open>enqueue_entity\<close>. Load tracking, statistics, \<^verbatim>\<open>check_spread\<close> and the throttle
  check act outside the modelled fields; \<^verbatim>\<open>update_cfs_shares\<close> is empty without
  group scheduling.
\<close>

definition enqueue_entity ::
  "sched_features \<Rightarrow> tunables \<Rightarrow> u64 \<Rightarrow> enqueue_flags \<Rightarrow> entities \<times> cfs_rq \<Rightarrow> se_ptr
     \<Rightarrow> entities \<times> cfs_rq" where
  "enqueue_entity feat tun now flags s se =
     (let (ents, q) = s;
          ents1 = (if \<not> ENQUEUE_WAKEUP flags \<or> ENQUEUE_WAKING flags
                   then ents(se := (ents se)\<lparr>vruntime := vruntime (ents se) + min_vruntime_of q\<rparr>)
                   else ents);
          (ents2, q2) = update_curr now (ents1, q);
          q3 = account_entity_enqueue ents2 q2 se;
          ents4 = (if ENQUEUE_WAKEUP flags then place_entity feat tun ents2 q3 se False
                   else ents2);
          q5 = (if Some se \<noteq> curr q3 then raw_enqueue_entity ents4 q3 se else q3)
      in (ents4(se := (ents4 se)\<lparr>on_rq := True\<rparr>), q5))"

definition dequeue_entity ::
  "u64 \<Rightarrow> bool \<Rightarrow> entities \<times> cfs_rq \<Rightarrow> se_ptr \<Rightarrow> entities \<times> cfs_rq" where
  "dequeue_entity now DEQUEUE_SLEEP s se =
     (let (ents1, q1) = update_curr now s;
          q2 = clear_buddies q1 se;
          q3 = (if Some se \<noteq> curr q2 then raw_dequeue_entity q2 se else q2);
          ents3 = ents1(se := (ents1 se)\<lparr>on_rq := False\<rparr>);
          q4 = account_entity_dequeue ents3 q3 se;
          ents4 = (if \<not> DEQUEUE_SLEEP
                   then ents3(se := (ents3 se)\<lparr>vruntime := vruntime (ents3 se) - min_vruntime_of q4\<rparr>)
                   else ents3)
      in (ents4, update_min_vruntime ents4 q4))"

subsection \<open>Preemption at the tick (lines 5344-5379)\<close>

text \<open>
  A dereference of a NULL entity pointer is the fault \<open>NullDeref\<close>. The result of
  \<^verbatim>\<open>check_preempt_tick\<close> is whether \<^verbatim>\<open>resched_curr\<close> was called, with the queue
  after \<^verbatim>\<open>clear_buddies\<close>.
\<close>

datatype fault = NullDeref

definition check_preempt_tick ::
  "tunables \<Rightarrow> entities \<Rightarrow> cfs_rq \<Rightarrow> se_ptr \<Rightarrow> fault + (bool \<times> cfs_rq)" where
  "check_preempt_tick tun ents q cp =
     (let c = ents cp;
          ideal_runtime = (sched_slice tun q c :: ulong);
          delta_exec = (sum_exec_runtime c - prev_sum_exec_runtime c :: ulong)
      in if delta_exec > ideal_runtime then Inr (True, clear_buddies q cp)
         else if delta_exec < ucast (sysctl_sched_min_granularity tun) then Inr (False, q)
         else
           (case raw_pick_first_entity q of
              None \<Rightarrow> Inl NullDeref
            | Some se \<Rightarrow>
                (let delta = vruntime c - vruntime (ents se) in
                 if sint delta < 0 then Inr (False, q)
                 else if delta > ideal_runtime then Inr (True, q)
                 else Inr (False, q))))"

subsection \<open>Picking the next entity (lines 5422-5472, 7406-7454)\<close>

definition wakeup_gran :: "tunables \<Rightarrow> sched_entity \<Rightarrow> sched_entity \<Rightarrow> ulong" where
  "wakeup_gran tun c se =
     calc_delta_fair (ucast (sysctl_sched_wakeup_granularity tun)) se"

definition wakeup_preempt_entity :: "tunables \<Rightarrow> sched_entity \<Rightarrow> sched_entity \<Rightarrow> int" where
  "wakeup_preempt_entity tun c se =
     (let vdiff = vruntime c - vruntime se in
      if sint vdiff \<le> 0 then - 1
      else (let gran = wakeup_gran tun c se in
            if sint vdiff > sint gran then 1 else 0))"

text \<open>
  The test \<^verbatim>\<open>buddy && wakeup_preempt_entity(buddy, left) < 1\<close>, where \<open>left\<close> may be
  NULL and is dereferenced by \<^verbatim>\<open>wakeup_preempt_entity\<close>.
\<close>

definition buddy_ok ::
  "tunables \<Rightarrow> entities \<Rightarrow> se_ptr option \<Rightarrow> se_ptr option \<Rightarrow> fault + bool" where
  "buddy_ok tun ents buddy lft =
     (case buddy of
        None \<Rightarrow> Inr False
      | Some b \<Rightarrow>
          (case lft of
             None \<Rightarrow> Inl NullDeref
           | Some l \<Rightarrow> Inr (wakeup_preempt_entity tun (ents b) (ents l) < 1)))"

definition curr_before :: "entities \<Rightarrow> se_ptr option \<Rightarrow> se_ptr \<Rightarrow> bool" where
  "curr_before ents cu x =
     (case cu of None \<Rightarrow> False | Some c \<Rightarrow> entity_before (ents c) (ents x))"

text \<open>
  \<^verbatim>\<open>pick_next_entity\<close> in its three stages: the leftmost entity or the running one
  (lines 5425-5435), the skip buddy (lines 5441-5455), and the last and next buddies
  (lines 5460-5471).
\<close>

definition pick_left :: "entities \<Rightarrow> cfs_rq \<Rightarrow> se_ptr option \<Rightarrow> se_ptr option" where
  "pick_left ents q cu =
     (case raw_pick_first_entity q of
        None \<Rightarrow> cu
      | Some l \<Rightarrow> if curr_before ents cu l then cu else Some l)"

definition pick_skip ::
  "sched_features \<Rightarrow> tunables \<Rightarrow> entities \<Rightarrow> cfs_rq \<Rightarrow> se_ptr option \<Rightarrow> se_ptr option
     \<Rightarrow> fault + se_ptr option" where
  "pick_skip feat tun ents q cu lft =
     (if skip_buddy q = lft then
        (let second0 =
               (if lft = cu then Inr (raw_pick_first_entity q)
                else
                  (case lft of
                     None \<Rightarrow> Inl NullDeref
                   | Some s \<Rightarrow>
                       (case raw_pick_next_entity q s of
                          None \<Rightarrow> Inr cu
                        | Some n \<Rightarrow> Inr (if curr_before ents cu n then cu else Some n))))
         in case second0 of
              Inl f \<Rightarrow> Inl f
            | Inr second \<Rightarrow>
                (if second \<noteq> None \<and> STRICT_SKIP_BUDDY feat then Inr second
                 else
                   (case buddy_ok tun ents second lft of
                      Inl f \<Rightarrow> Inl f
                    | Inr ok \<Rightarrow> Inr (if ok then second else lft))))
      else Inr lft)"

definition pick_next_entity ::
  "sched_features \<Rightarrow> tunables \<Rightarrow> entities \<Rightarrow> cfs_rq \<Rightarrow> se_ptr option
     \<Rightarrow> fault + (se_ptr option \<times> cfs_rq)" where
  "pick_next_entity feat tun ents q cu =
     (let lft = pick_left ents q cu in
      case pick_skip feat tun ents q cu lft of
        Inl f \<Rightarrow> Inl f
      | Inr se1 \<Rightarrow>
          (case buddy_ok tun ents (last_buddy q) lft of
             Inl f \<Rightarrow> Inl f
           | Inr ok_last \<Rightarrow>
               (let se2 = (if ok_last then last_buddy q else se1) in
                case buddy_ok tun ents (next_buddy q) lft of
                  Inl f \<Rightarrow> Inl f
                | Inr ok_next \<Rightarrow>
                    (let se3 = (if ok_next then next_buddy q else se2) in
                     case se3 of
                       None \<Rightarrow> Inr (None, q)
                     | Some s \<Rightarrow> Inr (se3, clear_buddies q s)))))"

subsection \<open>Sequences of queue operations\<close>

text \<open>
  The operations that reach \<^verbatim>\<open>update_min_vruntime\<close>, and the values the field
  \<^verbatim>\<open>min_vruntime\<close> takes while a list of them runs: one value for each call of
  \<^verbatim>\<open>update_min_vruntime\<close> that an operation makes (\<^verbatim>\<open>dequeue_entity\<close> makes two,
  the first inside \<^verbatim>\<open>update_curr\<close>).
\<close>

datatype queue_op =
  Op_update_curr u64
| Op_enqueue u64 enqueue_flags se_ptr
| Op_dequeue u64 bool se_ptr

fun apply_op ::
  "sched_features \<Rightarrow> tunables \<Rightarrow> queue_op \<Rightarrow> entities \<times> cfs_rq \<Rightarrow> entities \<times> cfs_rq" where
  "apply_op feat tun (Op_update_curr now) s = update_curr now s"
| "apply_op feat tun (Op_enqueue now flags se) s = enqueue_entity feat tun now flags s se"
| "apply_op feat tun (Op_dequeue now sleep se) s = dequeue_entity now sleep s se"

fun watermark_writes ::
  "sched_features \<Rightarrow> tunables \<Rightarrow> queue_op \<Rightarrow> entities \<times> cfs_rq \<Rightarrow> u64 list" where
  "watermark_writes feat tun (Op_dequeue now sleep se) s =
     [min_vruntime_of (snd (update_curr now s)),
      min_vruntime_of (snd (dequeue_entity now sleep s se))]"
| "watermark_writes feat tun op s = [min_vruntime_of (snd (apply_op feat tun op s))]"

fun watermark_history ::
  "sched_features \<Rightarrow> tunables \<Rightarrow> entities \<times> cfs_rq \<Rightarrow> queue_op list \<Rightarrow> u64 list" where
  "watermark_history feat tun s [] = []"
| "watermark_history feat tun s (op # ops) =
     watermark_writes feat tun op s @ watermark_history feat tun (apply_op feat tun op s) ops"

text \<open>Each value is not before its predecessor in the order of the signed difference.\<close>

fun wrap_nondecreasing :: "u64 list \<Rightarrow> bool" where
  "wrap_nondecreasing (x # y # ys) \<longleftrightarrow> 0 \<le> sint (y - x) \<and> wrap_nondecreasing (y # ys)"
| "wrap_nondecreasing ys \<longleftrightarrow> True"

text \<open>The value \<^verbatim>\<open>update_min_vruntime\<close> compares the old watermark with.\<close>

definition watermark_target :: "entities \<Rightarrow> cfs_rq \<Rightarrow> u64" where
  "watermark_target ents q =
     (case (curr q, rb_leftmost q) of
        (None, None) \<Rightarrow> min_vruntime_of q
      | (Some c, None) \<Rightarrow> vruntime (ents c)
      | (None, Some l) \<Rightarrow> vruntime (ents l)
      | (Some c, Some l) \<Rightarrow> min_vruntime (vruntime (ents c)) (vruntime (ents l)))"

subsection \<open>A queue whose virtual runtimes straddle the 64-bit overflow\<close>

definition wrap_ents :: entities where
  "wrap_ents =
     (\<lambda>p. \<lparr>load = \<lparr>weight = 1024, inv_weight = 0\<rparr>,
            vruntime = (if p = 1 then 0xFFFFFFFFFFFFFFFD else 5),
            sum_exec_runtime = 0, prev_sum_exec_runtime = 0, exec_start = 0,
            on_rq = True\<rparr>)"

definition wrap_true :: "se_ptr \<Rightarrow> nat" where
  "wrap_true p = (if p = 1 then 18446744073709551613 else 18446744073709551621)"

definition wrap_queue :: cfs_rq where
  "wrap_queue =
     \<lparr>cfs_load = \<lparr>weight = 2048, inv_weight = 0\<rparr>, nr_running = 2,
      min_vruntime_of = 0xFFFFFFFFFFFFFFFD,
      tasks_timeline = Node Leaf 1 (Node Leaf 2 Leaf), rb_leftmost = Some 1,
      curr = None, next_buddy = None, last_buddy = None, skip_buddy = None\<rparr>"

subsection \<open>Queues of equal-weight tasks\<close>

text \<open>
  A nice-0 task entity as \<^verbatim>\<open>set_load_weight\<close> leaves it (weight 1024, inverse weight
  from \<^verbatim>\<open>prio_to_wmult\<close>), and a queue on which \<open>n\<close> such tasks are enqueued: its
  load is the sum of the weights and \<^verbatim>\<open>update_load_add\<close> has reset the cached
  inverse.
\<close>

definition nice0_entity :: sched_entity where
  "nice0_entity =
     \<lparr>load = \<lparr>weight = 1024, inv_weight = 4194304\<rparr>, vruntime = 0,
      sum_exec_runtime = 0, prev_sum_exec_runtime = 0, exec_start = 0, on_rq = True\<rparr>"

definition equal_queue :: "nat \<Rightarrow> cfs_rq" where
  "equal_queue n =
     \<lparr>cfs_load = \<lparr>weight = of_nat n * 1024, inv_weight = 0\<rparr>, nr_running = of_nat n,
      min_vruntime_of = 0, tasks_timeline = Leaf, rb_leftmost = None,
      curr = None, next_buddy = None, last_buddy = None, skip_buddy = None\<rparr>"

subsection \<open>A queue of two tasks at the tick\<close>

text \<open>
  Entity 1 is a queued nice-0 task, the leftmost of the timeline. Entity 2 is the
  running task, of weight \<open>w\<close>, which has run \<open>elapsed\<close> nanoseconds since it was picked
  and stands at virtual runtime \<open>v\<close>.
\<close>

definition tick_ents :: "ulong \<Rightarrow> u64 \<Rightarrow> u64 \<Rightarrow> entities" where
  "tick_ents w elapsed v =
     (\<lambda>p. if p = 2
          then \<lparr>load = \<lparr>weight = w, inv_weight = 0\<rparr>, vruntime = v,
                sum_exec_runtime = elapsed, prev_sum_exec_runtime = 0, exec_start = 0,
                on_rq = True\<rparr>
          else nice0_entity)"

definition tick_queue :: "ulong \<Rightarrow> cfs_rq" where
  "tick_queue w =
     \<lparr>cfs_load = \<lparr>weight = 1024 + w, inv_weight = 0\<rparr>, nr_running = 2,
      min_vruntime_of = 0, tasks_timeline = Node Leaf 1 Leaf, rb_leftmost = Some 1,
      curr = Some 2, next_buddy = None, last_buddy = None, skip_buddy = None\<rparr>"

subsection \<open>A task that is not yet queued\<close>

definition new_ents :: entities where
  "new_ents = (\<lambda>p. nice0_entity\<lparr>on_rq := False\<rparr>)"

definition no_start_debit :: sched_features where
  "no_start_debit =
     \<lparr>START_DEBIT = False, GENTLE_FAIR_SLEEPERS = True, STRICT_SKIP_BUDDY = False\<rparr>"

definition debit_gentle :: sched_features where
  "debit_gentle =
     \<lparr>START_DEBIT = True, GENTLE_FAIR_SLEEPERS = True, STRICT_SKIP_BUDDY = False\<rparr>"

text \<open>Four queued nice-0 tasks whose watermark stands at 100 ms.\<close>

definition late_queue :: cfs_rq where
  "late_queue = (equal_queue 4)\<lparr>min_vruntime_of := 100000000\<rparr>"

subsection \<open>A queue with buddies\<close>

text \<open>
  Entities 2, 3 and 4 are queued nice-0 tasks at virtual runtimes 0, 500000 and
  5000000; nothing runs. Entity 3 is the next buddy and entity 4 the last buddy.
\<close>

definition buddy_ents :: entities where
  "buddy_ents =
     (\<lambda>p. nice0_entity\<lparr>vruntime := (if p = 2 then 0 else if p = 3 then 500000 else 5000000)\<rparr>)"

definition buddy_queue :: cfs_rq where
  "buddy_queue =
     \<lparr>cfs_load = \<lparr>weight = 3072, inv_weight = 0\<rparr>, nr_running = 3,
      min_vruntime_of = 0, tasks_timeline = Node Leaf 2 (Node Leaf 3 (Node Leaf 4 Leaf)),
      rb_leftmost = Some 2, curr = None,
      next_buddy = Some 3, last_buddy = Some 4, skip_buddy = None\<rparr>"

text \<open>
  Entity 2 is queued at virtual runtime 0 with weight \<open>w\<close> and cached inverse \<open>iw\<close>;
  entity 3 is a queued nice-0 task at virtual runtime \<open>v\<close> and is the next buddy.
  Nothing runs.
\<close>

definition weighted_ents :: "ulong \<Rightarrow> u32 \<Rightarrow> u64 \<Rightarrow> entities" where
  "weighted_ents w iw v =
     (\<lambda>p. if p = 2 then nice0_entity\<lparr>load := \<lparr>weight = w, inv_weight = iw\<rparr>\<rparr>
          else nice0_entity\<lparr>vruntime := v\<rparr>)"

definition pair_queue :: cfs_rq where
  "pair_queue =
     \<lparr>cfs_load = \<lparr>weight = 0, inv_weight = 0\<rparr>, nr_running = 2,
      min_vruntime_of = 0, tasks_timeline = Node Leaf 2 (Node Leaf 3 Leaf),
      rb_leftmost = Some 2, curr = None,
      next_buddy = Some 3, last_buddy = None, skip_buddy = None\<rparr>"

subsection \<open>Load weights and their cached inverse\<close>

text \<open>
  A load weight below \<open>2^32 - 1\<close> whose cached inverse is unset (0), or what
  \<^verbatim>\<open>__update_inv_weight\<close> computes (\<open>(2^32 - 1) / weight\<close>), or \<open>2^32 / weight\<close>, the
  value that \<^verbatim>\<open>set_load_weight\<close> takes from the table \<^verbatim>\<open>prio_to_wmult\<close> (4194304 for
  the weight 1024).
\<close>

definition inverse_weight_ok :: "load_weight \<Rightarrow> bool" where
  "inverse_weight_ok lw =
     (0 < unat (weight lw) \<and> unat (weight lw) < 4294967295
      \<and> (inv_weight lw = 0
         \<or> unat (inv_weight lw) = 4294967295 div unat (weight lw)
         \<or> unat (inv_weight lw) = 4294967296 div unat (weight lw)))"

section \<open>Running-average load tracker: decay (lines 687-693, 2368-2446)\<close>

definition LOAD_AVG_PERIOD :: nat where
  "LOAD_AVG_PERIOD = 32"

definition LOAD_AVG_MAX :: nat where
  "LOAD_AVG_MAX = 47742"

definition LOAD_AVG_MAX_N :: nat where
  "LOAD_AVG_MAX_N = 345"

definition runnable_avg_yN_inv :: "u32 list" where
  "runnable_avg_yN_inv =
     [0xffffffff, 0xfa83b2da, 0xf5257d14, 0xefe4b99a, 0xeac0c6e6, 0xe5b906e6,
      0xe0ccdeeb, 0xdbfbb796, 0xd744fcc9, 0xd2a81d91, 0xce248c14, 0xc9b9bd85,
      0xc5672a10, 0xc12c4cc9, 0xbd08a39e, 0xb8fbaf46, 0xb504f333, 0xb123f581,
      0xad583ee9, 0xa9a15ab4, 0xa5fed6a9, 0xa2704302, 0x9ef5325f, 0x9b8d39b9,
      0x9837f050, 0x94f4efa8, 0x91c3d373, 0x8ea4398a, 0x8b95c1e3, 0x88980e80,
      0x85aac367, 0x82cd8698]"

definition runnable_avg_yN_sum :: "u32 list" where
  "runnable_avg_yN_sum =
     [    0, 1002, 1982, 2941, 3880, 4798, 5697, 6576, 7437, 8279, 9103,
       9909,10698,11470,12226,12966,13690,14398,15091,15769,16433,17082,
      17718,18340,18949,19545,20128,20698,21256,21802,22336,22859,23371]"

text \<open>
  \<^verbatim>\<open>decay_load\<close>. After the two bounds checks \<open>n\<close> is at most \<open>32 * 63\<close>, the shift
  count is at most 63 and the table index is below 32.
\<close>

definition decay_load :: "u64 \<Rightarrow> u64 \<Rightarrow> u64" where
  "decay_load val n =
     (if n = 0 then val
      else if n > of_nat (LOAD_AVG_PERIOD * 63) then 0
      else
        (let local_n = (ucast n :: u32);
             (val1, local_n1) =
               (if local_n \<ge> of_nat LOAD_AVG_PERIOD
                then (drop_bit (unat (local_n div of_nat LOAD_AVG_PERIOD)) val,
                      local_n mod of_nat LOAD_AVG_PERIOD)
                else (val, local_n))
         in mul_u64_u32_shr val1 (runnable_avg_yN_inv ! unat local_n1) 32))"

text \<open>
  The loop of \<^verbatim>\<open>__compute_runnable_contrib\<close>:
  \<^verbatim>\<open>do { contrib /= 2; contrib += sum[32]; n -= 32; } while (n > 32)\<close>.
\<close>

function contrib_loop :: "u32 \<Rightarrow> u64 \<Rightarrow> u32 \<times> u64" where
  "contrib_loop contrib n =
     (let contrib1 = contrib div 2 + runnable_avg_yN_sum ! LOAD_AVG_PERIOD;
          n1 = n - of_nat LOAD_AVG_PERIOD
      in if n1 > of_nat LOAD_AVG_PERIOD then contrib_loop contrib1 n1 else (contrib1, n1))"
  by pat_completeness auto
termination
proof (relation "measure (\<lambda>(c, n). if unat n < 32 then 2 ^ 64 + unat n else unat n)")
  show "wf (measure (\<lambda>(c :: u32, n :: u64). if unat n < 32 then 2 ^ 64 + unat n else unat n))"
    by simp
next
  fix contrib :: u32 and n :: u64 and contrib1 :: u32 and n1 :: u64
  assume n1: "n1 = n - of_nat LOAD_AVG_PERIOD" and gt: "of_nat LOAD_AVG_PERIOD < n1"
  have b: "unat n < 2 ^ 64"
    using unsigned_less [of n] by simp
  have u: "unat n1 = (if unat n < 32 then 2 ^ 64 + unat n - 32 else unat n - 32)"
    using b unfolding n1 LOAD_AVG_PERIOD_def
    by (simp add: unat_sub_if' word_less_nat_alt word_le_nat_alt)
  have g: "32 < unat n1"
    using gt by (simp add: LOAD_AVG_PERIOD_def word_less_nat_alt)
  show "((contrib1, n1), (contrib, n))
          \<in> measure (\<lambda>(c, n). if unat n < 32 then 2 ^ 64 + unat n else unat n)"
    using u g b by (auto split: if_splits)
qed

definition raw_compute_runnable_contrib :: "u64 \<Rightarrow> u32" where
  "raw_compute_runnable_contrib n =
     (if n \<le> of_nat LOAD_AVG_PERIOD then runnable_avg_yN_sum ! unat n
      else if n \<ge> of_nat LOAD_AVG_MAX_N then of_nat LOAD_AVG_MAX
      else
        (let (contrib, n1) = contrib_loop 0 n;
             contrib1 = (ucast (decay_load (ucast contrib) n1) :: u32)
         in contrib1 + runnable_avg_yN_sum ! unat n1))"

text \<open>
  The load average that \<^verbatim>\<open>__update_load_avg\<close> derives from a decayed sum
  (line 4631): \<^verbatim>\<open>div_u64(sa->load_sum, LOAD_AVG_MAX)\<close>.
\<close>

definition load_avg_of :: "u64 \<Rightarrow> u64" where
  "load_avg_of load_sum = load_sum div of_nat LOAD_AVG_MAX"

section \<open>CFS bandwidth control: drawing runtime (lines 5568-5659, 6320-6339)\<close>

text \<open>
  The group's pool (\<^verbatim>\<open>struct cfs_bandwidth\<close>) and the bandwidth fields of a queue.
  \<^verbatim>\<open>runtime_remaining\<close> is an \<^verbatim>\<open>s64\<close>: a 64-bit word read through \<open>sint\<close>.
  \<^verbatim>\<open>RUNTIME_INF\<close> and \<^verbatim>\<open>NSEC_PER_USEC\<close> are constants of the kernel headers.
\<close>

record cfs_bandwidth =
  quota :: u64
  runtime :: u64
  runtime_expires :: u64
  period :: u64
  timer_active :: bool
  idle :: bool

record cfs_rq_runtime =
  runtime_remaining :: u64
  rq_runtime_expires :: u64

definition RUNTIME_INF :: u64 where
  "RUNTIME_INF = 0xFFFFFFFFFFFFFFFF"

definition NSEC_PER_USEC :: u64 where
  "NSEC_PER_USEC = 1000"

definition default_cfs_period :: u64 where
  "default_cfs_period = 100000000"

definition sched_cfs_bandwidth_slice :: "tunables \<Rightarrow> u64" where
  "sched_cfs_bandwidth_slice tun = ucast (sysctl_sched_cfs_bandwidth_slice tun) * NSEC_PER_USEC"

text \<open>\<open>now\<close> is \<^verbatim>\<open>sched_clock_cpu(smp_processor_id())\<close>.\<close>

definition raw_refill_cfs_bandwidth_runtime :: "u64 \<Rightarrow> cfs_bandwidth \<Rightarrow> cfs_bandwidth" where
  "raw_refill_cfs_bandwidth_runtime now cfs_b =
     (if quota cfs_b = RUNTIME_INF then cfs_b
      else cfs_b\<lparr>runtime := quota cfs_b, runtime_expires := now + period cfs_b\<rparr>)"

text \<open>
  \<^verbatim>\<open>__start_cfs_bandwidth\<close> reprograms the period timer; on every path the pool has
  \<^verbatim>\<open>timer_active\<close> set when it returns. The timer itself is outside the state.
\<close>

definition raw_start_cfs_bandwidth :: "cfs_bandwidth \<Rightarrow> cfs_bandwidth" where
  "raw_start_cfs_bandwidth cfs_b = cfs_b\<lparr>timer_active := True\<rparr>"

text \<open>
  The pool as \<^verbatim>\<open>assign_cfs_rq_runtime\<close> finds it after the refresh of an inactive
  pool (lines 5635-5638).
\<close>

definition refreshed_pool :: "u64 \<Rightarrow> cfs_bandwidth \<Rightarrow> cfs_bandwidth" where
  "refreshed_pool now cfs_b =
     (if \<not> timer_active cfs_b
      then raw_start_cfs_bandwidth (raw_refill_cfs_bandwidth_runtime now cfs_b)
      else cfs_b)"

text \<open>
  \<^verbatim>\<open>assign_cfs_rq_runtime\<close>: the result is the return value with the queue and the
  pool after the call.
\<close>

definition assign_cfs_rq_runtime ::
  "tunables \<Rightarrow> u64 \<Rightarrow> cfs_rq_runtime \<times> cfs_bandwidth
     \<Rightarrow> bool \<times> cfs_rq_runtime \<times> cfs_bandwidth" where
  "assign_cfs_rq_runtime tun now s =
     (let (rq, cfs_b) = s;
          min_amount = sched_cfs_bandwidth_slice tun - runtime_remaining rq;
          (amount, cfs_b') =
            (if quota cfs_b = RUNTIME_INF then (min_amount, cfs_b)
             else
               (let b1 = refreshed_pool now cfs_b in
                if runtime b1 > 0
                then (let amount = min (runtime b1) min_amount
                      in (amount, b1\<lparr>runtime := runtime b1 - amount, idle := False\<rparr>))
                else (0, b1)));
          expires = runtime_expires cfs_b';
          rq1 = rq\<lparr>runtime_remaining := runtime_remaining rq + amount\<rparr>;
          rq2 = (if sint (expires - rq_runtime_expires rq1) > 0
                 then rq1\<lparr>rq_runtime_expires := expires\<rparr> else rq1)
      in (sint (runtime_remaining rq2) > 0, rq2, cfs_b'))"

subsection \<open>A queue in deficit\<close>

text \<open>
  A queue that overran its local runtime by 3 ms, in a group with 50 ms left in an
  active pool.
\<close>

definition overrun_rq :: cfs_rq_runtime where
  "overrun_rq = \<lparr>runtime_remaining = - 3000000, rq_runtime_expires = 0\<rparr>"

definition active_pool :: cfs_bandwidth where
  "active_pool =
     \<lparr>quota = 50000000, runtime = 50000000, runtime_expires = 100000000,
      period = 100000000, timer_active = True, idle = False\<rparr>"

section \<open>HMP tunables and their write handler (lines 2451-2644, 3888-4091)\<close>

text \<open>
  The file-scope variables the handler and \<^verbatim>\<open>set_hmp_defaults\<close> read and write.
  The \<^verbatim>\<open>sysctl_*\<close> fields are the values exposed for writing, the others are
  derived from them. \<^verbatim>\<open>sysctl_sched_upmigrate_min_nice\<close> is an \<^verbatim>\<open>int\<close>, kept
  as a 32-bit word and read through \<open>sint\<close>. \<open>nr_count_fixups\<close> counts the runs of
  \<^verbatim>\<open>post_big_small_task_count_change\<close>, which rebuilds the big and small task
  counters of every online CPU.
\<close>

record hmp_state =
  sched_enable_hmp :: bool
  sched_use_pelt :: bool
  sched_ravg_window :: u32
  up_down_migrate_scale_factor :: u32
  sysctl_sched_spill_load_pct :: u32
  sysctl_sched_small_task_pct :: u32
  sysctl_sched_heavy_task_pct :: u32
  sysctl_sched_upmigrate_pct :: u32
  sysctl_sched_downmigrate_pct :: u32
  sysctl_sched_upmigrate_min_nice :: u32
  sysctl_sched_grp_upmigrate_pct :: u32
  sysctl_sched_grp_downmigrate_pct :: u32
  sysctl_sched_init_task_load_pct :: u32
  sysctl_sched_min_runtime :: u32
  sysctl_sched_grp_task_active_windows :: u32
  sched_spill_load :: u32
  sched_small_task :: u32
  sched_heavy_task :: u32
  sched_upmigrate :: u32
  sched_downmigrate :: u32
  sched_upmigrate_min_nice :: u32
  sched_grp_upmigrate :: u32
  sched_grp_downmigrate :: u32
  sched_init_task_load_pelt :: u32
  sched_init_task_load_windows :: u32
  sched_min_runtime :: u64
  sched_grp_task_active_period :: u32
  sched_grp_min_task_load_delta :: u32
  sched_grp_min_cluster_update_delta :: u32
  nr_count_fixups :: nat

definition max_task_load :: "hmp_state \<Rightarrow> u32" where
  "max_task_load s = (if sched_use_pelt s then of_nat LOAD_AVG_MAX else sched_ravg_window s)"

text \<open>
  \<^verbatim>\<open>pct_to_real(tunable)\<close> of the scheduler's header:
  \<^verbatim>\<open>div64_u64((u64)tunable * (u64)max_task_load(), 100)\<close>, stored in an
  \<^verbatim>\<open>unsigned int\<close>.
\<close>

definition pct_to_real :: "hmp_state \<Rightarrow> u32 \<Rightarrow> u32" where
  "pct_to_real s tunable =
     ucast (((ucast tunable :: u64) * ucast (max_task_load s)) div 100)"

definition update_up_down_migrate :: "hmp_state \<Rightarrow> hmp_state" where
  "update_up_down_migrate s =
     (let up_migrate = pct_to_real s (sysctl_sched_upmigrate_pct s);
          down_migrate = pct_to_real s (sysctl_sched_downmigrate_pct s)
      in if up_down_migrate_scale_factor s = 1024
         then s\<lparr>sched_upmigrate := up_migrate, sched_downmigrate := down_migrate\<rparr>
         else
           (let delta = up_migrate - down_migrate;
                up1 = up_migrate div 1000;
                up2 = up1 * up_down_migrate_scale_factor s;
                up3 = drop_bit 10 up2;
                up4 = up3 * 1000;
                up5 = min up4 (sched_ravg_window s);
                down1 = down_migrate div 1000;
                down2 = down1 * up_down_migrate_scale_factor s;
                down3 = drop_bit 10 down2;
                down4 = down3 * 1000;
                down5 = min down4 (up5 - delta)
            in s\<lparr>sched_upmigrate := up5, sched_downmigrate := down5\<rparr>))"

definition set_hmp_defaults :: "hmp_state \<Rightarrow> hmp_state" where
  "set_hmp_defaults s =
     (let s1 = s\<lparr>sched_spill_load := pct_to_real s (sysctl_sched_spill_load_pct s),
                 sched_small_task := pct_to_real s (sysctl_sched_small_task_pct s)\<rparr>;
          s2 = update_up_down_migrate s1
      in s2\<lparr>sched_heavy_task := pct_to_real s2 (sysctl_sched_heavy_task_pct s2),
            sched_init_task_load_pelt :=
              ucast (((ucast (sysctl_sched_init_task_load_pct s2) :: u64) * of_nat LOAD_AVG_MAX)
                       div 100),
            sched_init_task_load_windows :=
              ucast (((ucast (sysctl_sched_init_task_load_pct s2) :: u64)
                        * ucast (sched_ravg_window s2)) div 100),
            sched_upmigrate_min_nice := sysctl_sched_upmigrate_min_nice s2,
            sched_grp_upmigrate := pct_to_real s2 (sysctl_sched_grp_upmigrate_pct s2),
            sched_grp_downmigrate := pct_to_real s2 (sysctl_sched_grp_downmigrate_pct s2),
            sched_grp_task_active_period :=
              sched_ravg_window s2 * sysctl_sched_grp_task_active_windows s2,
            sched_grp_min_task_load_delta := sched_ravg_window s2 div 4,
            sched_grp_min_cluster_update_delta := sched_ravg_window s2 div 10\<rparr>)"

text \<open>
  \<^verbatim>\<open>pre_big_small_task_count_change\<close> takes the run-queue locks and
  \<^verbatim>\<open>post_big_small_task_count_change\<close> rebuilds the counters and releases them.
\<close>

definition post_big_small_task_count_change :: "hmp_state \<Rightarrow> hmp_state" where
  "post_big_small_task_count_change s = s\<lparr>nr_count_fixups := Suc (nr_count_fixups s)\<rparr>"

text \<open>The variable that \<^verbatim>\<open>table->data\<close> points to.\<close>

datatype hmp_tunable =
  Spill_load_pct
| Small_task_pct
| Heavy_task_pct
| Upmigrate_pct
| Downmigrate_pct
| Upmigrate_min_nice
| Grp_upmigrate_pct
| Grp_downmigrate_pct
| Init_task_load_pct
| Min_runtime
| Grp_task_active_windows

fun read_data :: "hmp_tunable \<Rightarrow> hmp_state \<Rightarrow> u32" where
  "read_data Spill_load_pct s = sysctl_sched_spill_load_pct s"
| "read_data Small_task_pct s = sysctl_sched_small_task_pct s"
| "read_data Heavy_task_pct s = sysctl_sched_heavy_task_pct s"
| "read_data Upmigrate_pct s = sysctl_sched_upmigrate_pct s"
| "read_data Downmigrate_pct s = sysctl_sched_downmigrate_pct s"
| "read_data Upmigrate_min_nice s = sysctl_sched_upmigrate_min_nice s"
| "read_data Grp_upmigrate_pct s = sysctl_sched_grp_upmigrate_pct s"
| "read_data Grp_downmigrate_pct s = sysctl_sched_grp_downmigrate_pct s"
| "read_data Init_task_load_pct s = sysctl_sched_init_task_load_pct s"
| "read_data Min_runtime s = sysctl_sched_min_runtime s"
| "read_data Grp_task_active_windows s = sysctl_sched_grp_task_active_windows s"

fun write_data :: "hmp_tunable \<Rightarrow> u32 \<Rightarrow> hmp_state \<Rightarrow> hmp_state" where
  "write_data Spill_load_pct v s = s\<lparr>sysctl_sched_spill_load_pct := v\<rparr>"
| "write_data Small_task_pct v s = s\<lparr>sysctl_sched_small_task_pct := v\<rparr>"
| "write_data Heavy_task_pct v s = s\<lparr>sysctl_sched_heavy_task_pct := v\<rparr>"
| "write_data Upmigrate_pct v s = s\<lparr>sysctl_sched_upmigrate_pct := v\<rparr>"
| "write_data Downmigrate_pct v s = s\<lparr>sysctl_sched_downmigrate_pct := v\<rparr>"
| "write_data Upmigrate_min_nice v s = s\<lparr>sysctl_sched_upmigrate_min_nice := v\<rparr>"
| "write_data Grp_upmigrate_pct v s = s\<lparr>sysctl_sched_grp_upmigrate_pct := v\<rparr>"
| "write_data Grp_downmigrate_pct v s = s\<lparr>sysctl_sched_grp_downmigrate_pct := v\<rparr>"
| "write_data Init_task_load_pct v s = s\<lparr>sysctl_sched_init_task_load_pct := v\<rparr>"
| "write_data Min_runtime v s = s\<lparr>sysctl_sched_min_runtime := v\<rparr>"
| "write_data Grp_task_active_windows v s = s\<lparr>sysctl_sched_grp_task_active_windows := v\<rparr>"

text \<open>
  \<^verbatim>\<open>proc_dointvec_minmax\<close> belongs to kernel/sysctl.c. Its reply is a parameter:
  the code it returns and the value it parsed. On a write it stores the value when
  it returns 0 and leaves the variable alone otherwise.
\<close>

record proc_reply =
  proc_ret :: int
  proc_val :: u32

definition proc_dointvec_minmax ::
  "hmp_tunable \<Rightarrow> bool \<Rightarrow> proc_reply \<Rightarrow> hmp_state \<Rightarrow> int \<times> hmp_state" where
  "proc_dointvec_minmax data wr reply s =
     (proc_ret reply,
      if wr \<and> proc_ret reply = 0 then write_data data (proc_val reply) s else s)"

definition EINVAL :: int where
  "EINVAL = 22"

text \<open>
  \<^verbatim>\<open>sched_hmp_proc_update_handler\<close>. The reference count of
  \<^verbatim>\<open>get_online_cpus\<close> and the policy mutex are taken and released on every path
  and are outside the state.
\<close>

definition sched_hmp_proc_update_handler ::
  "hmp_tunable \<Rightarrow> bool \<Rightarrow> proc_reply \<Rightarrow> hmp_state \<Rightarrow> int \<times> hmp_state" where
  "sched_hmp_proc_update_handler data wr reply s0 =
     (if \<not> sched_enable_hmp s0 then (0, s0)
      else
        (let update_task_count =
               (wr \<and> (data = Upmigrate_pct \<or> data = Small_task_pct
                        \<or> data = Upmigrate_min_nice));
             old_val = read_data data s0;
             (ret, s) = proc_dointvec_minmax data wr reply s0
         in if ret \<noteq> 0 \<or> \<not> wr \<or> \<not> sched_enable_hmp s then (ret, s)
            else if wr \<and> old_val = read_data data s then (ret, s)
            else if data = Min_runtime
              then (ret, s\<lparr>sched_min_runtime := ucast (sysctl_sched_min_runtime s) * 1000\<rparr>)
            else if data = Grp_task_active_windows
              then (ret, s\<lparr>sched_grp_task_active_period :=
                              sched_ravg_window s * sysctl_sched_grp_task_active_windows s\<rparr>)
            else if data = Grp_upmigrate_pct \<or> data = Grp_downmigrate_pct
              then (if sysctl_sched_grp_downmigrate_pct s > sysctl_sched_grp_upmigrate_pct s
                    then (- EINVAL, write_data data old_val s)
                    else (ret, set_hmp_defaults s))
            else if (if data = Upmigrate_min_nice
                     then sint (read_data data s) < - 20 \<or> sint (read_data data s) > 19
                     else sysctl_sched_downmigrate_pct s > sysctl_sched_upmigrate_pct s
                          \<or> read_data data s > 100)
              then (- EINVAL, write_data data old_val s)
            else
              (let s1 = set_hmp_defaults s
               in (ret, if update_task_count then post_big_small_task_count_change s1 else s1))))"

subsection \<open>The tunables as the file initialises them\<close>

text \<open>
  HMP enabled, window statistics with a 10 ms window, and the initial values of
  lines 2456-2554; the derived values are those of \<^verbatim>\<open>set_hmp_defaults\<close>.
\<close>

definition initial_hmp_state :: hmp_state where
  "initial_hmp_state =
     set_hmp_defaults
       \<lparr>sched_enable_hmp = True, sched_use_pelt = False, sched_ravg_window = 10000000,
        up_down_migrate_scale_factor = 1024,
        sysctl_sched_spill_load_pct = 100, sysctl_sched_small_task_pct = 10,
        sysctl_sched_heavy_task_pct = 0,
        sysctl_sched_upmigrate_pct = 80, sysctl_sched_downmigrate_pct = 60,
        sysctl_sched_upmigrate_min_nice = 15,
        sysctl_sched_grp_upmigrate_pct = 120, sysctl_sched_grp_downmigrate_pct = 100,
        sysctl_sched_init_task_load_pct = 15,
        sysctl_sched_min_runtime = 0, sysctl_sched_grp_task_active_windows = 1,
        sched_spill_load = 0, sched_small_task = 0, sched_heavy_task = 0,
        sched_upmigrate = 0, sched_downmigrate = 0, sched_upmigrate_min_nice = 15,
        sched_grp_upmigrate = 0, sched_grp_downmigrate = 0,
        sched_init_task_load_pelt = 0, sched_init_task_load_windows = 0,
        sched_min_runtime = 0, sched_grp_task_active_period = 0,
        sched_grp_min_task_load_delta = 0, sched_grp_min_cluster_update_delta = 0,
        nr_count_fixups = 0\<rparr>"

section \<open>HMP task placement (lines 2764-3604)\<close>

text \<open>
  CPU numbers are \<^verbatim>\<open>int\<close>s, with -1 for "no CPU" as in the source. A
  \<^verbatim>\<open>cpumask_t\<close> is the list of the CPU numbers whose bit is set. The cpumask
  operations are those of the kernel's cpumask header: \<^verbatim>\<open>cpumask_first\<close> and
  \<^verbatim>\<open>cpumask_next\<close> give the lowest set CPU (above \<open>n\<close>), or \<^verbatim>\<open>nr_cpu_ids\<close> when
  there is none.
\<close>

type_synonym cpu = int
type_synonym cpumask = "cpu list"

definition cpumask_and :: "cpumask \<Rightarrow> cpumask \<Rightarrow> cpumask" where
  "cpumask_and a b = filter (\<lambda>c. c \<in> set b) a"

definition cpumask_andnot :: "cpumask \<Rightarrow> cpumask \<Rightarrow> cpumask" where
  "cpumask_andnot a b = filter (\<lambda>c. c \<notin> set b) a"

definition cpumask_test_cpu :: "cpu \<Rightarrow> cpumask \<Rightarrow> bool" where
  "cpumask_test_cpu c m = (c \<in> set m)"

definition cpumask_clear_cpu :: "cpu \<Rightarrow> cpumask \<Rightarrow> cpumask" where
  "cpumask_clear_cpu c m = filter (\<lambda>d. d \<noteq> c) m"

definition cpumask_empty :: "cpumask \<Rightarrow> bool" where
  "cpumask_empty m = (m = [])"

definition cpumask_equal :: "cpumask \<Rightarrow> cpumask \<Rightarrow> bool" where
  "cpumask_equal a b = (set a = set b)"

definition cpumask_first :: "int \<Rightarrow> cpumask \<Rightarrow> cpu" where
  "cpumask_first nr m = (if m = [] then nr else Min (set m))"

definition cpumask_next :: "cpu \<Rightarrow> int \<Rightarrow> cpumask \<Rightarrow> cpu" where
  "cpumask_next n nr m = cpumask_first nr (filter (\<lambda>c. n < c) m)"

text \<open>
  The fields of \<^verbatim>\<open>struct rq\<close> that the placement code reads. The structure is
  declared in the scheduler's header; \<^verbatim>\<open>int\<close> fields that are only copied and
  compared are integers, fields that enter arithmetic are words.
  \<open>rq_nr_running\<close> is \<^verbatim>\<open>rq->nr_running\<close>, \<open>cumulative_runnable_avg\<close> is
  \<^verbatim>\<open>rq->hmp_stats.cumulative_runnable_avg\<close>, \<open>curr_demand\<close> is
  \<^verbatim>\<open>rq->curr->ravg.demand\<close>, \<open>rq_prefer_idle\<close> is \<^verbatim>\<open>rq->prefer_idle\<close>, and
  \<open>cluster\<close> names the \<^verbatim>\<open>struct sched_cluster\<close> that \<^verbatim>\<open>rq->cluster\<close> points to.
\<close>

record rq =
  rq_nr_running :: u32
  cumulative_runnable_avg :: u64
  curr_demand :: u32
  cstate :: int
  dstate :: int
  static_cpu_pwr_cost :: u32
  static_cluster_pwr_cost :: u32
  rq_prefer_idle :: int
  mostly_idle_load :: u32
  mostly_idle_nr_run :: int
  freq_domain_cpumask :: cpumask
  cluster :: nat

text \<open>
  What the placement code reads of a task: \<^verbatim>\<open>task_load(p)\<close>, \<^verbatim>\<open>task_cpu(p)\<close>,
  \<^verbatim>\<open>task_nice(p)\<close>, \<^verbatim>\<open>tsk_cpus_allowed(p)\<close>, the \<^verbatim>\<open>PF_WAKE_UP_IDLE\<close> bit of
  \<^verbatim>\<open>p->flags\<close>, \<^verbatim>\<open>upmigrate_discouraged(p)\<close> and \<^verbatim>\<open>p->grp\<close> (\<open>None\<close> is the
  \<^verbatim>\<open>NULL\<close> pointer, for the group and for its preferred cluster).
\<close>

record related_thread_group =
  preferred_cluster :: "nat option"

record task_struct =
  task_load :: u64
  task_cpu :: cpu
  task_nice :: int
  tsk_cpus_allowed :: cpumask
  flags_wake_up_idle :: bool
  upmigrate_discouraged :: bool
  grp :: "related_thread_group option"

text \<open>
  The state of the system that the placement code reads and does not change: the
  HMP thresholds, the run queues, the CPU masks, the waking CPU and the
  \<^verbatim>\<open>PF_WAKE_UP_IDLE\<close> bit of \<^verbatim>\<open>current\<close>, the file-scope variables and tunables,
  and the values of the helpers of the scheduler's header (\<^verbatim>\<open>cpu_capacity\<close>,
  \<^verbatim>\<open>cpu_max_possible_capacity\<close>, the capacity of a cluster, the frequencies,
  \<^verbatim>\<open>scale_load_to_cpu\<close>, \<^verbatim>\<open>sched_cpu_high_irqload\<close>, \<^verbatim>\<open>idle_cpu\<close>,
  \<^verbatim>\<open>is_reserved\<close>). Capacities are integers. \<open>get_cpu_pwr_stats\<close> is the table
  returned by \<^verbatim>\<open>get_cpu_pwr_stats()\<close>: \<open>None\<close> for \<^verbatim>\<open>NULL\<close>, else for each CPU
  its \<^verbatim>\<open>ptable\<close>, \<open>None\<close> for \<^verbatim>\<open>NULL\<close>, else the (\<^verbatim>\<open>freq\<close>, \<^verbatim>\<open>power\<close>) entries that
  come before the entry of frequency 0 that ends the array.
\<close>

record hmp_env =
  hmp :: hmp_state
  nr_cpu_ids :: int
  cpu_rq :: "cpu \<Rightarrow> rq"
  cpu_active_mask :: cpumask
  cpu_possible_mask :: cpumask
  mpc_mask :: cpumask
  smp_processor_id :: cpu
  current_wake_up_idle :: bool
  boost_refcount :: int
  max_capacity :: int
  min_capacity :: int
  max_possible_capacity :: int
  max_load_scale_factor :: u32
  min_max_freq :: u32
  sysctl_sched_spill_nr_run :: u32
  sysctl_sched_enable_power_aware :: bool
  sysctl_sched_powerband_limit_pct :: u32
  sysctl_sched_restrict_tasks_spread :: bool
  sysctl_sched_enable_colocation :: bool
  cpu_capacity :: "cpu \<Rightarrow> int"
  cpu_max_possible_capacity :: "cpu \<Rightarrow> int"
  cluster_capacity :: "nat \<Rightarrow> int"
  cpu_max_possible_freq :: "cpu \<Rightarrow> u32"
  cpu_cur_freq :: "cpu \<Rightarrow> u32"
  cpu_max_freq :: "cpu \<Rightarrow> u32"
  cpu_mostly_idle_freq :: "cpu \<Rightarrow> u32"
  scale_load_to_cpu :: "u64 \<Rightarrow> cpu \<Rightarrow> u64"
  sched_cpu_high_irqload :: "cpu \<Rightarrow> bool"
  idle_cpu :: "cpu \<Rightarrow> bool"
  is_reserved :: "cpu \<Rightarrow> bool"
  get_cpu_pwr_stats :: "(cpu \<Rightarrow> (u32 \<times> u32) list option) option"

definition INT_MAX :: int where
  "INT_MAX = 2147483647"

definition ULLONG_MAX :: u64 where
  "ULLONG_MAX = 0xFFFFFFFFFFFFFFFF"

definition UP_MIGRATION :: int where "UP_MIGRATION = 1"
definition DOWN_MIGRATION :: int where "DOWN_MIGRATION = 2"
definition EA_MIGRATION :: int where "EA_MIGRATION = 3"
definition IRQLOAD_MIGRATION :: int where "IRQLOAD_MIGRATION = 4"
definition PREFERRED_CLUSTER_MIGRATION :: int where "PREFERRED_CLUSTER_MIGRATION = 5"

text \<open>
  What stops the placement code short of a result: \<^verbatim>\<open>BUG()\<close> in
  \<^verbatim>\<open>power_cost_at_freq\<close>, and the division by \<^verbatim>\<open>max_task_load()\<close> in \<^verbatim>\<open>power_cost\<close>
  when that is 0.
\<close>

datatype stop = Bug | DivideError

definition is_small_task :: "hmp_env \<Rightarrow> task_struct \<Rightarrow> bool" where
  "is_small_task e p =
     (let load = task_load p * ucast (max_load_scale_factor e);
          load1 = load div 1024
      in load1 < ucast (sched_small_task (hmp e)))"

definition cpu_load_sync :: "hmp_env \<Rightarrow> cpu \<Rightarrow> bool \<Rightarrow> u64" where
  "cpu_load_sync e c sync =
     (let r = cpu_rq e c;
          load = cumulative_runnable_avg r;
          load1 = (if sync \<and> c = smp_processor_id e
                   then (if load > ucast (curr_demand r) then load - ucast (curr_demand r) else 0)
                   else load)
      in scale_load_to_cpu e load1 c)"

definition spill_threshold_crossed :: "hmp_env \<Rightarrow> u64 \<Rightarrow> u64 \<Rightarrow> rq \<Rightarrow> bool" where
  "spill_threshold_crossed e tload cpu_load r =
     (let total_load = tload + cpu_load
      in total_load > ucast (sched_spill_load (hmp e))
         \<or> rq_nr_running r + 1 > sysctl_sched_spill_nr_run e)"

text \<open>
  \<^verbatim>\<open>mostly_idle_cpu_sync\<close> copies the unsigned \<^verbatim>\<open>rq->nr_running\<close> into an \<^verbatim>\<open>int\<close>,
  read here through \<open>sint\<close>.
\<close>

definition mostly_idle_cpu_sync :: "hmp_env \<Rightarrow> cpu \<Rightarrow> u64 \<Rightarrow> bool \<Rightarrow> bool" where
  "mostly_idle_cpu_sync e c cpu_load sync =
     (let r = cpu_rq e c;
          nr = sint (rq_nr_running r);
          nr1 = (if sync \<and> c = smp_processor_id e then nr - 1 else nr)
      in cpu_load \<le> ucast (mostly_idle_load r) \<and> nr1 \<le> mostly_idle_nr_run r)"

definition sched_boost :: "hmp_env \<Rightarrow> bool" where
  "sched_boost e = (boost_refcount e > 0)"

text \<open>
  In \<^verbatim>\<open>task_load_will_fit\<close> the threshold is held in an \<^verbatim>\<open>int\<close> and compared with
  the 64-bit load, so it is sign-extended.
\<close>

definition task_load_will_fit :: "hmp_env \<Rightarrow> task_struct \<Rightarrow> u64 \<Rightarrow> cpu \<Rightarrow> bool" where
  "task_load_will_fit e p tload c =
     (let prev_cpu = task_cpu p
      in if cpu_capacity e c = max_capacity e then True
         else if sched_boost e then cpu_capacity e c > cpu_capacity e prev_cpu
         else if task_nice p > sint (sched_upmigrate_min_nice (hmp e)) \<or> upmigrate_discouraged p
         then True
         else
           (let upmigrate = (if cpu_capacity e prev_cpu > cpu_capacity e c
                             then sched_downmigrate (hmp e) else sched_upmigrate (hmp e))
            in tload < scast upmigrate))"

definition eligible_cpu :: "hmp_env \<Rightarrow> u64 \<Rightarrow> u64 \<Rightarrow> cpu \<Rightarrow> bool \<Rightarrow> bool" where
  "eligible_cpu e tload cpu_load c sync =
     (if sched_cpu_high_irqload e c then False
      else if mostly_idle_cpu_sync e c cpu_load sync then True
      else if cpu_max_possible_capacity e c \<noteq> max_possible_capacity e
      then \<not> spill_threshold_crossed e tload cpu_load (cpu_rq e c)
      else False)"

text \<open>
  Power costs are \<^verbatim>\<open>unsigned int\<close> where they are computed and \<^verbatim>\<open>int\<close> where the
  callers keep them: 32-bit words, compared through \<open>sint\<close> where the source
  compares \<^verbatim>\<open>int\<close>s.
\<close>

definition power_delta_exceeded :: "hmp_env \<Rightarrow> u32 \<Rightarrow> u32 \<Rightarrow> bool" where
  "power_delta_exceeded e cpu_cost base_cost =
     (if base_cost = 0 \<or> cpu_cost = base_cost then False
      else if \<not> sysctl_sched_enable_power_aware e then True
      else
        (let delta = cpu_cost - base_cost;
             cost_limit = (ucast (((ucast (sysctl_sched_powerband_limit_pct e) :: u64)
                                    * ucast base_cost) div 100) :: u32)
         in \<bar>sint delta\<bar> > sint cost_limit))"

fun ptable_walk :: "u32 \<Rightarrow> (u32 \<times> u32) list \<Rightarrow> stop + u32" where
  "ptable_walk freq [] = Inl Bug"
| "ptable_walk freq (c # costs) =
     (if fst c \<ge> freq \<or> costs = [] then Inr (snd c) else ptable_walk freq costs)"

definition power_cost_at_freq :: "hmp_env \<Rightarrow> cpu \<Rightarrow> u32 \<Rightarrow> stop + u32" where
  "power_cost_at_freq e c freq =
     (case get_cpu_pwr_stats e of
        None \<Rightarrow> Inr (word_of_int (cpu_max_possible_capacity e c))
      | Some per_cpu_info \<Rightarrow>
          (case per_cpu_info c of
             None \<Rightarrow> Inr (word_of_int (cpu_max_possible_capacity e c))
           | Some costs \<Rightarrow>
               if \<not> sysctl_sched_enable_power_aware e
               then Inr (word_of_int (cpu_max_possible_capacity e c))
               else ptable_walk (if freq = 0 then min_max_freq e else freq) costs))"

definition power_cost :: "hmp_env \<Rightarrow> u64 \<Rightarrow> cpu \<Rightarrow> stop + u32" where
  "power_cost e tload c =
     (if \<not> sysctl_sched_enable_power_aware e
      then Inr (word_of_int (cpu_max_possible_capacity e c))
      else if max_task_load (hmp e) = 0 then Inl DivideError
      else
        (let r = cpu_rq e c;
             demand = (tload * 100) div ucast (max_task_load (hmp e));
             task_freq = (ucast (demand * ucast (cpu_max_possible_freq e c)) :: u32) div 100;
             task_freq1 = max (cpu_cur_freq e c) task_freq;
             total_static_pwr_cost =
               (if idle_cpu e c \<and> cstate r \<noteq> 0
                then static_cpu_pwr_cost r
                     + (if dstate r \<noteq> 0 then static_cluster_pwr_cost r else 0)
                else 0)
         in case power_cost_at_freq e c task_freq1 of
              Inl f \<Rightarrow> Inl f
            | Inr cost \<Rightarrow> Inr (cost + total_static_pwr_cost)))"

text \<open>
  \<^verbatim>\<open>for_each_cpu(i, mask)\<close>: the body runs for the set CPUs in ascending order, the
  next CPU being looked up in the mask as the body left it (the loop of
  \<^verbatim>\<open>select_best_cpu\<close> clears bits of the mask it iterates over). \<open>n\<close> is the CPU
  of the last iteration, -1 at the start.
\<close>

function for_each_cpu ::
  "int \<Rightarrow> ('a \<Rightarrow> cpumask) \<Rightarrow> (cpu \<Rightarrow> 'a \<Rightarrow> stop + 'a) \<Rightarrow> cpu \<Rightarrow> 'a \<Rightarrow> stop + 'a" where
  "for_each_cpu nr cpus body n a =
     (let i = cpumask_next n nr (cpus a)
      in if nr \<le> i then Inr a
         else (case body i a of
                 Inl f \<Rightarrow> Inl f
               | Inr a1 \<Rightarrow> for_each_cpu nr cpus body i a1))"
  by pat_completeness auto
termination
proof (relation "measure (\<lambda>(nr, cpus, body, n, a). nat (nr - n))")
  show "wf (measure (\<lambda>(nr, cpus, body, n, a). nat (nr - n)))"
    by simp
next
  fix nr :: int and cpus :: "'a \<Rightarrow> cpumask" and body :: "cpu \<Rightarrow> 'a \<Rightarrow> stop + 'a"
    and n :: cpu and a :: 'a and i :: cpu and a1 :: 'a
  assume i: "i = cpumask_next n nr (cpus a)" and lt: "\<not> nr \<le> i"
  have "filter (\<lambda>c. n < c) (cpus a) \<noteq> []"
    using i lt by (auto simp: cpumask_next_def cpumask_first_def)
  hence "Min (set (filter (\<lambda>c. n < c) (cpus a))) \<in> set (filter (\<lambda>c. n < c) (cpus a))"
    by (intro Min_in) (auto simp: filter_empty_conv)
  moreover have "i = Min (set (filter (\<lambda>c. n < c) (cpus a)))"
    using i \<open>filter (\<lambda>c. n < c) (cpus a) \<noteq> []\<close>
    by (simp add: cpumask_next_def cpumask_first_def)
  ultimately have "n < i"
    by simp
  thus "((nr, cpus, body, i, a1), (nr, cpus, body, n, a)) \<in> measure (\<lambda>(nr, cpus, body, n, a). nat (nr - n))"
    using lt by simp
qed

subsection \<open>best_small_task_cpu (lines 3093-3216)\<close>

text \<open>
  The local variables of \<^verbatim>\<open>best_small_task_cpu\<close> that its first loop changes.
\<close>

record small_search =
  search_cpu :: cpumask
  fb_search_cpu :: cpumask
  min_cstate_cpu :: cpu
  min_cstate :: int
  best_busy_cpu :: cpu
  min_load :: u64

text \<open>
  One pass through the body of the \<^verbatim>\<open>do ... while\<close> loop, for CPU \<open>i\<close>: \<open>Inl i\<close> is
  \<^verbatim>\<open>return i\<close>, \<open>Inr s\<close> reaches the loop condition (by \<^verbatim>\<open>continue\<close> or at the end
  of the body) with the variables \<open>s\<close>. The tracepoint is left out.
\<close>

definition small_task_step ::
  "hmp_env \<Rightarrow> task_struct \<Rightarrow> bool \<Rightarrow> bool \<Rightarrow> cpu \<Rightarrow> small_search \<Rightarrow> cpu + small_search" where
  "small_task_step e p sync hmp_capable i s =
     (let r = cpu_rq e i
      in if cpu_max_possible_capacity e i = max_possible_capacity e \<and> hmp_capable
         then Inr (s\<lparr>fb_search_cpu := cpumask_and (search_cpu s) (freq_domain_cpumask r),
                     search_cpu := cpumask_andnot (search_cpu s) (freq_domain_cpumask r)\<rparr>)
         else
           (let s1 = s\<lparr>search_cpu := cpumask_clear_cpu i (search_cpu s)\<rparr>
            in if sched_cpu_high_irqload e i then Inr s1
               else if idle_cpu e i \<and> cstate r \<noteq> 0
               then (if cstate r < min_cstate s1
                     then Inr (s1\<lparr>min_cstate_cpu := i, min_cstate := cstate r\<rparr>)
                     else Inr s1)
               else
                 (let cpu_load = cpu_load_sync e i sync
                  in if sysctl_sched_restrict_tasks_spread e
                     then
                       (let tload = scale_load_to_cpu e (task_load p) i
                        in if \<not> spill_threshold_crossed e tload cpu_load r
                              \<and> cpu_load < min_load s1
                           then Inr (s1\<lparr>min_load := cpu_load, best_busy_cpu := i\<rparr>)
                           else Inr s1)
                     else if mostly_idle_cpu_sync e i cpu_load sync then Inl i
                     else Inr s1)))"

text \<open>
  The \<^verbatim>\<open>do ... while\<close> loop. It need not end: a CPU of the highest capacity whose
  frequency domain holds no CPU of the search mask leaves the mask as it is. The
  result is then \<open>None\<close>.
\<close>

partial_function (option) small_task_loop ::
  "hmp_env \<Rightarrow> task_struct \<Rightarrow> bool \<Rightarrow> bool \<Rightarrow> cpu \<Rightarrow> small_search
     \<Rightarrow> (cpu + small_search) option" where
  "small_task_loop e p sync hmp_capable i s =
     (case small_task_step e p sync hmp_capable i s of
        Inl c \<Rightarrow> Some (Inl c)
      | Inr s1 \<Rightarrow>
          (let i1 = cpumask_first (nr_cpu_ids e) (search_cpu s1)
           in if i1 < nr_cpu_ids e
              then small_task_loop e p sync hmp_capable i1 s1
              else Some (Inr s1)))"

text \<open>
  The body of the loop over the CPUs outside the fallback mask (lines 3178-3195),
  on the pair (\<^verbatim>\<open>min_load\<close>, \<^verbatim>\<open>best_busy_cpu\<close>).
\<close>

definition busy_cpu_step ::
  "hmp_env \<Rightarrow> task_struct \<Rightarrow> bool \<Rightarrow> cpu \<Rightarrow> u64 \<times> cpu \<Rightarrow> stop + (u64 \<times> cpu)" where
  "busy_cpu_step e p sync i v =
     (let r = cpu_rq e i;
          prev_cpu = (i = task_cpu p)
      in if sched_cpu_high_irqload e i then Inr v
         else
           (let tload = scale_load_to_cpu e (task_load p) i;
                cpu_load = cpu_load_sync e i sync
            in if \<not> spill_threshold_crossed e tload cpu_load r
                  \<and> (cpu_load < fst v \<or> (prev_cpu \<and> cpu_load = fst v))
               then Inr (cpu_load, i)
               else Inr v))"

text \<open>
  The body of the loop over the fallback mask (lines 3202-3213), on the pair
  (\<^verbatim>\<open>fallback_cpu\<close>, \<^verbatim>\<open>min_cost\<close>).
\<close>

definition fallback_cpu_step ::
  "hmp_env \<Rightarrow> task_struct \<Rightarrow> cpu \<Rightarrow> cpu \<times> u32 \<Rightarrow> stop + (cpu \<times> u32)" where
  "fallback_cpu_step e p i v =
     (let prev_cpu = (i = task_cpu p);
          tload = scale_load_to_cpu e (task_load p) i
      in case power_cost e tload i of
           Inl f \<Rightarrow> Inl f
         | Inr cpu_cost \<Rightarrow>
             if sint cpu_cost < sint (snd v) \<or> (prev_cpu \<and> cpu_cost = snd v)
             then Inr (i, cpu_cost)
             else Inr v)"

text \<open>The part of \<^verbatim>\<open>best_small_task_cpu\<close> after its first loop (lines 3169-3215).\<close>

definition small_task_rest ::
  "hmp_env \<Rightarrow> task_struct \<Rightarrow> bool \<Rightarrow> small_search \<Rightarrow> stop + cpu" where
  "small_task_rest e p sync s =
     (if best_busy_cpu s \<noteq> - 1 then Inr (best_busy_cpu s)
      else if min_cstate_cpu s \<noteq> - 1 then Inr (min_cstate_cpu s)
      else
        (case (if \<not> sysctl_sched_restrict_tasks_spread e
               then for_each_cpu (nr_cpu_ids e)
                      (\<lambda>_. cpumask_andnot
                              (cpumask_and (tsk_cpus_allowed p) (cpu_active_mask e))
                              (fb_search_cpu s))
                      (busy_cpu_step e p sync) (- 1) (min_load s, best_busy_cpu s)
               else Inr (min_load s, best_busy_cpu s)) of
           Inl f \<Rightarrow> Inl f
         | Inr v \<Rightarrow>
             if \<not> sysctl_sched_restrict_tasks_spread e \<and> snd v \<noteq> - 1 then Inr (snd v)
             else
               (case for_each_cpu (nr_cpu_ids e) (\<lambda>_. fb_search_cpu s)
                       (fallback_cpu_step e p) (- 1) (- 1, word_of_int INT_MAX) of
                  Inl f \<Rightarrow> Inl f
                | Inr w \<Rightarrow> Inr (fst w))))"

text \<open>
  \<^verbatim>\<open>best_small_task_cpu\<close>: \<open>None\<close> when the first loop does not end, \<open>Some (Inl f)\<close>
  when the function stops at \<open>f\<close>, \<open>Some (Inr c)\<close> when it returns \<open>c\<close>.
\<close>

definition best_small_task_cpu ::
  "hmp_env \<Rightarrow> task_struct \<Rightarrow> bool \<Rightarrow> (stop + cpu) option" where
  "best_small_task_cpu e p sync =
     (let hmp_capable = (\<not> cpumask_equal (mpc_mask e) (cpu_possible_mask e));
          search = cpumask_and (tsk_cpus_allowed p) (cpu_active_mask e);
          i = task_cpu p
      in if \<not> cpumask_test_cpu i search
            \<and> (cpumask_empty search \<or> cpumask_first (nr_cpu_ids e) search \<ge> nr_cpu_ids e)
         then Some (Inr (- 1))
         else
           (let i0 = (if \<not> cpumask_test_cpu i search
                      then cpumask_first (nr_cpu_ids e) search else i)
            in case small_task_loop e p sync hmp_capable i0
                      \<lparr> search_cpu = search, fb_search_cpu = [], min_cstate_cpu = - 1,
                        min_cstate = INT_MAX, best_busy_cpu = - 1, min_load = ULLONG_MAX \<rparr> of
                 None \<Rightarrow> None
               | Some (Inl c) \<Rightarrow> Some (Inr c)
               | Some (Inr s) \<Rightarrow> Some (small_task_rest e p sync s)))"

subsection \<open>select_best_cpu (lines 3254-3604)\<close>

definition skip_freq_domain :: "hmp_env \<Rightarrow> cpu \<Rightarrow> cpu \<Rightarrow> int \<Rightarrow> nat option \<Rightarrow> bool" where
  "skip_freq_domain e tcpu c reason pref_cluster =
     (if reason = 0 then False
      else if reason = UP_MIGRATION then cpu_capacity e c \<le> cpu_capacity e tcpu
      else if reason = DOWN_MIGRATION then cpu_capacity e c \<ge> cpu_capacity e tcpu
      else if reason = EA_MIGRATION then cpu_capacity e c \<noteq> cpu_capacity e tcpu
      else if reason = PREFERRED_CLUSTER_MIGRATION
      then Some (cluster (cpu_rq e c)) \<noteq> pref_cluster
      else False)"

text \<open>
  \<^verbatim>\<open>skip_cpu\<close>: the run queues \<^verbatim>\<open>task_rq\<close> and \<^verbatim>\<open>rq\<close> are given by their CPUs.
\<close>

definition skip_cpu :: "hmp_env \<Rightarrow> cpu \<Rightarrow> cpu \<Rightarrow> u64 \<Rightarrow> int \<Rightarrow> stop + bool" where
  "skip_cpu e task_rq_cpu c tload reason =
     (if reason = 0 then Inr False
      else if is_reserved e c then Inr True
      else if reason = EA_MIGRATION
      then (case power_cost e tload c of
              Inl f \<Rightarrow> Inl f
            | Inr cost \<Rightarrow>
                (case power_cost e tload task_rq_cpu of
                   Inl f \<Rightarrow> Inl f
                 | Inr task_cost \<Rightarrow> Inr (cost > task_cost)))
      else Inr (c = task_rq_cpu))"

text \<open>
  The body of the loop of \<^verbatim>\<open>select_packing_target\<close>, on the pair (\<^verbatim>\<open>target\<close>,
  \<^verbatim>\<open>min_cost\<close>).
\<close>

definition packing_step ::
  "hmp_env \<Rightarrow> task_struct \<Rightarrow> cpu \<Rightarrow> cpu \<times> u32 \<Rightarrow> stop + (cpu \<times> u32)" where
  "packing_step e p i v =
     (case power_cost e (scale_load_to_cpu e (task_load p) i) i of
        Inl f \<Rightarrow> Inl f
      | Inr cost \<Rightarrow>
          if sint cost < sint (snd v) \<and> \<not> sched_cpu_high_irqload e i
          then Inr (i, cost)
          else Inr v)"

definition select_packing_target :: "hmp_env \<Rightarrow> task_struct \<Rightarrow> cpu \<Rightarrow> stop + cpu" where
  "select_packing_target e p best_cpu =
     (let r = cpu_rq e best_cpu
      in if cpu_cur_freq e best_cpu \<ge> cpu_mostly_idle_freq e best_cpu then Inr best_cpu
         else if cpu_max_freq e best_cpu \<le> cpu_mostly_idle_freq e best_cpu then Inr best_cpu
         else
           (let search_cpus =
                  cpumask_and (cpumask_and (tsk_cpus_allowed p) (cpu_active_mask e))
                    (freq_domain_cpumask r)
            in case for_each_cpu (nr_cpu_ids e) (\<lambda>_. search_cpus) (packing_step e p) (- 1)
                      (best_cpu, word_of_int INT_MAX) of
                 Inl f \<Rightarrow> Inl f
               | Inr v \<Rightarrow> Inr (fst v)))"

definition wake_to_idle :: "hmp_env \<Rightarrow> task_struct \<Rightarrow> bool" where
  "wake_to_idle e p = (current_wake_up_idle e \<or> flags_wake_up_idle p)"

text \<open>
  The local variables of \<^verbatim>\<open>select_best_cpu\<close> that its loop changes. Those whose
  names \<^verbatim>\<open>best_small_task_cpu\<close> has too carry the prefix \<open>sel_\<close>.
\<close>

record select_vars =
  search_cpus :: cpumask
  best_cpu :: cpu
  fallback_idle_cpu :: cpu
  sel_min_cstate_cpu :: cpu
  sel_min_cost :: u32
  min_idle_cost :: u32
  min_busy_cost :: u32
  sel_min_load :: u64
  min_fallback_load :: u64
  sel_min_cstate :: int
  prefer_idle :: int

text \<open>
  The body of the inner loop (lines 3462-3474), on the pair
  (\<^verbatim>\<open>min_fallback_load\<close>, \<^verbatim>\<open>fallback_idle_cpu\<close>).
\<close>

definition fallback_idle_step ::
  "hmp_env \<Rightarrow> task_struct \<Rightarrow> bool \<Rightarrow> cpu \<Rightarrow> u64 \<times> cpu \<Rightarrow> stop + (u64 \<times> cpu)" where
  "fallback_idle_step e p sync j v =
     (let cpu_load = cpu_load_sync e j sync
      in if mostly_idle_cpu_sync e j cpu_load sync \<and> \<not> sched_cpu_high_irqload e j
            \<and> (cpu_load < fst v \<or> (cpu_load = fst v \<and> j = task_cpu p))
         then Inr (cpu_load, j)
         else Inr v)"

text \<open>
  One pass through the body of the loop of \<^verbatim>\<open>select_best_cpu\<close> (lines 3432-3569),
  for CPU \<open>i\<close>. The tracepoint is left out.
\<close>

definition select_step ::
  "hmp_env \<Rightarrow> task_struct \<Rightarrow> int \<Rightarrow> bool \<Rightarrow> nat option \<Rightarrow> bool \<Rightarrow> cpu \<Rightarrow> select_vars
     \<Rightarrow> stop + select_vars" where
  "select_step e p reason sync pref_cluster prefer_idle_override i v =
     (let r = cpu_rq e i
      in if skip_freq_domain e (task_cpu p) i reason pref_cluster
         then Inr (v\<lparr>search_cpus := cpumask_andnot (search_cpus v) (freq_domain_cpumask r)\<rparr>)
         else
           (let tload = scale_load_to_cpu e (task_load p) i
            in case skip_cpu e (task_cpu p) i tload reason of
                 Inl f \<Rightarrow> Inl f
               | Inr skip \<Rightarrow>
                   if skip then Inr v
                   else
                     (let prev_cpu = (i = task_cpu p)
                      in if (pref_cluster \<noteq> None \<and> Some (cluster r) \<noteq> pref_cluster)
                            \<or> \<not> task_load_will_fit e p tload i
                         then
                           (case for_each_cpu (nr_cpu_ids e)
                                   (\<lambda>_. cpumask_and (search_cpus v) (freq_domain_cpumask r))
                                   (fallback_idle_step e p sync) (- 1)
                                   (min_fallback_load v, fallback_idle_cpu v) of
                              Inl f \<Rightarrow> Inl f
                            | Inr w \<Rightarrow>
                                Inr (v\<lparr>min_fallback_load := fst w,
                                       fallback_idle_cpu := snd w,
                                       search_cpus := cpumask_andnot (search_cpus v)
                                                        (freq_domain_cpumask r)\<rparr>))
                         else
                           (let v1 = (if prefer_idle v = - 1
                                      then v\<lparr>prefer_idle := rq_prefer_idle (cpu_rq e i)\<rparr>
                                      else v);
                                cpu_load = cpu_load_sync e i sync
                            in if \<not> eligible_cpu e tload cpu_load i sync then Inr v1
                               else
                                 (case power_cost e tload i of
                                    Inl f \<Rightarrow> Inl f
                                  | Inr cpu_cost \<Rightarrow>
                                      if power_delta_exceeded e cpu_cost (sel_min_cost v1)
                                         \<and> sint cpu_cost > sint (sel_min_cost v1)
                                      then Inr v1
                                      else
                                        (let v2 =
                                           (if power_delta_exceeded e cpu_cost (sel_min_cost v1)
                                            then v1\<lparr>sel_min_cost := cpu_cost,
                                                    sel_min_load := ULLONG_MAX,
                                                    sel_min_cstate := INT_MAX,
                                                    sel_min_cstate_cpu := - 1,
                                                    best_cpu := - 1,
                                                    prefer_idle :=
                                                      (if \<not> prefer_idle_override
                                                       then rq_prefer_idle (cpu_rq e i)
                                                       else prefer_idle v1)\<rparr>
                                            else v1)
                                         in if idle_cpu e i
                                               \<or> (sync \<and> i = smp_processor_id e
                                                  \<and> prefer_idle v2 \<noteq> 0
                                                  \<and> rq_nr_running (cpu_rq e i) = 1)
                                            then
                                              (let cs = cstate (cpu_rq e i)
                                               in if cs > sel_min_cstate v2 then Inr v2
                                                  else if cs < sel_min_cstate v2
                                                  then Inr (v2\<lparr>min_idle_cost := cpu_cost,
                                                               sel_min_cstate := cs,
                                                               sel_min_cstate_cpu := i\<rparr>)
                                                  else if sint cpu_cost < sint (min_idle_cost v2)
                                                          \<or> (prev_cpu \<and> cpu_cost = min_idle_cost v2)
                                                  then Inr (v2\<lparr>min_idle_cost := cpu_cost,
                                                               sel_min_cstate_cpu := i\<rparr>)
                                                  else Inr v2)
                                            else if cpu_load > sel_min_load v2 then Inr v2
                                            else if cpu_load < sel_min_load v2
                                            then Inr (v2\<lparr>sel_min_load := cpu_load,
                                                         min_busy_cost := cpu_cost,
                                                         best_cpu := i\<rparr>)
                                            else if sint cpu_cost < sint (min_busy_cost v2)
                                                    \<or> (prev_cpu \<and> cpu_cost = min_busy_cost v2)
                                            then Inr (v2\<lparr>min_busy_cost := cpu_cost,
                                                         best_cpu := i\<rparr>)
                                            else Inr v2))))))"

text \<open>
  The code of \<^verbatim>\<open>select_best_cpu\<close> from the label \<^verbatim>\<open>done\<close> on (lines 3578-3603).
\<close>

definition select_done ::
  "hmp_env \<Rightarrow> task_struct \<Rightarrow> bool \<Rightarrow> cpu \<Rightarrow> cpu \<Rightarrow> stop + cpu" where
  "select_done e p prefer_idle_override best fallback_idle =
     (let best1 = (if best < 0
                   then (if fallback_idle < 0 then task_cpu p else fallback_idle)
                   else best)
      in if cpu_mostly_idle_freq e best1 \<noteq> 0 \<and> \<not> prefer_idle_override
         then select_packing_target e p best1
         else Inr best1)"

text \<open>
  \<^verbatim>\<open>select_best_cpu\<close>, with \<open>None\<close>, \<open>Some (Inl f)\<close> and \<open>Some (Inr c)\<close> as for
  \<^verbatim>\<open>best_small_task_cpu\<close>. \<^verbatim>\<open>sync\<close> is used as a truth value only.
\<close>

definition select_best_cpu ::
  "hmp_env \<Rightarrow> task_struct \<Rightarrow> int \<Rightarrow> int \<Rightarrow> bool \<Rightarrow> (stop + cpu) option" where
  "select_best_cpu e p target reason sync =
     (let boost = sched_boost e;
          pref_cluster =
            (case grp p of
               None \<Rightarrow> None
             | Some g \<Rightarrow>
                 (case preferred_cluster g of
                    None \<Rightarrow> None
                  | Some c \<Rightarrow>
                      if sysctl_sched_enable_colocation e \<and> cluster_capacity e c > min_capacity e
                      then Some c else None));
          small_task = (is_small_task e p \<and> pref_cluster = None \<and> \<not> wake_to_idle e p);
          prefer_idle0 = (if reason \<noteq> 0 \<or> wake_to_idle e p then 1 else - 1);
          prefer_idle_override = (reason \<noteq> 0 \<or> wake_to_idle e p);
          sync1 = (sync \<and> \<not> wake_to_idle e p)
      in if small_task \<and> \<not> boost \<and> \<not> sync1
         then
           (case best_small_task_cpu e p sync1 of
              None \<Rightarrow> None
            | Some (Inl f) \<Rightarrow> Some (Inl f)
            | Some (Inr c) \<Rightarrow> Some (select_done e p prefer_idle_override c (- 1)))
         else
           (let search = cpumask_and (tsk_cpus_allowed p) (cpu_active_mask e)
            in if sync1 \<and> cpumask_test_cpu (smp_processor_id e) search
               then Some (select_done e p prefer_idle_override (smp_processor_id e) (- 1))
               else
                 (case for_each_cpu (nr_cpu_ids e) search_cpus
                         (select_step e p reason sync1 pref_cluster prefer_idle_override) (- 1)
                         \<lparr> search_cpus = search, best_cpu = - 1, fallback_idle_cpu = - 1,
                           sel_min_cstate_cpu = - 1, sel_min_cost = word_of_int INT_MAX,
                           min_idle_cost = word_of_int INT_MAX,
                           min_busy_cost = word_of_int INT_MAX,
                           sel_min_load = ULLONG_MAX, min_fallback_load = ULLONG_MAX,
                           sel_min_cstate = INT_MAX, prefer_idle = prefer_idle0 \<rparr> of
                    Inl f \<Rightarrow> Some (Inl f)
                  | Inr v \<Rightarrow>
                      Some (select_done e p prefer_idle_override
                              (if sel_min_cstate_cpu v \<ge> 0
                                  \<and> (prefer_idle v > 0 \<or> best_cpu v < 0
                                     \<or> \<not> mostly_idle_cpu_sync e (best_cpu v) (sel_min_load v) sync1)
                               then sel_min_cstate_cpu v else best_cpu v)
                              (fallback_idle_cpu v)))))"

subsection \<open>Mostly idle CPUs and the small-task wakeup\<close>

text \<open>\<^verbatim>\<open>cpu_load\<close> and \<^verbatim>\<open>mostly_idle_cpu\<close> (lines 2773-2821).\<close>

definition cpu_load :: "hmp_env \<Rightarrow> cpu \<Rightarrow> u64" where
  "cpu_load e c = scale_load_to_cpu e (cumulative_runnable_avg (cpu_rq e c)) c"

definition mostly_idle_cpu :: "hmp_env \<Rightarrow> cpu \<Rightarrow> bool" where
  "mostly_idle_cpu e c =
     (let r = cpu_rq e c
      in cpu_load e c \<le> ucast (mostly_idle_load r)
         \<and> rq_nr_running r \<le> word_of_int (mostly_idle_nr_run r)
         \<and> \<not> sched_cpu_high_irqload e c)"

text \<open>
  A CPU is busy but fits the task when it is not mostly idle and the task does not
  take it over the spill threshold.
\<close>

definition busy_but_fits :: "hmp_env \<Rightarrow> task_struct \<Rightarrow> cpu \<Rightarrow> bool" where
  "busy_but_fits e p c =
     (\<not> mostly_idle_cpu e c
      \<and> \<not> spill_threshold_crossed e (scale_load_to_cpu e (task_load p) c) (cpu_load e c)
           (cpu_rq e c))"

text \<open>
  The candidate CPUs of a wakeup are the active CPUs of the task's affinity mask.
\<close>

definition candidates :: "hmp_env \<Rightarrow> task_struct \<Rightarrow> cpumask" where
  "candidates e p = cpumask_and (tsk_cpus_allowed p) (cpu_active_mask e)"

text \<open>
  The wakeups that \<^verbatim>\<open>select_best_cpu\<close> hands to \<^verbatim>\<open>best_small_task_cpu\<close> when they
  are not sync: the task is small, there is no boost, neither the task nor the
  waker carries \<^verbatim>\<open>PF_WAKE_UP_IDLE\<close>, and the task has no preferred cluster above
  the minimum capacity (lines 3394-3420).
\<close>

definition small_task_wakeup :: "hmp_env \<Rightarrow> task_struct \<Rightarrow> bool" where
  "small_task_wakeup e p =
     (is_small_task e p \<and> \<not> sched_boost e \<and> \<not> wake_to_idle e p
      \<and> \<not> (sysctl_sched_enable_colocation e
            \<and> (case grp p of
                  None \<Rightarrow> False
                | Some g \<Rightarrow>
                    (case preferred_cluster g of
                       None \<Rightarrow> False
                     | Some c \<Rightarrow> cluster_capacity e c > min_capacity e))))"

text \<open>
  The CPUs that the first loop of \<^verbatim>\<open>best_small_task_cpu\<close> sets aside with their
  frequency domain: those of the highest possible capacity, when not all CPUs
  have it (line 3129).
\<close>

definition highest_capacity_cpu :: "hmp_env \<Rightarrow> cpu \<Rightarrow> bool" where
  "highest_capacity_cpu e c =
     (cpu_max_possible_capacity e c = max_possible_capacity e
      \<and> \<not> cpumask_equal (mpc_mask e) (cpu_possible_mask e))"

text \<open>
  A mostly idle CPU that the first loop of \<^verbatim>\<open>best_small_task_cpu\<close> does not set
  aside: no high IRQ load, and load and running count at or below the mostly-idle
  thresholds, as \<^verbatim>\<open>mostly_idle_cpu_sync\<close> tests them for a wakeup that is not sync.
\<close>

definition mostly_idle_candidate :: "hmp_env \<Rightarrow> cpu \<Rightarrow> bool" where
  "mostly_idle_candidate e c =
     (\<not> highest_capacity_cpu e c \<and> \<not> sched_cpu_high_irqload e c
      \<and> mostly_idle_cpu_sync e c (cpu_load_sync e c False) False)"

text \<open>A CPU that is idle in a C-state other than 0 (line 3143).\<close>

definition idle_in_cstate :: "hmp_env \<Rightarrow> cpu \<Rightarrow> bool" where
  "idle_in_cstate e c = (idle_cpu e c \<and> cstate (cpu_rq e c) \<noteq> 0)"

text \<open>
  The CPUs that the loop returns as soon as it meets them, with
  \<^verbatim>\<open>sysctl_sched_restrict_tasks_spread\<close> off (lines 3129-3165): mostly idle and not
  idle in a C-state.
\<close>

definition first_choice :: "hmp_env \<Rightarrow> cpu \<Rightarrow> bool" where
  "first_choice e c = (mostly_idle_candidate e c \<and> \<not> idle_in_cstate e c)"

text \<open>
  The CPUs that the loop remembers in \<^verbatim>\<open>min_cstate_cpu\<close> when their C-state is the
  lowest so far (lines 3129-3149): not set aside, no high IRQ load, idle in a
  C-state.
\<close>

definition idle_choice :: "hmp_env \<Rightarrow> cpu \<Rightarrow> bool" where
  "idle_choice e c =
     (\<not> highest_capacity_cpu e c \<and> \<not> sched_cpu_high_irqload e c \<and> idle_in_cstate e c)"

text \<open>
  The frequency domain of every candidate CPU of the highest possible capacity
  holds that CPU and, of the candidates, only CPUs of the highest possible capacity.
\<close>

definition domains_by_capacity :: "hmp_env \<Rightarrow> cpumask \<Rightarrow> bool" where
  "domains_by_capacity e cpus =
     (\<forall>b\<in>set cpus. highest_capacity_cpu e b \<longrightarrow>
        b \<in> set (freq_domain_cpumask (cpu_rq e b))
        \<and> (\<forall>d\<in>set cpus. d \<in> set (freq_domain_cpumask (cpu_rq e b))
              \<longrightarrow> highest_capacity_cpu e d))"

text \<open>
  The CPUs from which \<^verbatim>\<open>select_packing_target\<close> looks for another target: the
  cluster has a mostly-idle frequency, and the current frequency is below it
  though the maximum frequency is above (lines 3328-3333, 3591).
\<close>

definition packing_cpu :: "hmp_env \<Rightarrow> cpu \<Rightarrow> bool" where
  "packing_cpu e c =
     (cpu_mostly_idle_freq e c \<noteq> 0 \<and> cpu_cur_freq e c < cpu_mostly_idle_freq e c
      \<and> cpu_mostly_idle_freq e c < cpu_max_freq e c)"

subsection \<open>Placement scenarios\<close>

text \<open>
  A run queue of a frequency domain, with a running count and a load; the
  mostly-idle thresholds are 20% of the window and 3 tasks, the CPU is not idle.
\<close>

definition run_queue :: "cpumask \<Rightarrow> u32 \<Rightarrow> u64 \<Rightarrow> rq" where
  "run_queue domain nr avg =
     \<lparr> rq_nr_running = nr, cumulative_runnable_avg = avg, curr_demand = 0,
       cstate = 0, dstate = 0, static_cpu_pwr_cost = 0, static_cluster_pwr_cost = 0,
       rq_prefer_idle = 0, mostly_idle_load = 2000000, mostly_idle_nr_run = 3,
       freq_domain_cpumask = domain, cluster = 0 \<rparr>"

text \<open>
  A system of CPUs of one capacity (1024) with the initial tunables: no boost, no
  power-aware placement, no packing, tasks spread freely, spill at 10 running
  tasks.
\<close>

definition uniform_env :: "cpumask \<Rightarrow> (cpu \<Rightarrow> rq) \<Rightarrow> hmp_env" where
  "uniform_env cpus rqs =
     \<lparr> hmp = initial_hmp_state, nr_cpu_ids = int (length cpus), cpu_rq = rqs,
       cpu_active_mask = cpus, cpu_possible_mask = cpus, mpc_mask = cpus,
       smp_processor_id = 0, current_wake_up_idle = False, boost_refcount = 0,
       max_capacity = 1024, min_capacity = 1024, max_possible_capacity = 1024,
       max_load_scale_factor = 1024, min_max_freq = 2000000,
       sysctl_sched_spill_nr_run = 10, sysctl_sched_enable_power_aware = False,
       sysctl_sched_powerband_limit_pct = 20,
       sysctl_sched_restrict_tasks_spread = False,
       sysctl_sched_enable_colocation = True,
       cpu_capacity = (\<lambda>c. 1024), cpu_max_possible_capacity = (\<lambda>c. 1024),
       cluster_capacity = (\<lambda>c. 1024),
       cpu_max_possible_freq = (\<lambda>c. 2000000), cpu_cur_freq = (\<lambda>c. 500000),
       cpu_max_freq = (\<lambda>c. 2000000), cpu_mostly_idle_freq = (\<lambda>c. 0),
       scale_load_to_cpu = (\<lambda>l c. l), sched_cpu_high_irqload = (\<lambda>c. False),
       idle_cpu = (\<lambda>c. False), is_reserved = (\<lambda>c. False),
       get_cpu_pwr_stats = None \<rparr>"

text \<open>A task of load 1% of the window that last ran on CPU \<open>c\<close>.\<close>

definition small_task_on :: "cpu \<Rightarrow> task_struct" where
  "small_task_on c =
     \<lparr> task_load = 100000, task_cpu = c, task_nice = 0, tsk_cpus_allowed = [0, 1, 2, 3],
       flags_wake_up_idle = False, upmigrate_discouraged = False, grp = None \<rparr>"

text \<open>
  Two CPUs: CPU 0 runs one task and is mostly idle, CPU 1 runs five tasks, more
  than the mostly-idle count, and would take the task without spilling.
\<close>

definition two_cpus :: hmp_env where
  "two_cpus =
     uniform_env [0, 1]
       (\<lambda>c. if c = 0 then run_queue [0, 1] 1 1000000 else run_queue [0, 1] 5 500000)"

text \<open>
  Three CPUs: CPUs 0 and 1 are mostly idle, CPU 1 with the lower load; CPU 2 is
  busy.
\<close>

definition three_cpus :: hmp_env where
  "three_cpus =
     uniform_env [0, 1, 2]
       (\<lambda>c. if c = 0 then run_queue [0, 1, 2] 1 1000000
            else if c = 1 then run_queue [0, 1, 2] 1 500000
            else run_queue [0, 1, 2] 5 500000)"

text \<open>The two CPUs, with CPU 0 alone of the highest possible capacity.\<close>

definition big_little :: hmp_env where
  "big_little =
     two_cpus\<lparr>mpc_mask := [0],
              cpu_max_possible_capacity := (\<lambda>c. if c = 0 then 1024 else 512)\<rparr>"

text \<open>The two CPUs, with \<^verbatim>\<open>sysctl_sched_restrict_tasks_spread\<close> set.\<close>

definition two_cpus_restricted :: hmp_env where
  "two_cpus_restricted = two_cpus\<lparr>sysctl_sched_restrict_tasks_spread := True\<rparr>"

text \<open>
  Two CPUs of one frequency domain that runs below its mostly-idle frequency: CPU 0
  is the busy one, CPU 1 is mostly idle.
\<close>

definition two_cpus_packing :: hmp_env where
  "two_cpus_packing =
     (uniform_env [0, 1]
        (\<lambda>c. if c = 0 then run_queue [0, 1] 5 500000 else run_queue [0, 1] 1 1000000))
       \<lparr>cpu_mostly_idle_freq := (\<lambda>c. 1000000)\<rparr>"

text \<open>
  The two CPUs, with CPU 0 idle in C-state \<open>cs\<close>; it runs nothing, and its load is
  what the window statistics still hold.
\<close>

definition two_cpus_idle :: "int \<Rightarrow> hmp_env" where
  "two_cpus_idle cs =
     (uniform_env [0, 1]
        (\<lambda>c. if c = 0 then (run_queue [0, 1] 0 1000000)\<lparr>cstate := cs\<rparr>
             else run_queue [0, 1] 5 500000))
       \<lparr>idle_cpu := (\<lambda>c. c = 0)\<rparr>"

text \<open>
  Three CPUs: CPU 0 alone has the highest possible capacity and is busy, the mostly
  idle CPU 1 is in the frequency domain of CPU 0, and CPU 2 is busy.
\<close>

definition shared_domain :: hmp_env where
  "shared_domain =
     (uniform_env [0, 1, 2]
        (\<lambda>c. if c = 0 then run_queue [0, 1] 5 500000
             else if c = 1 then run_queue [0, 1] 1 1000000
             else run_queue [2] 5 500000))
       \<lparr>mpc_mask := [0],
        cpu_max_possible_capacity := (\<lambda>c. if c = 0 then 1024 else 512)\<rparr>"

text \<open>
  The two CPUs as the small CPUs of a system whose CPUs of the highest capacity
  (2048) are not among the candidates.
\<close>

definition little_cpus :: hmp_env where
  "little_cpus =
     two_cpus\<lparr>max_capacity := 2048, min_capacity := 512, max_possible_capacity := 2048\<rparr>"

text \<open>The same, with \<^verbatim>\<open>PF_WAKE_UP_IDLE\<close> set on the waker.\<close>

definition waker_hint :: hmp_env where
  "waker_hint = little_cpus\<lparr>current_wake_up_idle := True\<rparr>"

text \<open>
  The small task in a group of related threads whose preferred cluster is cluster 0,
  the cluster of every CPU of the scenes.
\<close>

definition grouped_task_on :: "cpu \<Rightarrow> task_struct" where
  "grouped_task_on c = (small_task_on c)\<lparr>grp := Some \<lparr>preferred_cluster = Some 0\<rparr>\<rparr>"

section \<open>Properties of the virtual-runtime order\<close>

lemma sint_diff_of_nat:
  fixes A B :: nat
  assumes "\<bar>int A - int B\<bar> < 2 ^ 63"
  shows "sint ((of_nat A :: u64) - of_nat B) = int A - int B"
proof -
  have "(of_nat A :: u64) - of_nat B = of_int (int A - int B)"
    by simp
  then have "sint ((of_nat A :: u64) - of_nat B) = signed_take_bit 63 (int A - int B)"
    by (simp only: sint_sbintrunc') simp
  also have "\<dots> = int A - int B"
    using assms by (intro signed_take_bit_int_eq_self) auto
  finally show ?thesis .
qed

lemma entity_before_true_order:
  assumes "\<bar>int A - int B\<bar> < 2 ^ 63"
  shows "entity_before (e1\<lparr>vruntime := of_nat A\<rparr>) (e2\<lparr>vruntime := of_nat B\<rparr>) \<longleftrightarrow> A < B"
  using sint_diff_of_nat [OF assms] by (simp add: entity_before_def)

lemma max_vruntime_true_order:
  assumes "\<bar>int A - int B\<bar> < 2 ^ 63"
  shows "max_vruntime (of_nat A) (of_nat B) = of_nat (max A B)"
proof -
  have "\<bar>int B - int A\<bar> < 2 ^ 63" using assms by simp
  from sint_diff_of_nat [OF this] show ?thesis
    by (simp add: max_vruntime_def max_def)
qed

lemma min_vruntime_true_order:
  assumes "\<bar>int A - int B\<bar> < 2 ^ 63"
  shows "min_vruntime (of_nat A) (of_nat B) = of_nat (min A B)"
proof -
  have "\<bar>int B - int A\<bar> < 2 ^ 63" using assms by simp
  from sint_diff_of_nat [OF this] show ?thesis
    by (simp add: min_vruntime_def min_def)
qed

lemma entity_before_ghost:
  assumes "vruntime (ents x) = of_nat (T x)" "vruntime (ents y) = of_nat (T y)"
    and "\<bar>int (T x) - int (T y)\<bar> < 2 ^ 63"
  shows "entity_before (ents x) (ents y) \<longleftrightarrow> T x < T y"
  using sint_diff_of_nat [OF assms(3)] assms(1,2) by (simp add: entity_before_def)

lemma rb_find_link_inorder:
  assumes "\<forall>x \<in> set_tree t \<union> {se}. vruntime (ents x) = of_nat (T x)"
    and "\<forall>x \<in> set_tree t. \<bar>int (T se) - int (T x)\<bar> < 2 ^ 63"
    and "sorted (map T (inorder t))"
  shows "inorder (fst (rb_find_link ents se t lm)) =
           filter (\<lambda>x. T x \<le> T se) (inorder t) @ [se] @ filter (\<lambda>x. T se < T x) (inorder t)"
  using assms
proof (induction t arbitrary: lm)
  case Leaf
  then show ?case by simp
next
  case (Node l e r)
  have eb: "entity_before (ents se) (ents e) \<longleftrightarrow> T se < T e"
    using Node.prems(1,2) by (intro entity_before_ghost) auto
  have sl: "sorted (map T (inorder l))" and sr: "sorted (map T (inorder r))"
    and le: "\<forall>x \<in> set (inorder l). T x \<le> T e" and er: "\<forall>x \<in> set (inorder r). T e \<le> T x"
    using Node.prems(3) by (auto simp: sorted_append)
  show ?case
  proof (cases "T se < T e")
    case True
    have ih: "inorder (fst (rb_find_link ents se l lm)) =
           filter (\<lambda>x. T x \<le> T se) (inorder l) @ [se] @ filter (\<lambda>x. T se < T x) (inorder l)"
      using Node.prems(1,2) sl by (intro Node.IH(1)) auto
    have r1: "filter (\<lambda>x. T x \<le> T se) (inorder r) = []"
      using er True by (auto simp: filter_empty_conv)
    have r2: "filter (\<lambda>x. T se < T x) (inorder r) = inorder r"
      using er True by (auto simp: filter_id_conv)
    show ?thesis using True eb ih r1 r2
      by (simp add: split_beta)
  next
    case False
    have ih: "inorder (fst (rb_find_link ents se r False)) =
           filter (\<lambda>x. T x \<le> T se) (inorder r) @ [se] @ filter (\<lambda>x. T se < T x) (inorder r)"
      using Node.prems(1,2) sr by (intro Node.IH(2)) auto
    have l1: "filter (\<lambda>x. T se < T x) (inorder l) = []"
      using le False by (auto simp: filter_empty_conv)
    have l2: "filter (\<lambda>x. T x \<le> T se) (inorder l) = inorder l"
      using le False by (auto simp: filter_id_conv)
    show ?thesis using False eb ih l1 l2
      by (simp add: split_beta)
  qed
qed

lemma max_vruntime_step: "0 \<le> sint (max_vruntime m v - m)"
  by (simp add: max_vruntime_def Let_def)

lemma update_min_vruntime_eq:
  "min_vruntime_of (update_min_vruntime ents q) =
     max_vruntime (min_vruntime_of q) (watermark_target ents q)"
  by (simp add: update_min_vruntime_def watermark_target_def Let_def split: option.splits)

lemma update_min_vruntime_step:
  "0 \<le> sint (min_vruntime_of (update_min_vruntime ents q) - min_vruntime_of q)"
  by (simp add: update_min_vruntime_eq max_vruntime_step)

lemma update_curr_step:
  "0 \<le> sint (min_vruntime_of (snd (update_curr now s)) - min_vruntime_of (snd s))"
  by (cases s) (simp add: update_curr_def Let_def update_min_vruntime_step split: option.splits)

lemma enqueue_entity_watermark:
  "min_vruntime_of (snd (enqueue_entity feat tun now flags s se)) =
     min_vruntime_of (snd (update_curr now
        (if \<not> ENQUEUE_WAKEUP flags \<or> ENQUEUE_WAKING flags
         then (fst s)(se := (fst s se)\<lparr>vruntime := vruntime (fst s se) + min_vruntime_of (snd s)\<rparr>)
         else fst s, snd s)))"
  by (cases s)
     (simp add: enqueue_entity_def Let_def split_beta account_entity_enqueue_def
        raw_enqueue_entity_def)

lemma enqueue_entity_step:
  "0 \<le> sint (min_vruntime_of (snd (enqueue_entity feat tun now flags s se)) - min_vruntime_of (snd s))"
  unfolding enqueue_entity_watermark
  using update_curr_step [of now "(if \<not> ENQUEUE_WAKEUP flags \<or> ENQUEUE_WAKING flags
         then (fst s)(se := (fst s se)\<lparr>vruntime := vruntime (fst s se) + min_vruntime_of (snd s)\<rparr>)
         else fst s, snd s)"]
  by simp

lemma clear_buddies_watermark [simp]: "min_vruntime_of (clear_buddies q se) = min_vruntime_of q"
  by (simp add: clear_buddies_def Let_def)

lemma update_min_vruntime_step_from:
  "min_vruntime_of q = m \<Longrightarrow> 0 \<le> sint (min_vruntime_of (update_min_vruntime ents q) - m)"
  using update_min_vruntime_step [of ents q] by simp

lemma dequeue_entity_step:
  "0 \<le> sint (min_vruntime_of (snd (dequeue_entity now sleep s se))
               - min_vruntime_of (snd (update_curr now s)))"
proof -
  obtain ents1 q1 where u: "update_curr now s = (ents1, q1)"
    by (cases "update_curr now s")
  show ?thesis
    unfolding dequeue_entity_def u Let_def split_conv snd_conv
    by (rule update_min_vruntime_step_from)
       (simp add: account_entity_dequeue_def raw_dequeue_entity_def)
qed

lemma wrap_nondecreasing_Cons:
  "wrap_nondecreasing (x # xs) \<longleftrightarrow>
     (case xs of [] \<Rightarrow> True | y # ys \<Rightarrow> 0 \<le> sint (y - x) \<and> wrap_nondecreasing (y # ys))"
  by (cases xs) simp_all

lemma watermark_history_chain:
  "wrap_nondecreasing (min_vruntime_of (snd s) # watermark_history feat tun s ops)"
proof (induction ops arbitrary: s)
  case Nil
  then show ?case by simp
next
  case (Cons op ops)
  have ih: "wrap_nondecreasing (min_vruntime_of (snd (apply_op feat tun op s))
              # watermark_history feat tun (apply_op feat tun op s) ops)"
    by (rule Cons.IH)
  show ?case
  proof (cases op)
    case (Op_update_curr now)
    then show ?thesis using ih update_curr_step [of now s] by simp
  next
    case (Op_enqueue now flags se)
    then show ?thesis using ih enqueue_entity_step [of feat tun now flags s se] by simp
  next
    case (Op_dequeue now sleep se)
    then show ?thesis
      using ih update_curr_step [of now s] dequeue_entity_step [of now sleep s se] by simp
  qed
qed

text \<open>
  Claim C3. After \<^verbatim>\<open>update_min_vruntime\<close> the field \<^verbatim>\<open>min_vruntime\<close> is the
  \<^verbatim>\<open>max_vruntime\<close> of its old value and of the minimum of the running entity's and
  the leftmost queued entity's virtual runtimes (the one that exists when the other
  is absent); the new value is never before the old one in the order of the signed
  64-bit difference; and along every list of \<^verbatim>\<open>update_curr\<close>, \<^verbatim>\<open>enqueue_entity\<close>
  and \<^verbatim>\<open>dequeue_entity\<close> calls each value of the field is not before the one it
  replaces.
\<close>

theorem min_vruntime_never_decreases:
  "min_vruntime_of (update_min_vruntime ents q) =
     max_vruntime (min_vruntime_of q) (watermark_target ents q)
   \<and> 0 \<le> sint (min_vruntime_of (update_min_vruntime ents q) - min_vruntime_of q)
   \<and> wrap_nondecreasing (min_vruntime_of (snd s) # watermark_history feat tun s ops)"
  using update_min_vruntime_eq update_min_vruntime_step watermark_history_chain by blast

text \<open>
  Claim C10. Let \<open>A\<close> and \<open>B\<close> be the true (unbounded) virtual runtimes behind two
  64-bit counters. When they are less than \<open>2^63\<close> apart, \<^verbatim>\<open>entity_before\<close>,
  \<^verbatim>\<open>max_vruntime\<close> and \<^verbatim>\<open>min_vruntime\<close> order the wrapped counters as the true values
  are ordered. When the timeline is sorted by true virtual runtime and the new
  entity is less than \<open>2^63\<close> from every queued one, \<^verbatim>\<open>__enqueue_entity\<close> puts it
  after every queued entity whose key is smaller or equal, so equal keys stay in
  insertion order, and the timeline stays sorted.
\<close>

theorem vruntime_order_wraparound_safe:
  "(\<bar>int A - int B\<bar> < 2 ^ 63 \<longrightarrow>
      (entity_before (e1\<lparr>vruntime := of_nat A\<rparr>) (e2\<lparr>vruntime := of_nat B\<rparr>) \<longleftrightarrow> A < B)
      \<and> max_vruntime (of_nat A) (of_nat B) = of_nat (max A B)
      \<and> min_vruntime (of_nat A) (of_nat B) = of_nat (min A B))
   \<and> ((\<forall>x \<in> set_tree (tasks_timeline q) \<union> {se}. vruntime (ents x) = of_nat (T x))
        \<and> (\<forall>x \<in> set_tree (tasks_timeline q). \<bar>int (T se) - int (T x)\<bar> < 2 ^ 63)
        \<and> sorted (map T (inorder (tasks_timeline q))) \<longrightarrow>
      inorder (tasks_timeline (raw_enqueue_entity ents q se)) =
        filter (\<lambda>x. T x \<le> T se) (inorder (tasks_timeline q)) @ [se]
          @ filter (\<lambda>x. T se < T x) (inorder (tasks_timeline q))
      \<and> sorted (map T (inorder (tasks_timeline (raw_enqueue_entity ents q se)))))"
proof (intro conjI impI)
  assume a: "\<bar>int A - int B\<bar> < 2 ^ 63"
  show "entity_before (e1\<lparr>vruntime := of_nat A\<rparr>) (e2\<lparr>vruntime := of_nat B\<rparr>) \<longleftrightarrow> A < B"
    by (rule entity_before_true_order [OF a])
  show "max_vruntime (of_nat A) (of_nat B) = of_nat (max A B)"
    by (rule max_vruntime_true_order [OF a])
  show "min_vruntime (of_nat A) (of_nat B) = of_nat (min A B)"
    by (rule min_vruntime_true_order [OF a])
next
  assume h: "(\<forall>x \<in> set_tree (tasks_timeline q) \<union> {se}. vruntime (ents x) = of_nat (T x))
        \<and> (\<forall>x \<in> set_tree (tasks_timeline q). \<bar>int (T se) - int (T x)\<bar> < 2 ^ 63)
        \<and> sorted (map T (inorder (tasks_timeline q)))"
  let ?t = "tasks_timeline q"
  have eq: "inorder (fst (rb_find_link ents se ?t True)) =
      filter (\<lambda>x. T x \<le> T se) (inorder ?t) @ [se] @ filter (\<lambda>x. T se < T x) (inorder ?t)"
    using h by (intro rb_find_link_inorder) auto
  have tl: "tasks_timeline (raw_enqueue_entity ents q se) = fst (rb_find_link ents se ?t True)"
    by (simp add: raw_enqueue_entity_def split_beta)
  show i: "inorder (tasks_timeline (raw_enqueue_entity ents q se)) =
        filter (\<lambda>x. T x \<le> T se) (inorder ?t) @ [se] @ filter (\<lambda>x. T se < T x) (inorder ?t)"
    using eq tl by simp
  have s: "sorted (map T (inorder ?t))" using h by simp
  have "sorted (map T (filter (\<lambda>x. T x \<le> T se) (inorder ?t) @ [se]
          @ filter (\<lambda>x. T se < T x) (inorder ?t)))"
    using s by (auto simp: sorted_append sorted_filter intro: less_imp_le order_trans)
  then show "sorted (map T (inorder (tasks_timeline (raw_enqueue_entity ents q se))))"
    using i by simp
qed

theorem vruntime_order_wraparound_safe_witness:
  "\<bar>int 18446744073709551615 - int 18446744073709551621\<bar> < (2 ^ 63 :: int)
   \<and> entity_before ((wrap_ents 1)\<lparr>vruntime := 0xFFFFFFFFFFFFFFFF\<rparr>) ((wrap_ents 2)\<lparr>vruntime := 5\<rparr>)
   \<and> max_vruntime 0xFFFFFFFFFFFFFFFF 5 = 5
   \<and> min_vruntime 0xFFFFFFFFFFFFFFFF 5 = 0xFFFFFFFFFFFFFFFF
   \<and> inorder (tasks_timeline wrap_queue) = [1, 2]
   \<and> map (\<lambda>x. vruntime (wrap_ents x)) [1, 2, 3] = map (\<lambda>x. of_nat (wrap_true x)) [1, 2, 3]
   \<and> map wrap_true [1, 2, 3] = [18446744073709551613, 18446744073709551621, 18446744073709551621]
   \<and> inorder (tasks_timeline (raw_enqueue_entity wrap_ents wrap_queue 3)) = [1, 2, 3]"
proof -
  have h1: "\<bar>int 18446744073709551615 - int 18446744073709551621\<bar> < (2 ^ 63 :: int)"
    by simp
  have h2: "\<forall>x \<in> set_tree (tasks_timeline wrap_queue) \<union> {3}. vruntime (wrap_ents x) = of_nat (wrap_true x)"
    by (simp add: wrap_queue_def wrap_ents_def wrap_true_def)
  have h3: "\<forall>x \<in> set_tree (tasks_timeline wrap_queue). \<bar>int (wrap_true 3) - int (wrap_true x)\<bar> < 2 ^ 63"
    by (simp add: wrap_queue_def wrap_true_def)
  have h4: "sorted (map wrap_true (inorder (tasks_timeline wrap_queue)))"
    by (simp add: wrap_queue_def wrap_true_def)
  have n: "(18446744073709551621 :: u64) = 5"
    by simp
  note t = vruntime_order_wraparound_safe [of 18446744073709551615 18446744073709551621
      "wrap_ents 1" "wrap_ents 2" wrap_queue 3 wrap_ents wrap_true]
  have c1: "entity_before ((wrap_ents 1)\<lparr>vruntime := 0xFFFFFFFFFFFFFFFF\<rparr>) ((wrap_ents 2)\<lparr>vruntime := 5\<rparr>)"
    and c2: "max_vruntime 0xFFFFFFFFFFFFFFFF 5 = 5"
    and c3: "min_vruntime 0xFFFFFFFFFFFFFFFF 5 = 0xFFFFFFFFFFFFFFFF"
    using t h1 n by simp_all
  have c4: "inorder (tasks_timeline (raw_enqueue_entity wrap_ents wrap_queue 3)) = [1, 2, 3]"
    using t h2 h3 h4 by (simp add: wrap_queue_def wrap_true_def)
  have c5: "inorder (tasks_timeline wrap_queue) = [1, 2]"
    by (simp add: wrap_queue_def)
  have c6: "map (\<lambda>x. vruntime (wrap_ents x)) [1, 2, 3] = map (\<lambda>x. of_nat (wrap_true x)) [1, 2, 3]"
    by (simp add: wrap_ents_def wrap_true_def)
  have c7: "map wrap_true [1, 2, 3] = [18446744073709551613, 18446744073709551621, 18446744073709551621]"
    by (simp add: wrap_true_def)
  show ?thesis using h1 c1 c2 c3 c4 c5 c6 c7 by blast
qed

section \<open>Properties of the load decay\<close>

lemma decay_load_zero: "decay_load val 0 = val"
  by (simp add: decay_load_def)

lemma decay_load_far: "n > 32 * 63 \<Longrightarrow> decay_load val n = 0"
  by (auto simp add: decay_load_def LOAD_AVG_PERIOD_def)

lemma decay_load_32_eq:
  "decay_load val 32 = mul_u64_u32_shr (drop_bit 1 val) 0xffffffff 32"
  by (simp add: decay_load_def LOAD_AVG_PERIOD_def runnable_avg_yN_inv_def)

lemma half_fixed_point_upper:
  fixes v :: nat
  shows "(v * 4294967295) div 4294967296 \<le> v"
  by (rule order_trans [of _ "(v * 4294967296) div 4294967296"]) (rule div_le_mono, simp, simp)

lemma half_fixed_point_lower:
  fixes v :: nat
  shows "v \<le> (v * 4294967295) div 4294967296 + v div 4294967296 + 1"
  by linarith

lemma unat_decay_load_32:
  "unat (decay_load val 32) = (unat val div 2 * 4294967295) div 4294967296"
proof -
  have b: "unat val div 2 < 2 ^ 64"
    using unsigned_less [where 'a = nat, of val] by simp
  have "(unat val div 2 * 4294967295) div 4294967296 \<le> unat val div 2"
    by (rule half_fixed_point_upper)
  then have "(unat val div 2 * 4294967295) div 4294967296 < 2 ^ 64"
    using b by (rule le_less_trans)
  then show ?thesis
    by (simp add: decay_load_32_eq mul_u64_u32_shr_def drop_bit_eq_div unat_div
        unat_of_nat)
qed

lemma decay_load_half_life:
  "unat (decay_load val 32) \<le> unat val div 2
   \<and> unat val div 2 \<le> unat (decay_load val 32) + unat val div 2 ^ 33 + 1"
proof -
  have "unat val div 2 div 4294967296 = unat val div 2 ^ 33"
    by (simp add: div_mult2_eq [symmetric])
  then show ?thesis
    using half_fixed_point_upper [of "unat val div 2"]
      half_fixed_point_lower [of "unat val div 2"]
    by (simp add: unat_decay_load_32)
qed

lemma load_avg_half:
  assumes "unat w \<le> 2 ^ 32"
  shows "unat (load_avg_of (decay_load (w * of_nat LOAD_AVG_MAX) 32)) \<le> unat w div 2
       \<and> unat w div 2 \<le> unat (load_avg_of (decay_load (w * of_nat LOAD_AVG_MAX) 32)) + 1"
proof -
  have m: "unat (w * 47742) = unat w * 47742"
    using assms by (simp add: unat_word_ariths)
  have h: "unat w * 47742 div 2 = unat w * 23871"
    by simp
  let ?d = "unat (decay_load (w * 47742) 32)"
  have d1: "?d \<le> unat w * 23871" and d2: "unat w * 23871 \<le> ?d + unat w * 47742 div 2 ^ 33 + 1"
    using decay_load_half_life [of "w * 47742"] by (simp_all add: m h)
  have k: "unat w * 47742 div 2 ^ 33 \<le> 23871"
    using assms by simp
  have a: "unat (load_avg_of (decay_load (w * 47742) 32)) = ?d div 47742"
    by (simp add: load_avg_of_def LOAD_AVG_MAX_def unat_div)
  have u: "?d div 47742 \<le> unat w div 2"
    using d1 by linarith
  have l: "unat w div 2 \<le> ?d div 47742 + 1"
    using d2 k by linarith
  show ?thesis using a u l by (simp add: LOAD_AVG_MAX_def)
qed

lemma load_avg_saturated:
  assumes "unat w \<le> 2 ^ 32"
  shows "load_avg_of (w * of_nat LOAD_AVG_MAX) = w"
proof -
  have m: "unat (w * 47742) = unat w * 47742"
    using assms by (simp add: unat_word_ariths)
  have "unat (load_avg_of (w * 47742)) = unat w"
    by (simp add: load_avg_of_def LOAD_AVG_MAX_def unat_div m)
  then show ?thesis
    by (simp add: LOAD_AVG_MAX_def word_unat_eq_iff)
qed

text \<open>
  Claim C9. \<^verbatim>\<open>decay_load\<close> across 0 periods is the identity; across more than
  \<open>32 * 63\<close> periods it is 0; across exactly 32 periods it is half the value up to
  the rounding of the 32-bit fixed point: never above \<open>val div 2\<close> and below it by
  at most \<open>1 + val div 2^33\<close>. For a weight \<open>w\<close> that was runnable throughout
  (load sum \<open>w * LOAD_AVG_MAX\<close>, load average \<open>w\<close>), the load average after a
  decay over 32 periods is \<open>w div 2\<close> or one less.
\<close>

theorem decay_load_half_life_law:
  "decay_load val 0 = val
   \<and> (n > 32 * 63 \<longrightarrow> decay_load val n = 0)
   \<and> unat (decay_load val 32) \<le> unat val div 2
   \<and> unat val div 2 \<le> unat (decay_load val 32) + unat val div 2 ^ 33 + 1
   \<and> (unat w \<le> 2 ^ 32 \<longrightarrow>
        load_avg_of (w * of_nat LOAD_AVG_MAX) = w
        \<and> unat (load_avg_of (decay_load (w * of_nat LOAD_AVG_MAX) 32)) \<le> unat w div 2
        \<and> unat w div 2 \<le> unat (load_avg_of (decay_load (w * of_nat LOAD_AVG_MAX) 32)) + 1)"
proof (intro conjI impI)
  show "decay_load val 0 = val"
    by (rule decay_load_zero)
  show "decay_load val n = 0" if "32 * 63 < n"
    using that by (rule decay_load_far)
  show "unat (decay_load val 32) \<le> unat val div 2"
    and "unat val div 2 \<le> unat (decay_load val 32) + unat val div 2 ^ 33 + 1"
    using decay_load_half_life [of val] by simp_all
next
  assume w: "unat w \<le> 2 ^ 32"
  show "load_avg_of (w * of_nat LOAD_AVG_MAX) = w"
    by (rule load_avg_saturated [OF w])
  show "unat (load_avg_of (decay_load (w * of_nat LOAD_AVG_MAX) 32)) \<le> unat w div 2"
    and "unat w div 2 \<le> unat (load_avg_of (decay_load (w * of_nat LOAD_AVG_MAX) 32)) + 1"
    using load_avg_half [OF w] by simp_all
qed

theorem decay_load_half_life_law_witness:
  "(32 * 63 :: u64) < 2017 \<and> decay_load 1000 2017 = 0
   \<and> unat (1024 :: u64) \<le> 2 ^ 32
   \<and> load_avg_of (1024 * of_nat LOAD_AVG_MAX) = 1024
   \<and> unat (load_avg_of (decay_load (1024 * of_nat LOAD_AVG_MAX) 32)) \<le> 512
   \<and> 511 \<le> unat (load_avg_of (decay_load (1024 * of_nat LOAD_AVG_MAX) 32))"
proof -
  have h1: "(32 * 63 :: u64) < 2017"
    by simp
  have h2: "unat (1024 :: u64) \<le> 2 ^ 32"
    by simp
  show ?thesis
    using decay_load_half_life_law [of 1000 2017 1024] h1 h2 by simp
qed

section \<open>Properties of the slice computation\<close>

lemma share_upper:
  fixes P n w :: nat
  assumes n: "0 < n"
  shows "(P * (w * (4294967295 div (n * w)))) div 4294967296 \<le> P div n"
proof -
  let ?F = "w * (4294967295 div (n * w))"
  let ?R = "(P * ?F) div 4294967296"
  have a: "?F * n \<le> 4294967295"
  proof -
    have "?F * n = (4294967295 div (n * w)) * (n * w)"
      by (simp add: mult_ac)
    also have "\<dots> \<le> 4294967295"
      by (rule div_times_less_eq_dividend)
    finally show ?thesis .
  qed
  have "?R * 4294967296 \<le> P * ?F"
    by (rule div_times_less_eq_dividend)
  then have "?R * 4294967296 * n \<le> P * ?F * n"
    by (rule mult_le_mono1)
  also have "\<dots> = P * (?F * n)"
    by (simp add: mult_ac)
  also have "\<dots> \<le> P * 4294967295"
    using a by (rule mult_le_mono2)
  also have "\<dots> \<le> P * 4294967296"
    by simp
  finally have "(?R * n) * 4294967296 \<le> P * 4294967296"
    by (simp add: mult_ac)
  then have "?R * n \<le> P"
    by simp
  then show ?thesis
    using n by (simp add: less_eq_div_iff_mult_less_eq)
qed

lemma share_lower:
  fixes P n w :: nat
  assumes n: "0 < n" and w: "0 < w"
  shows "P div n \<le> (P * (w * (4294967295 div (n * w)))) div 4294967296
                    + (P * w) div 4294967296 + 1"
proof (rule ccontr)
  let ?F = "w * (4294967295 div (n * w))"
  let ?R = "(P * ?F) div 4294967296"
  let ?E = "(P * w) div 4294967296"
  assume "\<not> P div n \<le> ?R + ?E + 1"
  then have "?R + ?E + 2 \<le> P div n"
    by simp
  then have "(?R + ?E + 2) * n \<le> P"
    using n by (simp add: less_eq_div_iff_mult_less_eq)
  then have c: "(?R + ?E + 2) * n * 4294967296 \<le> P * 4294967296"
    by simp
  have m: "0 < n * w"
    using n w by simp
  have "4294967295 < (4294967295 div (n * w)) * (n * w) + n * w"
    using m by (metis add.commute dividend_less_div_times mult.commute)
  then have b: "4294967296 \<le> ?F * n + n * w"
    by (simp add: mult_ac)
  have r: "P * ?F < (?R + 1) * 4294967296"
    using dividend_less_div_times [of 4294967296 "P * ?F"] by simp
  have e: "P * w < (?E + 1) * 4294967296"
    using dividend_less_div_times [of 4294967296 "P * w"] by simp
  have "P * 4294967296 \<le> P * (?F * n + n * w)"
    using b by (rule mult_le_mono2)
  also have "\<dots> = n * (P * ?F + P * w)"
    by (simp add: algebra_simps)
  also have "\<dots> < n * ((?R + 1) * 4294967296 + (?E + 1) * 4294967296)"
    using r e n by (simp add: add_strict_mono)
  also have "\<dots> = (?R + ?E + 2) * n * 4294967296"
    by (simp add: algebra_simps)
  finally show False
    using c by simp
qed

lemma drop_bit_32_small:
  fixes x :: u64
  assumes "unat x < 2 ^ 32"
  shows "drop_bit 32 x = 0"
proof -
  have "unat (drop_bit 32 x) = 0"
    using assms by (simp add: drop_bit_eq_div unat_div)
  then show ?thesis
    by (simp add: unat_eq_0)
qed

lemma shrink_fact_small:
  assumes "unat fct < 2 ^ 32"
  shows "shrink_fact fct shift = (fct, shift)"
  using drop_bit_32_small [OF assms] by (subst shrink_fact.simps) simp

lemma unat_inv_weight:
  assumes "0 < unat W" "unat W < 4294967295"
    and "inv_weight lw = 0 \<or> unat (inv_weight lw) = 4294967295 div unat W"
    and "weight lw = W"
  shows "unat (inv_weight (raw_update_inv_weight lw)) = 4294967295 div unat W"
proof (cases "inv_weight lw = 0")
  case True
  have nz: "W \<noteq> 0"
    using assms(1) by auto
  have lt: "\<not> (4294967295 :: u64) \<le> W"
    using assms(2) by (simp add: word_le_nat_alt)
  have d: "unat ((4294967295 :: u64) div W) = 4294967295 div unat W"
    by (simp add: unat_div)
  have "(4294967295 :: nat) div unat W < 4294967296"
    by (rule le_less_trans [OF div_le_dividend]) simp
  then have "unat (ucast ((4294967295 :: u64) div W) :: u32) = 4294967295 div unat W"
    by (simp add: unsigned_ucast_eq take_bit_nat_eq_self_iff d)
  then show ?thesis
    using True nz lt assms(4)
    by (simp add: raw_update_inv_weight_def scale_load_down_def WMULT_CONST_def Let_def)
next
  case False
  then show ?thesis
    using assms(3) by (simp add: raw_update_inv_weight_def)
qed

lemma raw_calc_delta_no_shift:
  assumes W: "0 < unat W" "unat W < 4294967295"
    and inv: "inv_weight lw = 0 \<or> unat (inv_weight lw) = 4294967295 div unat W"
    and lw: "weight lw = W"
    and w: "unat w < 2 ^ 32"
    and f: "unat w * (4294967295 div unat W) < 2 ^ 32"
  shows "raw_calc_delta d w lw =
           of_nat ((unat d * (unat w * (4294967295 div unat W))) div 2 ^ 32)"
proof -
  let ?inv = "inv_weight (raw_update_inv_weight lw)"
  have i: "unat ?inv = 4294967295 div unat W"
    by (rule unat_inv_weight [OF W inv lw])
  have s1: "shrink_fact w 32 = (w, 32)"
    by (rule shrink_fact_small [OF w])
  have tw: "take_bit 32 w = w"
    using w by (simp add: word_unat_eq_iff unsigned_take_bit_eq take_bit_nat_eq_self_iff)
  have ci: "unat (ucast ?inv :: u64) = unat ?inv"
    using unsigned_less [where 'a = nat, of ?inv]
    by (simp add: unsigned_ucast_eq take_bit_nat_eq_self_iff)
  have uw: "(ucast (ucast w :: u32) :: u64) = w"
    using w by (simp add: word_unat_eq_iff unsigned_ucast_eq unsigned_take_bit_eq
        take_bit_nat_eq_self_iff)
  let ?f2 = "w * (ucast ?inv :: u64)"
  have f2: "unat ?f2 = unat w * (4294967295 div unat W)"
    using f by (simp add: unat_word_ariths ci i)
  have s2: "shrink_fact ?f2 32 = (?f2, 32)"
    using f by (intro shrink_fact_small) (simp add: f2 del: shrink_fact.simps)
  have c3: "unat (ucast ?f2 :: u32) = unat w * (4294967295 div unat W)"
    using f by (simp add: unsigned_ucast_eq take_bit_nat_eq_self_iff f2)
  show ?thesis
    unfolding raw_calc_delta_def Let_def scale_load_down_def WMULT_SHIFT_def s1 prod.case
      uw s2 mul_u64_u32_shr_def c3
    by simp
qed

lemmas slice_eval_defs =
  sched_slice_def default_tunables_def raw_sched_period_def raw_calc_delta_def
  raw_update_inv_weight_def scale_load_down_def WMULT_CONST_def WMULT_SHIFT_def
  mul_u64_u32_shr_def update_load_add_def Let_def

lemma slice_four_tasks:
  "sched_slice default_tunables (equal_queue 4) nice0_entity = 1499998"
  by (simp add: slice_eval_defs equal_queue_def nice0_entity_def)

lemma slice_ten_tasks:
  "sched_slice default_tunables (equal_queue 10) nice0_entity = 749999"
  by (simp add: slice_eval_defs equal_queue_def nice0_entity_def)

lemma unat_period:
  fixes n :: nat
  assumes "n < 4294967295"
  shows "unat (raw_sched_period default_tunables (ucast (of_nat n :: u32))) =
           (if n \<le> 8 then 6000000 else n * 750000)"
proof -
  have u32: "unat (of_nat n :: u32) = n"
    using assms by (simp add: unat_of_nat)
  have u: "unat (ucast (of_nat n :: u32) :: u64) = n"
    using assms by (simp add: unsigned_ucast_eq u32 take_bit_nat_eq_self_iff)
  have m: "unat ((ucast (of_nat n :: u32) :: u64) * 750000) = n * 750000"
    using assms by (simp add: unat_word_ariths u)
  have c: "(8 :: u64) < ucast (of_nat n :: u32) \<longleftrightarrow> 8 < n"
    by (simp add: word_less_nat_alt u)
  show ?thesis
    by (simp add: raw_sched_period_def default_tunables_def c m)
qed

lemma sched_slice_equal_weight_bounds:
  fixes n :: nat
  assumes n: "0 < n" and w: "0 < unat w" and nw: "n * unat w < 4294967295"
    and se: "on_rq se" "weight (load se) = w"
    and q: "nr_running q = of_nat n" "weight (cfs_load q) = of_nat n * w"
    and inv: "inv_weight (cfs_load q) = 0
              \<or> unat (inv_weight (cfs_load q)) = 4294967295 div (n * unat w)"
  shows "unat (sched_slice default_tunables q se) \<le> (if n \<le> 8 then 6000000 div n else 750000)"
    and "(if n \<le> 8 then 6000000 div n else 750000)
           \<le> unat (sched_slice default_tunables q se)
             + ((if n \<le> 8 then 6000000 else n * 750000) * unat w) div 2 ^ 32 + 1"
proof -
  let ?P = "if n \<le> 8 then 6000000 else n * 750000"
  let ?F = "unat w * (4294967295 div (n * unat w))"
  let ?R = "(?P * ?F) div 4294967296"
  have n32: "n < 4294967295"
  proof -
    have "n * 1 \<le> n * unat w"
      using w by (intro mult_le_mono2) simp
    then have "n \<le> n * unat w"
      by (simp only: mult_1_right)
    then show ?thesis using nw by (rule le_less_trans)
  qed
  have w32: "unat w < 2 ^ 32"
  proof -
    have "1 * unat w \<le> n * unat w"
      using n by (intro mult_le_mono1) simp
    then have "unat w \<le> n * unat w"
      by (simp only: mult_1)
    then have "unat w < 4294967295"
      using nw by (rule le_less_trans)
    then show ?thesis by simp
  qed
  have uW: "unat (of_nat n * w :: u64) = n * unat w"
    using nw n32 by (simp add: unat_word_ariths unat_of_nat)
  have Wpos: "0 < unat (of_nat n * w :: u64)"
    using n w by (simp add: uW)
  have Wlt: "unat (of_nat n * w :: u64) < 4294967295"
    using nw by (simp add: uW)
  have inv': "inv_weight (cfs_load q) = 0
              \<or> unat (inv_weight (cfs_load q)) = 4294967295 div unat (of_nat n * w :: u64)"
    using inv by (simp add: uW)
  have pdiv: "?P div n = (if n \<le> 8 then 6000000 div n else 750000)"
    using n by simp
  have up: "?R \<le> ?P div n"
    by (rule share_upper [OF n])
  have lo: "?P div n \<le> ?R + (?P * unat w) div 4294967296 + 1"
    by (rule share_lower [OF n w])
  have Fb: "?F < 2 ^ 32"
  proof -
    have "?F * 1 \<le> ?F * n"
      using n by (intro mult_le_mono2) simp
    also have "\<dots> = (4294967295 div (n * unat w)) * (n * unat w)"
      by (simp add: mult_ac)
    also have "\<dots> \<le> 4294967295"
      by (rule div_times_less_eq_dividend)
    finally show ?thesis by simp
  qed
  have Fb': "unat w * (4294967295 div unat (of_nat n * w :: u64)) < 2 ^ 32"
    using Fb by (simp add: uW)
  have cd: "raw_calc_delta d w (cfs_load q) =
      of_nat ((unat d * (unat w * (4294967295 div unat (of_nat n * w :: u64)))) div 2 ^ 32)" for d
    by (rule raw_calc_delta_no_shift [OF Wpos Wlt inv' q(2) w32 Fb'])
  have sl: "sched_slice default_tunables q se =
      raw_calc_delta (raw_sched_period default_tunables (ucast (of_nat n :: u32))) w (cfs_load q)"
    using se q(1) by (simp add: sched_slice_def Let_def)
  have Rb: "?R < 2 ^ 64"
  proof -
    have "?P div n \<le> 6000000"
      using n by (simp add: pdiv div_le_dividend le_trans [OF div_le_dividend])
    then show ?thesis using up by simp
  qed
  have val: "unat (sched_slice default_tunables q se) = ?R"
    unfolding sl cd unat_period [OF n32] uW
    using Rb by (simp add: unat_of_nat)
  show "unat (sched_slice default_tunables q se) \<le> (if n \<le> 8 then 6000000 div n else 750000)"
    using up unfolding val pdiv .
  show "(if n \<le> 8 then 6000000 div n else 750000)
           \<le> unat (sched_slice default_tunables q se)
             + ((if n \<le> 8 then 6000000 else n * 750000) * unat w) div 2 ^ 32 + 1"
    using lo unfolding val pdiv by simp
qed

text \<open>
  Claim C1, as amended. On a single CPU (tunables at their defaults: latency 6 ms,
  minimum granularity 0.75 ms, \<^verbatim>\<open>sched_nr_latency\<close> 8) with \<open>n\<close> queued tasks of
  equal weight \<open>w\<close>, the slice of a queued task approximates from below the target
  latency divided by \<open>n\<close> when \<open>n \<le> 8\<close>, and the minimum granularity when \<open>n > 8\<close>:
  it is never above that value and falls short of it by at most
  \<open>1 + period * w div 2^32\<close> nanoseconds, the rounding of the 32-bit inverse weight.
  For nice-0 tasks \<^verbatim>\<open>sched_slice\<close> yields 1499998 ns for 4 tasks and 749999 ns for
  10 tasks.
\<close>

theorem sched_slice_equal_weight:
  "(0 < n \<and> 0 < unat w \<and> n * unat w < 4294967295
      \<and> on_rq se \<and> weight (load se) = w
      \<and> nr_running q = of_nat n \<and> weight (cfs_load q) = of_nat n * w
      \<and> (inv_weight (cfs_load q) = 0
           \<or> unat (inv_weight (cfs_load q)) = 4294967295 div (n * unat w))
    \<longrightarrow>
      unat (sched_slice default_tunables q se) \<le> (if n \<le> 8 then 6000000 div n else 750000)
      \<and> (if n \<le> 8 then 6000000 div n else 750000)
            \<le> unat (sched_slice default_tunables q se)
              + ((if n \<le> 8 then 6000000 else n * 750000) * unat w) div 2 ^ 32 + 1)
   \<and> sched_slice default_tunables (equal_queue 4) nice0_entity = 1499998
   \<and> sched_slice default_tunables (equal_queue 10) nice0_entity = 749999"
proof (intro conjI impI)
  assume h: "0 < n \<and> 0 < unat w \<and> n * unat w < 4294967295
      \<and> on_rq se \<and> weight (load se) = w
      \<and> nr_running q = of_nat n \<and> weight (cfs_load q) = of_nat n * w
      \<and> (inv_weight (cfs_load q) = 0
           \<or> unat (inv_weight (cfs_load q)) = 4294967295 div (n * unat w))"
  show "unat (sched_slice default_tunables q se) \<le> (if n \<le> 8 then 6000000 div n else 750000)"
    using h by (intro sched_slice_equal_weight_bounds(1) [of n w se q]) simp_all
  show "(if n \<le> 8 then 6000000 div n else 750000)
            \<le> unat (sched_slice default_tunables q se)
              + ((if n \<le> 8 then 6000000 else n * 750000) * unat w) div 2 ^ 32 + 1"
    using h by (intro sched_slice_equal_weight_bounds(2) [of n w se q]) simp_all
next
  show "sched_slice default_tunables (equal_queue 4) nice0_entity = 1499998"
    by (rule slice_four_tasks)
  show "sched_slice default_tunables (equal_queue 10) nice0_entity = 749999"
    by (rule slice_ten_tasks)
qed

theorem sched_slice_equal_weight_witness:
  "unat (sched_slice default_tunables (equal_queue 4) nice0_entity) \<le> 1500000
   \<and> 1500000 \<le> unat (sched_slice default_tunables (equal_queue 4) nice0_entity) + 2"
proof -
  have h: "0 < (4 :: nat) \<and> 0 < unat (1024 :: u64) \<and> 4 * unat (1024 :: u64) < 4294967295
      \<and> on_rq nice0_entity \<and> weight (load nice0_entity) = 1024
      \<and> nr_running (equal_queue 4) = of_nat 4
      \<and> weight (cfs_load (equal_queue 4)) = of_nat 4 * 1024
      \<and> (inv_weight (cfs_load (equal_queue 4)) = 0
           \<or> unat (inv_weight (cfs_load (equal_queue 4))) = 4294967295 div (4 * unat (1024 :: u64)))"
    by (simp add: nice0_entity_def equal_queue_def)
  have e: "(6000000 * unat (1024 :: u64)) div 2 ^ 32 = (1 :: nat)"
    by simp
  show ?thesis
    using sched_slice_equal_weight [of 4 1024 nice0_entity "equal_queue 4"] h e by simp
qed

text \<open>
  The claim as stated fails for 4 tasks: the slice is not the target latency divided
  by 4.
\<close>

theorem sched_slice_equal_weight_counterexample:
  "sched_slice default_tunables (equal_queue 4) nice0_entity
     \<noteq> ucast (sysctl_sched_latency default_tunables) div 4"
proof -
  have "ucast (sysctl_sched_latency default_tunables) div 4 = (1500000 :: u64)"
    by (simp add: default_tunables_def)
  then show ?thesis
    by (simp add: slice_four_tasks)
qed

section \<open>Properties of the tick preemption\<close>

lemma sint_nonneg_uint:
  fixes d :: u64
  assumes "0 \<le> sint d"
  shows "sint d = uint d"
proof (cases "uint d < 2 ^ 63")
  case True
  have "sint d = signed_take_bit 63 (uint d)"
    by (simp add: sint_uint)
  also have "\<dots> = uint d"
  proof (rule signed_take_bit_int_eq_self)
    show "- (2 ^ 63) \<le> uint d"
      by (rule order_trans [of _ 0]) simp_all
    show "uint d < 2 ^ 63"
      by (rule True)
  qed
  finally show ?thesis .
next
  case False
  then have "2 ^ 63 \<le> uint d"
    by simp
  then have a: "signed_take_bit 63 (uint d) \<le> uint d - 18446744073709551616"
    using signed_take_bit_int_less_eq [of 63 "uint d"] by simp
  have b: "uint d < 18446744073709551616"
    using uint_bounded [of d] by simp
  have c: "sint d = signed_take_bit 63 (uint d)"
    by (simp add: sint_uint)
  have "sint d < 0"
    using a b c by linarith
  then show ?thesis
    using assms by simp
qed

lemma unsigned_gt_signed:
  fixes d i :: u64
  shows "(\<not> sint d < 0 \<and> i < d) \<longleftrightarrow> uint i < sint d"
proof (cases "0 \<le> sint d")
  case True
  then show ?thesis
    using sint_nonneg_uint [OF True] by (simp add: word_less_def)
next
  case False
  have "0 \<le> uint i"
    by simp
  then show ?thesis
    using False by linarith
qed

text \<open>
  Claim C2, as amended. At the tick the running entity is marked for preemption
  when its elapsed slice exceeds the ideal runtime of \<^verbatim>\<open>sched_slice\<close>, whatever the
  minimum granularity. Otherwise it is marked only when the elapsed slice is at
  least the minimum granularity and its virtual runtime exceeds the leftmost queued
  entity's by more than the ideal runtime. So no preemption occurs when the elapsed
  slice is below the minimum granularity and does not exceed the ideal runtime.
\<close>

theorem check_preempt_tick_cases:
  "(sched_slice tun q (ents cp)
        < sum_exec_runtime (ents cp) - prev_sum_exec_runtime (ents cp) \<longrightarrow>
      check_preempt_tick tun ents q cp = Inr (True, clear_buddies q cp))
   \<and> (\<not> sched_slice tun q (ents cp)
          < sum_exec_runtime (ents cp) - prev_sum_exec_runtime (ents cp)
        \<and> rb_leftmost q = Some l \<longrightarrow>
      check_preempt_tick tun ents q cp =
        Inr (ucast (sysctl_sched_min_granularity tun)
               \<le> sum_exec_runtime (ents cp) - prev_sum_exec_runtime (ents cp)
             \<and> uint (sched_slice tun q (ents cp))
                 < sint (vruntime (ents cp) - vruntime (ents l)), q))
   \<and> (\<not> sched_slice tun q (ents cp)
          < sum_exec_runtime (ents cp) - prev_sum_exec_runtime (ents cp)
        \<and> sum_exec_runtime (ents cp) - prev_sum_exec_runtime (ents cp)
            < ucast (sysctl_sched_min_granularity tun) \<longrightarrow>
      check_preempt_tick tun ents q cp = Inr (False, q))"
proof (intro conjI impI)
  assume "sched_slice tun q (ents cp)
        < sum_exec_runtime (ents cp) - prev_sum_exec_runtime (ents cp)"
  then show "check_preempt_tick tun ents q cp = Inr (True, clear_buddies q cp)"
    by (simp add: check_preempt_tick_def Let_def)
next
  assume h: "\<not> sched_slice tun q (ents cp)
          < sum_exec_runtime (ents cp) - prev_sum_exec_runtime (ents cp)
        \<and> rb_leftmost q = Some l"
  show "check_preempt_tick tun ents q cp =
        Inr (ucast (sysctl_sched_min_granularity tun)
               \<le> sum_exec_runtime (ents cp) - prev_sum_exec_runtime (ents cp)
             \<and> uint (sched_slice tun q (ents cp))
                 < sint (vruntime (ents cp) - vruntime (ents l)), q)"
    using h unsigned_gt_signed [of "vruntime (ents cp) - vruntime (ents l)"
        "sched_slice tun q (ents cp)"]
    by (auto simp add: check_preempt_tick_def Let_def raw_pick_first_entity_def not_less)
next
  assume "\<not> sched_slice tun q (ents cp)
          < sum_exec_runtime (ents cp) - prev_sum_exec_runtime (ents cp)
        \<and> sum_exec_runtime (ents cp) - prev_sum_exec_runtime (ents cp)
            < ucast (sysctl_sched_min_granularity tun)"
  then show "check_preempt_tick tun ents q cp = Inr (False, q)"
    by (simp add: check_preempt_tick_def Let_def)
qed

lemma slice_light: "sched_slice default_tunables (tick_queue 15) (tick_ents 15 100000 0 2) = 86621"
  by (simp add: slice_eval_defs tick_queue_def tick_ents_def)

lemma slice_even: "sched_slice default_tunables (tick_queue 1024) (tick_ents 1024 r v 2) = 2999998"
  by (simp add: slice_eval_defs tick_queue_def tick_ents_def)

text \<open>
  The running task of weight 15 beside a nice-0 task has an ideal runtime of 86621 ns.
  After 100000 ns, below the minimum granularity of 750000 ns, it is marked for
  preemption.
\<close>

theorem check_preempt_tick_cases_counterexample:
  "sum_exec_runtime (tick_ents 15 100000 0 2) - prev_sum_exec_runtime (tick_ents 15 100000 0 2)
     < ucast (sysctl_sched_min_granularity default_tunables)
   \<and> check_preempt_tick default_tunables (tick_ents 15 100000 0) (tick_queue 15) 2
       = Inr (True, tick_queue 15)"
proof -
  have e: "sum_exec_runtime (tick_ents 15 100000 0 2) - prev_sum_exec_runtime (tick_ents 15 100000 0 2) = 100000"
    by (simp add: tick_ents_def)
  have c: "clear_buddies (tick_queue 15) 2 = tick_queue 15"
    by (simp add: clear_buddies_def tick_queue_def)
  show ?thesis
    by (simp add: check_preempt_tick_def Let_def slice_light e c) (simp add: default_tunables_def)
qed

theorem check_preempt_tick_cases_witness:
  "check_preempt_tick default_tunables (tick_ents 1024 3000000 0) (tick_queue 1024) 2
       = Inr (True, tick_queue 1024)
   \<and> check_preempt_tick default_tunables (tick_ents 1024 1000000 5000000) (tick_queue 1024) 2
       = Inr (True, tick_queue 1024)
   \<and> check_preempt_tick default_tunables (tick_ents 1024 100000 5000000) (tick_queue 1024) 2
       = Inr (False, tick_queue 1024)"
proof -
  have c: "clear_buddies (tick_queue 1024) 2 = tick_queue 1024"
    by (simp add: clear_buddies_def tick_queue_def)
  have l: "rb_leftmost (tick_queue 1024) = Some 1"
    by (simp add: tick_queue_def)
  have e: "sum_exec_runtime (tick_ents 1024 r v 2) - prev_sum_exec_runtime (tick_ents 1024 r v 2) = r"
      "vruntime (tick_ents 1024 r v 2) = v" "vruntime (tick_ents 1024 r v (Suc 0)) = 0" for r v
    by (simp_all add: tick_ents_def nice0_entity_def)
  have g: "ucast (sysctl_sched_min_granularity default_tunables) = (750000 :: u64)"
    by (simp add: default_tunables_def)
  have 1: "check_preempt_tick default_tunables (tick_ents 1024 3000000 0) (tick_queue 1024) 2
       = Inr (True, tick_queue 1024)"
    using check_preempt_tick_cases [of default_tunables "tick_queue 1024" "tick_ents 1024 3000000 0" 2 1]
    by (simp add: slice_even e c)
  have 2: "check_preempt_tick default_tunables (tick_ents 1024 1000000 5000000) (tick_queue 1024) 2
       = Inr (True, tick_queue 1024)"
    using check_preempt_tick_cases [of default_tunables "tick_queue 1024" "tick_ents 1024 1000000 5000000" 2 1]
    by (simp add: slice_even e l g)
  have 3: "check_preempt_tick default_tunables (tick_ents 1024 100000 5000000) (tick_queue 1024) 2
       = Inr (False, tick_queue 1024)"
    using check_preempt_tick_cases [of default_tunables "tick_queue 1024" "tick_ents 1024 100000 5000000" 2 1]
    by (simp add: slice_even e g)
  show ?thesis using 1 2 3 by simp
qed

section \<open>Properties of the placement\<close>

lemma max_vruntime_not_before: "sint (v - max_vruntime a v) \<le> 0"
  by (simp add: max_vruntime_def Let_def)

lemma place_entity_vruntime:
  "vruntime (place_entity feat tun ents q se initial se) =
     max_vruntime (vruntime (ents se))
       (if initial
        then min_vruntime_of q + (if START_DEBIT feat then sched_vslice tun q (ents se) else 0)
        else min_vruntime_of q
               - (if GENTLE_FAIR_SLEEPERS feat then drop_bit 1 (ucast (sysctl_sched_latency tun))
                  else ucast (sysctl_sched_latency tun)))"
  by (simp add: place_entity_def Let_def)

lemma place_entity_others:
  "p \<noteq> se \<Longrightarrow> place_entity feat tun ents q se initial p = ents p"
  by (simp add: place_entity_def Let_def)

lemma enqueue_entity_wakeup_vruntime:
  "vruntime (fst (enqueue_entity feat tun now \<lparr>ENQUEUE_WAKEUP = True, ENQUEUE_WAKING = wk\<rparr>
                    (ents, q) se) se) =
     (let s2 = update_curr now
                 (if wk then ents(se := (ents se)\<lparr>vruntime := vruntime (ents se) + min_vruntime_of q\<rparr>)
                  else ents, q)
      in max_vruntime (vruntime (fst s2 se))
           (min_vruntime_of (snd s2)
              - (if GENTLE_FAIR_SLEEPERS feat then drop_bit 1 (ucast (sysctl_sched_latency tun))
                 else ucast (sysctl_sched_latency tun))))"
  by (simp add: enqueue_entity_def Let_def split_beta place_entity_vruntime
      account_entity_enqueue_def)

lemma vslice_new_task:
  "sched_vslice default_tunables (equal_queue 4) (new_ents 7) = 1199998"
  by (simp add: sched_vslice_def calc_delta_fair_def NICE_0_LOAD_def
      sched_slice_def default_tunables_def raw_sched_period_def raw_calc_delta_def
  raw_update_inv_weight_def scale_load_down_def WMULT_CONST_def WMULT_SHIFT_def
  mul_u64_u32_shr_def update_load_add_def Let_def equal_queue_def new_ents_def nice0_entity_def)

text \<open>
  Claim C4, as amended. For a waking entity (\<open>initial = 0\<close>) \<^verbatim>\<open>place_entity\<close> sets the
  virtual runtime to the \<^verbatim>\<open>max_vruntime\<close> of its prior value and of the queue's
  \<^verbatim>\<open>min_vruntime\<close> minus one scheduling latency, halved when
  \<^verbatim>\<open>GENTLE_FAIR_SLEEPERS\<close> is on; the result is never before that bound, so the
  credit of a long sleeper is at most the bonus. For a new entity (\<open>initial = 1\<close>)
  no bonus is subtracted, and \<^verbatim>\<open>min_vruntime\<close> is moved forward by one vslice before
  the max when the feature \<^verbatim>\<open>START_DEBIT\<close> is on, and not moved when it is off.
  \<^verbatim>\<open>enqueue_entity\<close> with \<^verbatim>\<open>ENQUEUE_WAKEUP\<close> places the entity in the first way,
  against the queue as \<^verbatim>\<open>update_curr\<close> left it.
\<close>

theorem place_entity_sleeper_credit:
  "vruntime (place_entity feat tun ents q se False se) =
     max_vruntime (vruntime (ents se))
       (min_vruntime_of q
          - (if GENTLE_FAIR_SLEEPERS feat then drop_bit 1 (ucast (sysctl_sched_latency tun))
             else ucast (sysctl_sched_latency tun)))
   \<and> sint ((min_vruntime_of q
               - (if GENTLE_FAIR_SLEEPERS feat then drop_bit 1 (ucast (sysctl_sched_latency tun))
                  else ucast (sysctl_sched_latency tun)))
             - vruntime (place_entity feat tun ents q se False se)) \<le> 0
   \<and> vruntime (place_entity feat tun ents q se True se) =
       max_vruntime (vruntime (ents se))
         (min_vruntime_of q + (if START_DEBIT feat then sched_vslice tun q (ents se) else 0))
   \<and> vruntime (fst (enqueue_entity feat tun now \<lparr>ENQUEUE_WAKEUP = True, ENQUEUE_WAKING = wk\<rparr>
                    (ents, q) se) se) =
       (let s2 = update_curr now
                 (if wk then ents(se := (ents se)\<lparr>vruntime := vruntime (ents se) + min_vruntime_of q\<rparr>)
                  else ents, q)
        in max_vruntime (vruntime (fst s2 se))
           (min_vruntime_of (snd s2)
              - (if GENTLE_FAIR_SLEEPERS feat then drop_bit 1 (ucast (sysctl_sched_latency tun))
                 else ucast (sysctl_sched_latency tun))))"
proof (intro conjI)
  show "vruntime (place_entity feat tun ents q se False se) =
     max_vruntime (vruntime (ents se))
       (min_vruntime_of q
          - (if GENTLE_FAIR_SLEEPERS feat then drop_bit 1 (ucast (sysctl_sched_latency tun))
             else ucast (sysctl_sched_latency tun)))"
    by (simp add: place_entity_vruntime)
  then show "sint ((min_vruntime_of q
               - (if GENTLE_FAIR_SLEEPERS feat then drop_bit 1 (ucast (sysctl_sched_latency tun))
                  else ucast (sysctl_sched_latency tun)))
             - vruntime (place_entity feat tun ents q se False se)) \<le> 0"
    by (simp only: max_vruntime_not_before)
  show "vruntime (place_entity feat tun ents q se True se) =
       max_vruntime (vruntime (ents se))
         (min_vruntime_of q + (if START_DEBIT feat then sched_vslice tun q (ents se) else 0))"
    by (simp add: place_entity_vruntime)
  show "vruntime (fst (enqueue_entity feat tun now \<lparr>ENQUEUE_WAKEUP = True, ENQUEUE_WAKING = wk\<rparr>
                    (ents, q) se) se) =
       (let s2 = update_curr now
                 (if wk then ents(se := (ents se)\<lparr>vruntime := vruntime (ents se) + min_vruntime_of q\<rparr>)
                  else ents, q)
        in max_vruntime (vruntime (fst s2 se))
           (min_vruntime_of (snd s2)
              - (if GENTLE_FAIR_SLEEPERS feat then drop_bit 1 (ucast (sysctl_sched_latency tun))
                 else ucast (sysctl_sched_latency tun))))"
    by (rule enqueue_entity_wakeup_vruntime)
qed

theorem place_entity_sleeper_credit_witness:
  "vruntime (place_entity debit_gentle default_tunables new_ents late_queue 7 False 7) = 97000000
   \<and> vruntime (place_entity debit_gentle default_tunables new_ents (equal_queue 4) 7 True 7)
       = 1199998
   \<and> vruntime (fst (enqueue_entity debit_gentle default_tunables 0
                      \<lparr>ENQUEUE_WAKEUP = True, ENQUEUE_WAKING = False\<rparr>
                      (new_ents, late_queue) 7) 7) = 97000000"
proof -
  have v: "vruntime (new_ents 7) = 0" "min_vruntime_of (equal_queue 4) = 0"
      "min_vruntime_of late_queue = 100000000" "curr late_queue = None"
    by (simp_all add: new_ents_def nice0_entity_def equal_queue_def late_queue_def)
  have f: "GENTLE_FAIR_SLEEPERS debit_gentle" "START_DEBIT debit_gentle"
    by (simp_all add: debit_gentle_def)
  have l: "ucast (sysctl_sched_latency default_tunables) = (6000000 :: u64)"
    by (simp add: default_tunables_def)
  have u: "update_curr 0 (new_ents, late_queue) = (new_ents, late_queue)"
    by (simp add: update_curr_def v)
  show ?thesis
    using place_entity_sleeper_credit [of debit_gentle default_tunables new_ents late_queue 7
        0 False]
      place_entity_sleeper_credit [of debit_gentle default_tunables new_ents "equal_queue 4" 7
        0 False]
    by (simp add: v f l u vslice_new_task max_vruntime_def Let_def)
qed

text \<open>
  With \<^verbatim>\<open>START_DEBIT\<close> off a new task joining four queued nice-0 tasks is placed at
  \<^verbatim>\<open>min_vruntime\<close>, not one vslice (1199998 ns) after it.
\<close>

theorem place_entity_sleeper_credit_counterexample:
  "vruntime (place_entity no_start_debit default_tunables new_ents (equal_queue 4) 7 True 7)
     \<noteq> max_vruntime (vruntime (new_ents 7))
          (min_vruntime_of (equal_queue 4)
             + sched_vslice default_tunables (equal_queue 4) (new_ents 7))"
proof -
  have v: "vruntime (new_ents 7) = 0" "min_vruntime_of (equal_queue 4) = 0"
    by (simp_all add: new_ents_def nice0_entity_def equal_queue_def)
  have l: "vruntime (place_entity no_start_debit default_tunables new_ents (equal_queue 4) 7 True 7) = 0"
    by (simp add: place_entity_def Let_def no_start_debit_def v max_vruntime_def)
  have r: "max_vruntime (vruntime (new_ents 7))
          (min_vruntime_of (equal_queue 4)
             + sched_vslice default_tunables (equal_queue 4) (new_ents 7)) = 1199998"
    by (simp add: v vslice_new_task max_vruntime_def)
  show ?thesis
    by (simp add: l r)
qed

section \<open>Properties of the pick\<close>

lemma wakeup_preempt_entity_lt_1:
  "wakeup_preempt_entity tun b s < 1 \<longleftrightarrow>
     sint (vruntime b - vruntime s) \<le> 0
     \<or> sint (vruntime b - vruntime s)
         \<le> sint (calc_delta_fair (ucast (sysctl_sched_wakeup_granularity tun)) s)"
  by (simp add: wakeup_preempt_entity_def wakeup_gran_def Let_def)

lemma pick_skip_total:
  "\<exists>s. pick_skip feat tun ents q cu (Some l) = Inr (Some s)"
  by (auto simp add: pick_skip_def Let_def buddy_ok_def raw_pick_first_entity_def
      split: option.splits sum.splits)

lemma pick_skip_none:
  "skip_buddy q \<noteq> Some l \<Longrightarrow> pick_skip feat tun ents q cu (Some l) = Inr (Some l)"
  by (simp add: pick_skip_def)

lemma pick_next_entity_buddies:
  assumes l: "pick_left ents q cu = Some l"
    and s: "pick_skip feat tun ents q cu (Some l) = Inr (Some s)"
  shows "pick_next_entity feat tun ents q cu =
     (let se =
        (case next_buddy q of
           Some nb \<Rightarrow>
             if wakeup_preempt_entity tun (ents nb) (ents l) < 1 then nb
             else (case last_buddy q of
                     Some lb \<Rightarrow> if wakeup_preempt_entity tun (ents lb) (ents l) < 1 then lb else s
                   | None \<Rightarrow> s)
         | None \<Rightarrow>
             (case last_buddy q of
                Some lb \<Rightarrow> if wakeup_preempt_entity tun (ents lb) (ents l) < 1 then lb else s
              | None \<Rightarrow> s))
      in Inr (Some se, clear_buddies q se))"
  using l s
  by (simp add: pick_next_entity_def Let_def buddy_ok_def split: option.splits)

lemma pick_left_eq:
  "pick_left ents q cu =
     (case rb_leftmost q of
        None \<Rightarrow> cu
      | Some l \<Rightarrow>
          (case cu of
             None \<Rightarrow> Some l
           | Some c \<Rightarrow> if entity_before (ents c) (ents l) then Some c else Some l))"
  by (simp add: pick_left_def raw_pick_first_entity_def curr_before_def split: option.splits)

lemma buddy_left: "pick_left buddy_ents buddy_queue None = Some 2"
  by (simp add: pick_left_def raw_pick_first_entity_def buddy_queue_def curr_before_def)

lemma buddy_wpe:
  "wakeup_preempt_entity default_tunables (buddy_ents 3) (buddy_ents 2) = 0"
  "wakeup_preempt_entity default_tunables (buddy_ents 4) (buddy_ents 2) = 1"
  by (simp_all add: wakeup_preempt_entity_def wakeup_gran_def calc_delta_fair_def
      buddy_ents_def nice0_entity_def NICE_0_LOAD_def default_tunables_def Let_def)

subsection \<open>The weight-scaled wakeup granularity\<close>

text \<open>
  \<^verbatim>\<open>calc_delta_fair\<close> of a granularity \<open>G\<close> for an entity of weight \<open>W\<close> is
  \<open>G * 1024 / W\<close> rounded down, less at most \<open>1 + G * 2048 / 2^32\<close>: the loop of
  \<^verbatim>\<open>__calc_delta\<close> drops at most 10 bits of the factor \<open>1024 * inverse\<close>.
\<close>

lemma shrink_fact_drop:
  "\<exists>s. shrink_fact fct shift = (drop_bit s fct, shift - int s)
       \<and> unat (drop_bit s fct) < 2 ^ 32
       \<and> (\<forall>k. unat fct < 2 ^ (32 + k) \<longrightarrow> s \<le> k)"
proof (induction fct shift rule: shrink_fact.induct)
  case (1 fct shift)
  show ?case
  proof (cases "drop_bit 32 fct = 0")
    case True
    have "unat (drop_bit 32 fct) = 0"
      using True by simp
    hence "unat fct div 2 ^ 32 = 0"
      by (simp add: drop_bit_eq_div unat_div)
    hence "unat fct < 2 ^ 32"
      by (simp add: div_eq_0_iff)
    thus ?thesis
      using True by (intro exI [of _ 0]) (subst shrink_fact.simps, simp)
  next
    case False
    from 1 [OF False] obtain s where
      s: "shrink_fact (drop_bit 1 fct) (shift - 1) = (drop_bit s (drop_bit 1 fct), shift - 1 - int s)"
      and b: "unat (drop_bit s (drop_bit 1 fct)) < 2 ^ 32"
      and k: "\<forall>k. unat (drop_bit 1 fct) < 2 ^ (32 + k) \<longrightarrow> s \<le> k"
      by blast
    have ge: "2 ^ 32 \<le> unat fct"
    proof (rule ccontr)
      assume "\<not> 2 ^ 32 \<le> unat fct"
      hence "unat fct < 2 ^ 32" by simp
      hence "drop_bit 32 fct = 0" by (rule drop_bit_32_small)
      thus False using False by simp
    qed
    have d: "drop_bit s (drop_bit 1 fct) = drop_bit (Suc s) fct"
      by (simp add: drop_bit_drop_bit)
    have "shrink_fact fct shift = (drop_bit (Suc s) fct, shift - int (Suc s))"
      using False s by (subst shrink_fact.simps) (simp add: d del: shrink_fact.simps)
    moreover have "unat (drop_bit (Suc s) fct) < 2 ^ 32"
      using b by (simp only: d)
    moreover have "\<forall>k. unat fct < 2 ^ (32 + k) \<longrightarrow> Suc s \<le> k"
    proof (intro allI impI)
      fix k assume lt: "unat fct < 2 ^ (32 + k)"
      have "k \<noteq> 0"
        using ge lt by (cases k) auto
      then obtain j where j: "k = Suc j"
        by (cases k) auto
      have "unat (drop_bit 1 fct) = unat fct div 2"
        by (simp add: drop_bit_eq_div unat_div)
      moreover have "unat fct div 2 < 2 ^ (32 + j)"
      proof -
        define X :: nat where "X = 2 ^ (32 + j)"
        have p: "(2 :: nat) ^ (32 + Suc j) = 2 * 2 ^ (32 + j)"
          by (simp only: add_Suc_right power_Suc)
        have "unat fct < 2 * X"
          using lt unfolding j p X_def .
        hence "unat fct div 2 < X"
          by arith
        thus ?thesis
          by (simp only: X_def)
      qed
      ultimately have "s \<le> j"
        using k by simp
      thus "Suc s \<le> k"
        by (simp add: j)
    qed
    ultimately show ?thesis
      by blast
  qed
qed

lemma scaled_upper:
  fixes G I W s :: nat
  assumes s: "s \<le> 32" and I: "I * W \<le> 4294967296" and W: "0 < W"
  shows "(G * ((1024 * I) div 2 ^ s)) div 2 ^ (32 - s) \<le> (G * 1024) div W"
proof -
  let ?A = "(2 :: nat) ^ s" and ?B = "(2 :: nat) ^ (32 - s)"
  let ?F = "(1024 * I) div ?A"
  let ?R = "(G * ?F) div ?B"
  have AB: "?B * ?A = 4294967296"
    using s by (simp add: power_add [symmetric])
  have 1: "?R * ?B \<le> G * ?F"
    by (rule div_times_less_eq_dividend)
  have 2: "?F * ?A \<le> 1024 * I"
    by (rule div_times_less_eq_dividend)
  have "?R * 4294967296 = (?R * ?B) * ?A"
    by (simp only: AB [symmetric] mult.assoc)
  also have "\<dots> \<le> (G * ?F) * ?A"
    using 1 by (rule mult_le_mono1)
  also have "\<dots> = G * (?F * ?A)"
    by (simp only: mult.assoc)
  also have "\<dots> \<le> G * (1024 * I)"
    using 2 by (rule mult_le_mono2)
  finally have 3: "?R * 4294967296 \<le> G * (1024 * I)" .
  have "(?R * W) * 4294967296 = (?R * 4294967296) * W"
    by (simp only: mult_ac)
  also have "\<dots> \<le> (G * (1024 * I)) * W"
    using 3 by (rule mult_le_mono1)
  also have "\<dots> = (G * 1024) * (I * W)"
    by (simp only: mult_ac)
  also have "\<dots> \<le> (G * 1024) * 4294967296"
    using I by (rule mult_le_mono2)
  finally have "(?R * W) * 4294967296 \<le> (G * 1024) * 4294967296" .
  hence "?R * W \<le> G * 1024"
    by (simp only: mult_le_cancel2)
  thus ?thesis
    using W by (simp only: less_eq_div_iff_mult_less_eq)
qed

lemma scaled_lower:
  fixes G I W s :: nat
  assumes s: "s \<le> 10" and I: "4294967296 \<le> I * W + W" and W: "0 < W"
  shows "(G * 1024) div W
           \<le> (G * ((1024 * I) div 2 ^ s)) div 2 ^ (32 - s) + (G * 2048) div 4294967296 + 1"
proof (rule ccontr)
  let ?A = "(2 :: nat) ^ s" and ?B = "(2 :: nat) ^ (32 - s)"
  let ?F = "(1024 * I) div ?A"
  let ?R = "(G * ?F) div ?B"
  let ?E = "(G * 2048) div 4294967296"
  let ?Q = "(G * 1024) div W"
  assume "\<not> ?Q \<le> ?R + ?E + 1"
  hence q: "?R + ?E + 2 \<le> ?Q"
    by simp
  have AB: "?B * ?A = 4294967296"
    using s by (simp add: power_add [symmetric])
  have A: "?A \<le> 1024"
    using power_increasing [of s 10 "2 :: nat"] s by simp
  have A0: "0 < ?A"
    by simp
  have qw: "?Q * W \<le> G * 1024"
    by (rule div_times_less_eq_dividend)
  have f: "1024 * I < ?F * ?A + ?A"
    using dividend_less_div_times [of ?A "1024 * I"] by (simp add: mult.commute)
  have r: "G * ?F < ?R * ?B + ?B"
    using dividend_less_div_times [of ?B "G * ?F"] by (simp add: mult.commute)
  have e: "G * 2048 < ?E * 4294967296 + 4294967296"
    using dividend_less_div_times [of 4294967296 "G * 2048"] by (simp add: mult.commute)
  have "(?Q * 4294967296) * W = (?Q * W) * 4294967296"
    by (simp only: mult_ac)
  also have "\<dots> \<le> (G * 1024) * 4294967296"
    using qw by (rule mult_le_mono1)
  also have "\<dots> \<le> (G * 1024) * (I * W + W)"
    using I by (rule mult_le_mono2)
  also have "\<dots> = (G * (1024 * I) + G * 1024) * W"
    by (simp add: algebra_simps)
  finally have 1: "?Q * 4294967296 \<le> G * (1024 * I) + G * 1024"
    using W by simp
  have "G * (1024 * I) \<le> G * (?F * ?A + ?A)"
    using f by (intro mult_le_mono2) simp
  also have "\<dots> = (G * ?F) * ?A + G * ?A"
    by (simp add: algebra_simps)
  also have "\<dots> \<le> (?R * ?B + ?B) * ?A + G * ?A"
    using r by (intro add_le_mono1 mult_le_mono1) simp
  also have "\<dots> = (?R + 1) * (?B * ?A) + G * ?A"
    by (simp add: algebra_simps)
  also have "\<dots> = (?R + 1) * 4294967296 + G * ?A"
    by (simp only: AB)
  also have "\<dots> \<le> (?R + 1) * 4294967296 + G * 1024"
    using A by (intro add_le_mono mult_le_mono2) simp_all
  finally have 2: "G * (1024 * I) \<le> (?R + 1) * 4294967296 + G * 1024" .
  have "?Q * 4294967296 \<le> (?R + 1) * 4294967296 + G * 2048"
    using 1 2 by simp
  also have "\<dots> < (?R + 1) * 4294967296 + (?E * 4294967296 + 4294967296)"
    using e by simp
  also have "\<dots> = (?R + ?E + 2) * 4294967296"
    by (simp add: algebra_simps)
  also have "\<dots> \<le> ?Q * 4294967296"
    using q by (rule mult_le_mono1)
  finally show False
    by simp
qed

lemma raw_calc_delta_nice0:
  "\<exists>s\<le>10. raw_calc_delta d NICE_0_LOAD lw =
      of_nat ((unat d * ((1024 * unat (inv_weight (raw_update_inv_weight lw))) div 2 ^ s))
                div 2 ^ (32 - s))"
proof -
  let ?inv = "inv_weight (raw_update_inv_weight lw)"
  let ?f2 = "(1024 :: u64) * ucast ?inv"
  have ib: "unat ?inv < 4294967296"
    using unsigned_less [where 'a = nat, of ?inv] by simp
  have ci: "unat (ucast ?inv :: u64) = unat ?inv"
    using ib by (simp add: unsigned_ucast_eq take_bit_nat_eq_self_iff)
  have f2: "unat ?f2 = 1024 * unat ?inv"
    using ib by (simp add: unat_word_ariths ci)
  have s1: "shrink_fact (1024 :: u64) 32 = (1024, 32)"
    by (rule shrink_fact_small) simp
  have u: "(ucast (ucast (1024 :: u64) :: u32) :: u64) = 1024"
    by simp
  from shrink_fact_drop [of ?f2 32] obtain s where
    s: "shrink_fact ?f2 32 = (drop_bit s ?f2, 32 - int s)"
    and b: "unat (drop_bit s ?f2) < 2 ^ 32"
    and k: "\<forall>k. unat ?f2 < 2 ^ (32 + k) \<longrightarrow> s \<le> k"
    by blast
  have "unat ?f2 < 2 ^ (32 + 10)"
    using ib by (simp add: f2)
  hence s10: "s \<le> 10"
    using k by blast
  have d: "unat (drop_bit s ?f2) = (1024 * unat ?inv) div 2 ^ s"
  proof -
    have "unat (drop_bit s ?f2) = drop_bit s (unat ?f2)"
      by (rule unat_drop_bit_eq)
    also have "\<dots> = unat ?f2 div 2 ^ s"
      by (rule drop_bit_eq_div)
    finally show ?thesis
      by (simp only: f2)
  qed
  have c3: "unat (ucast (drop_bit s ?f2) :: u32) = (1024 * unat ?inv) div 2 ^ s"
    using b by (simp add: unsigned_ucast_eq take_bit_nat_eq_self_iff d)
  have n: "nat (32 - int s) = 32 - s"
    by simp
  have "raw_calc_delta d NICE_0_LOAD lw =
      of_nat ((unat d * ((1024 * unat ?inv) div 2 ^ s)) div 2 ^ (32 - s))"
    unfolding raw_calc_delta_def Let_def scale_load_down_def WMULT_SHIFT_def NICE_0_LOAD_def
      s1 prod.case u s mul_u64_u32_shr_def c3 n
    by (rule refl)
  thus ?thesis
    using s10 by blast
qed

lemma effective_inverse:
  assumes "inverse_weight_ok lw"
  shows "unat (inv_weight (raw_update_inv_weight lw)) * unat (weight lw) \<le> 4294967296"
    and "4294967296 \<le> unat (inv_weight (raw_update_inv_weight lw)) * unat (weight lw)
                         + unat (weight lw)"
proof -
  let ?W = "unat (weight lw)"
  let ?I = "unat (inv_weight (raw_update_inv_weight lw))"
  have W: "0 < ?W" "?W < 4294967295"
    using assms by (simp_all add: inverse_weight_ok_def)
  have "?I = 4294967295 div ?W \<or> ?I = 4294967296 div ?W"
  proof (cases "inv_weight lw = 0 \<or> unat (inv_weight lw) = 4294967295 div ?W")
    case True
    thus ?thesis
      using unat_inv_weight [OF W True refl] by simp
  next
    case False
    hence "unat (inv_weight lw) = 4294967296 div ?W" "inv_weight lw \<noteq> 0"
      using assms by (auto simp: inverse_weight_ok_def)
    thus ?thesis
      by (simp add: raw_update_inv_weight_def)
  qed
  then consider (a) "?I = 4294967295 div ?W" | (b) "?I = 4294967296 div ?W"
    by blast
  note d = this
  have a1: "(4294967295 div ?W) * ?W \<le> 4294967295"
    by (rule div_times_less_eq_dividend)
  have b1: "(4294967296 div ?W) * ?W \<le> 4294967296"
    by (rule div_times_less_eq_dividend)
  have a2: "4294967295 < ?W + (4294967295 div ?W) * ?W"
    by (rule dividend_less_div_times [OF W(1)])
  have b2: "4294967296 < ?W + (4294967296 div ?W) * ?W"
    by (rule dividend_less_div_times [OF W(1)])
  show "?I * ?W \<le> 4294967296"
  proof (cases rule: d)
    case a
    show ?thesis
      unfolding a using a1 by linarith
  next
    case b
    show ?thesis
      unfolding b using b1 by linarith
  qed
  show "4294967296 \<le> ?I * ?W + ?W"
  proof (cases rule: d)
    case a
    show ?thesis
      unfolding a using a2 by linarith
  next
    case b
    show ?thesis
      unfolding b using b2 by linarith
  qed
qed

lemma sint_unat_small:
  fixes d :: u64
  assumes "unat d < 9223372036854775808"
  shows "sint d = int (unat d)"
proof -
  have u: "uint d < 9223372036854775808"
    using assms [unfolded unat_eq_nat_uint] by linarith
  have "sint d = signed_take_bit 63 (uint d)"
    by (simp add: sint_uint)
  also have "\<dots> = uint d"
  proof (rule signed_take_bit_int_eq_self)
    show "- (2 ^ 63) \<le> uint d"
      by (rule order_trans [of _ 0]) simp_all
    show "uint d < 2 ^ 63"
      using u by simp
  qed
  finally show ?thesis
    by simp
qed

lemma calc_delta_fair_scaled:
  fixes g :: u64
  assumes ok: "inverse_weight_ok (load se)" and g: "unat g < 4294967296"
  shows "unat (calc_delta_fair g se) \<le> (unat g * 1024) div unat (weight (load se))"
    and "(unat g * 1024) div unat (weight (load se))
           \<le> unat (calc_delta_fair g se) + (unat g * 2048) div 4294967296 + 1"
    and "sint (calc_delta_fair g se) = int (unat (calc_delta_fair g se))"
proof -
  let ?W = "unat (weight (load se))"
  let ?I = "unat (inv_weight (raw_update_inv_weight (load se)))"
  let ?G = "unat g"
  have W: "0 < ?W"
    using ok by (simp add: inverse_weight_ok_def)
  have b: "unat (calc_delta_fair g se) \<le> (?G * 1024) div ?W
           \<and> (?G * 1024) div ?W \<le> unat (calc_delta_fair g se) + (?G * 2048) div 4294967296 + 1"
  proof (cases "weight (load se) = NICE_0_LOAD")
    case True
    hence "calc_delta_fair g se = g" "?W = 1024"
      by (simp_all add: calc_delta_fair_def NICE_0_LOAD_def)
    thus ?thesis
      by simp
  next
    case False
    from raw_calc_delta_nice0 [of g "load se"] obtain s where s: "s \<le> 10"
      and r: "raw_calc_delta g NICE_0_LOAD (load se) =
                of_nat ((?G * ((1024 * ?I) div 2 ^ s)) div 2 ^ (32 - s))"
      by blast
    let ?R = "(?G * ((1024 * ?I) div 2 ^ s)) div 2 ^ (32 - s)"
    have up: "?R \<le> (?G * 1024) div ?W"
      using s by (intro scaled_upper effective_inverse(1) [OF ok] W) simp
    have lo: "(?G * 1024) div ?W \<le> ?R + (?G * 2048) div 4294967296 + 1"
      by (rule scaled_lower [OF s effective_inverse(2) [OF ok] W])
    have q: "(?G * 1024) div ?W \<le> ?G * 1024"
      by (rule div_le_dividend)
    have "?R \<le> ?G * 1024"
      using up q by (rule order_trans)
    moreover have "?G * 1024 < 18446744073709551616"
      using g by linarith
    ultimately have "?R < 18446744073709551616"
      by (rule le_less_trans)
    hence "unat (of_nat ?R :: u64) = ?R"
      by (simp add: unat_of_nat)
    hence "unat (calc_delta_fair g se) = ?R"
      using False by (simp add: calc_delta_fair_def r)
    thus ?thesis
      using up lo by simp
  qed
  show "unat (calc_delta_fair g se) \<le> (?G * 1024) div ?W"
    using b by blast
  show "(?G * 1024) div ?W \<le> unat (calc_delta_fair g se) + (?G * 2048) div 4294967296 + 1"
    using b by blast
  have q: "(?G * 1024) div ?W \<le> ?G * 1024"
    by (rule div_le_dividend)
  have "unat (calc_delta_fair g se) \<le> (?G * 1024) div ?W"
    using b by (rule conjunct1)
  hence "unat (calc_delta_fair g se) \<le> ?G * 1024"
    using q by (rule order_trans)
  moreover have "?G * 1024 < 9223372036854775808"
    using g by linarith
  ultimately have "unat (calc_delta_fair g se) < 9223372036854775808"
    by (rule le_less_trans)
  thus "sint (calc_delta_fair g se) = int (unat (calc_delta_fair g se))"
    by (rule sint_unat_small)
qed

lemma wakeup_granularity_nat:
  "unat (ucast (sysctl_sched_wakeup_granularity tun) :: u64)
     = unat (sysctl_sched_wakeup_granularity tun)"
  "unat (ucast (sysctl_sched_wakeup_granularity tun) :: u64) < 4294967296"
proof -
  have b: "unat (sysctl_sched_wakeup_granularity tun) < 4294967296"
    using unsigned_less [where 'a = nat, of "sysctl_sched_wakeup_granularity tun"] by simp
  show "unat (ucast (sysctl_sched_wakeup_granularity tun) :: u64)
     = unat (sysctl_sched_wakeup_granularity tun)"
    using b by (simp add: unsigned_ucast_eq take_bit_nat_eq_self_iff)
  thus "unat (ucast (sysctl_sched_wakeup_granularity tun) :: u64) < 4294967296"
    using b by simp
qed

lemma wakeup_gran_scaled:
  assumes ok: "inverse_weight_ok (load e)"
  shows "sint (calc_delta_fair (ucast (sysctl_sched_wakeup_granularity tun)) e)
           \<le> int ((unat (sysctl_sched_wakeup_granularity tun) * 1024) div unat (weight (load e)))
         \<and> int ((unat (sysctl_sched_wakeup_granularity tun) * 1024) div unat (weight (load e)))
           \<le> sint (calc_delta_fair (ucast (sysctl_sched_wakeup_granularity tun)) e)
              + int ((unat (sysctl_sched_wakeup_granularity tun) * 2048) div 4294967296) + 1"
proof -
  let ?g = "ucast (sysctl_sched_wakeup_granularity tun) :: u64"
  note c = calc_delta_fair_scaled [OF ok wakeup_granularity_nat(2) [of tun]]
  have 1: "unat (calc_delta_fair ?g e)
             \<le> (unat (sysctl_sched_wakeup_granularity tun) * 1024) div unat (weight (load e))"
    using c(1) by (simp only: wakeup_granularity_nat(1))
  have 2: "(unat (sysctl_sched_wakeup_granularity tun) * 1024) div unat (weight (load e))
             \<le> unat (calc_delta_fair ?g e)
               + (unat (sysctl_sched_wakeup_granularity tun) * 2048) div 4294967296 + 1"
    using c(2) by (simp only: wakeup_granularity_nat(1))
  show ?thesis
    unfolding c(3) using 1 2 by linarith
qed

lemma wakeup_gran_nice0:
  "weight (load e) = NICE_0_LOAD \<Longrightarrow> calc_delta_fair g e = g"
  by (simp add: calc_delta_fair_def)

lemma scaled_scene:
  "pick_left (weighted_ents w iw v) pair_queue None = Some 2"
  "next_buddy pair_queue = Some 3" "last_buddy pair_queue = None" "skip_buddy pair_queue = None"
  "clear_buddies pair_queue 2 = pair_queue"
  "clear_buddies pair_queue 3 = pair_queue\<lparr>next_buddy := None\<rparr>"
  "vruntime (weighted_ents w iw v 3) - vruntime (weighted_ents w iw v 2) = v"
  "load (weighted_ents w iw v 2) = \<lparr>weight = w, inv_weight = iw\<rparr>"
  by (simp_all add: pick_left_def raw_pick_first_entity_def pair_queue_def curr_before_def
      clear_buddies_def weighted_ents_def nice0_entity_def)

lemma scaled_weights:
  "inverse_weight_ok \<lparr>weight = 2048, inv_weight = 2097152\<rparr>"
  "inverse_weight_ok \<lparr>weight = 512, inv_weight = 8388608\<rparr>"
  by (simp_all add: inverse_weight_ok_def)

text \<open>
  Claim C5. \<^verbatim>\<open>pick_next_entity\<close> starts from the leftmost entity of the timeline, or
  from the running entity when the timeline is empty or the running entity is before
  the leftmost. When that candidate \<open>l\<close> exists the function returns an entity: the
  next buddy when \<^verbatim>\<open>wakeup_preempt_entity(next, l) < 1\<close>; otherwise the last buddy when
  \<^verbatim>\<open>wakeup_preempt_entity(last, l) < 1\<close>; otherwise the result of the skip stage,
  which is \<open>l\<close> itself unless \<open>l\<close> is the skip buddy. So a last or next buddy that
  replaces the result of the skip stage is within the guard, and the next buddy wins
  over the last. The guard \<^verbatim>\<open>wakeup_preempt_entity(b, l) < 1\<close> says that the virtual
  runtime of \<open>b\<close> does not exceed that of \<open>l\<close> by more than the wakeup granularity
  scaled by the weight of \<open>l\<close>. The scaled granularity is the wakeup granularity \<open>G\<close>
  itself when \<open>l\<close> has the nice-0 weight 1024, and for a weight \<open>W\<close> with a sound
  cached inverse it is \<open>G * 1024 / W\<close> rounded down, less at most
  \<open>1 + G * 2048 / 2^32\<close>.
\<close>

theorem pick_next_entity_buddy_guard:
  "(pick_left ents q cu = Some l \<longrightarrow>
      (\<exists>se s. pick_skip feat tun ents q cu (Some l) = Inr (Some s)
         \<and> pick_next_entity feat tun ents q cu = Inr (Some se, clear_buddies q se)
         \<and> (se = s
             \<or> (next_buddy q = Some se \<or> last_buddy q = Some se)
               \<and> wakeup_preempt_entity tun (ents se) (ents l) < 1)
         \<and> (\<forall>nb. next_buddy q = Some nb \<and> wakeup_preempt_entity tun (ents nb) (ents l) < 1
                \<longrightarrow> se = nb)
         \<and> (\<forall>lb. last_buddy q = Some lb \<and> wakeup_preempt_entity tun (ents lb) (ents l) < 1
                \<and> (\<forall>nb. next_buddy q = Some nb
                       \<longrightarrow> \<not> wakeup_preempt_entity tun (ents nb) (ents l) < 1)
                \<longrightarrow> se = lb)
         \<and> (skip_buddy q \<noteq> Some l \<longrightarrow> s = l)))
   \<and> (wakeup_preempt_entity tun b e < 1 \<longleftrightarrow>
        sint (vruntime b - vruntime e) \<le> 0
        \<or> sint (vruntime b - vruntime e)
            \<le> sint (calc_delta_fair (ucast (sysctl_sched_wakeup_granularity tun)) e))
   \<and> pick_left ents q cu =
       (case rb_leftmost q of
          None \<Rightarrow> cu
        | Some l \<Rightarrow>
            (case cu of
               None \<Rightarrow> Some l
             | Some c \<Rightarrow> if entity_before (ents c) (ents l) then Some c else Some l))
   \<and> (weight (load e) = NICE_0_LOAD \<longrightarrow>
        calc_delta_fair (ucast (sysctl_sched_wakeup_granularity tun)) e
          = ucast (sysctl_sched_wakeup_granularity tun))
   \<and> (inverse_weight_ok (load e) \<longrightarrow>
        sint (calc_delta_fair (ucast (sysctl_sched_wakeup_granularity tun)) e)
          \<le> int ((unat (sysctl_sched_wakeup_granularity tun) * 1024) div unat (weight (load e)))
        \<and> int ((unat (sysctl_sched_wakeup_granularity tun) * 1024) div unat (weight (load e)))
          \<le> sint (calc_delta_fair (ucast (sysctl_sched_wakeup_granularity tun)) e)
             + int ((unat (sysctl_sched_wakeup_granularity tun) * 2048) div 4294967296) + 1)"
proof -
  have A: "pick_left ents q cu = Some l \<longrightarrow>
      (\<exists>se s. pick_skip feat tun ents q cu (Some l) = Inr (Some s)
         \<and> pick_next_entity feat tun ents q cu = Inr (Some se, clear_buddies q se)
         \<and> (se = s
             \<or> (next_buddy q = Some se \<or> last_buddy q = Some se)
               \<and> wakeup_preempt_entity tun (ents se) (ents l) < 1)
         \<and> (\<forall>nb. next_buddy q = Some nb \<and> wakeup_preempt_entity tun (ents nb) (ents l) < 1
                \<longrightarrow> se = nb)
         \<and> (\<forall>lb. last_buddy q = Some lb \<and> wakeup_preempt_entity tun (ents lb) (ents l) < 1
                \<and> (\<forall>nb. next_buddy q = Some nb
                       \<longrightarrow> \<not> wakeup_preempt_entity tun (ents nb) (ents l) < 1)
                \<longrightarrow> se = lb)
         \<and> (skip_buddy q \<noteq> Some l \<longrightarrow> s = l))"
  proof (intro impI)
  assume l: "pick_left ents q cu = Some l"
  obtain s where s: "pick_skip feat tun ents q cu (Some l) = Inr (Some s)"
    using pick_skip_total by blast
  have sk: "skip_buddy q \<noteq> Some l \<longrightarrow> s = l"
    using s pick_skip_none [of q l feat tun ents cu] by auto
  note p = pick_next_entity_buddies [OF l s]
  show "\<exists>se s. pick_skip feat tun ents q cu (Some l) = Inr (Some s)
         \<and> pick_next_entity feat tun ents q cu = Inr (Some se, clear_buddies q se)
         \<and> (se = s
             \<or> (next_buddy q = Some se \<or> last_buddy q = Some se)
               \<and> wakeup_preempt_entity tun (ents se) (ents l) < 1)
         \<and> (\<forall>nb. next_buddy q = Some nb \<and> wakeup_preempt_entity tun (ents nb) (ents l) < 1
                \<longrightarrow> se = nb)
         \<and> (\<forall>lb. last_buddy q = Some lb \<and> wakeup_preempt_entity tun (ents lb) (ents l) < 1
                \<and> (\<forall>nb. next_buddy q = Some nb
                       \<longrightarrow> \<not> wakeup_preempt_entity tun (ents nb) (ents l) < 1)
                \<longrightarrow> se = lb)
         \<and> (skip_buddy q \<noteq> Some l \<longrightarrow> s = l)"
  proof (cases "next_buddy q")
    case None
    show ?thesis
    proof (cases "last_buddy q")
      case n: None
      show ?thesis
        using p s sk None n by (intro exI [of _ s]) simp
    next
      case (Some lb)
      show ?thesis
      proof (cases "wakeup_preempt_entity tun (ents lb) (ents l) < 1")
        case True
        then show ?thesis
          using p s sk None Some by (intro exI [of _ lb] exI [of _ s]) simp
      next
        case False
        then show ?thesis
          using p s sk None Some by (intro exI [of _ s]) simp
      qed
    qed
  next
    case (Some nb)
    note nb = Some
    show ?thesis
    proof (cases "wakeup_preempt_entity tun (ents nb) (ents l) < 1")
      case True
      then show ?thesis
        using p s sk nb by (intro exI [of _ nb] exI [of _ s]) simp
    next
      case nf: False
      show ?thesis
      proof (cases "last_buddy q")
        case None
        show ?thesis
          using p s sk nb nf None by (intro exI [of _ s]) simp
      next
        case (Some lb)
        show ?thesis
        proof (cases "wakeup_preempt_entity tun (ents lb) (ents l) < 1")
          case True
          then show ?thesis
            using p s sk nb nf Some by (intro exI [of _ lb] exI [of _ s]) simp
        next
          case False
          then show ?thesis
            using p s sk nb nf Some by (intro exI [of _ s]) simp
        qed
      qed
    qed
  qed
  qed
  have B: "wakeup_preempt_entity tun b e < 1 \<longleftrightarrow>
        sint (vruntime b - vruntime e) \<le> 0
        \<or> sint (vruntime b - vruntime e)
            \<le> sint (calc_delta_fair (ucast (sysctl_sched_wakeup_granularity tun)) e)"
    by (rule wakeup_preempt_entity_lt_1)
  have C: "pick_left ents q cu =
       (case rb_leftmost q of
          None \<Rightarrow> cu
        | Some l \<Rightarrow>
            (case cu of
               None \<Rightarrow> Some l
             | Some c \<Rightarrow> if entity_before (ents c) (ents l) then Some c else Some l))"
    by (rule pick_left_eq)
  have D: "weight (load e) = NICE_0_LOAD \<longrightarrow>
        calc_delta_fair (ucast (sysctl_sched_wakeup_granularity tun)) e
          = ucast (sysctl_sched_wakeup_granularity tun)"
    by (intro impI) (rule wakeup_gran_nice0)
  have E: "inverse_weight_ok (load e) \<longrightarrow>
        sint (calc_delta_fair (ucast (sysctl_sched_wakeup_granularity tun)) e)
          \<le> int ((unat (sysctl_sched_wakeup_granularity tun) * 1024) div unat (weight (load e)))
        \<and> int ((unat (sysctl_sched_wakeup_granularity tun) * 1024) div unat (weight (load e)))
          \<le> sint (calc_delta_fair (ucast (sysctl_sched_wakeup_granularity tun)) e)
             + int ((unat (sysctl_sched_wakeup_granularity tun) * 2048) div 4294967296) + 1"
    by (intro impI) (rule wakeup_gran_scaled)
  show ?thesis
    by (intro conjI A B C D E)
qed

text \<open>
  With three nice-0 entities the next buddy, 0.5 ms behind the leftmost, is picked,
  and once it is cleared the last buddy, 5 ms behind, is not. With a leftmost entity
  of weight 2048 the granularity of 1 ms shrinks to 0.5 ms and a next buddy 0.6 ms
  behind is refused; with a leftmost entity of weight 512 it grows to 2 ms and a
  next buddy 1.5 ms behind is picked. Behind a nice-0 leftmost entity the same two
  buddies are picked and refused.
\<close>

theorem pick_next_entity_buddy_guard_witness:
  "pick_left buddy_ents buddy_queue None = Some 2
   \<and> pick_next_entity debit_gentle default_tunables buddy_ents buddy_queue None
       = Inr (Some 3, buddy_queue\<lparr>next_buddy := None\<rparr>)
   \<and> pick_next_entity debit_gentle default_tunables buddy_ents
         (buddy_queue\<lparr>next_buddy := None\<rparr>) None
       = Inr (Some 2, buddy_queue\<lparr>next_buddy := None\<rparr>)
   \<and> pick_next_entity debit_gentle default_tunables
         (weighted_ents 2048 2097152 600000) pair_queue None
       = Inr (Some 2, pair_queue)
   \<and> pick_next_entity debit_gentle default_tunables
         (weighted_ents 512 8388608 1500000) pair_queue None
       = Inr (Some 3, pair_queue\<lparr>next_buddy := None\<rparr>)
   \<and> pick_next_entity debit_gentle default_tunables
         (weighted_ents 1024 4194304 600000) pair_queue None
       = Inr (Some 3, pair_queue\<lparr>next_buddy := None\<rparr>)
   \<and> pick_next_entity debit_gentle default_tunables
         (weighted_ents 1024 4194304 1500000) pair_queue None
       = Inr (Some 2, pair_queue)"
proof -
  have c: "clear_buddies buddy_queue 3 = buddy_queue\<lparr>next_buddy := None\<rparr>"
      "clear_buddies (buddy_queue\<lparr>next_buddy := None\<rparr>) 2 = buddy_queue\<lparr>next_buddy := None\<rparr>"
    by (simp_all add: clear_buddies_def buddy_queue_def)
  have l2: "pick_left buddy_ents (buddy_queue\<lparr>next_buddy := None\<rparr>) None = Some 2"
    by (simp add: pick_left_def raw_pick_first_entity_def buddy_queue_def curr_before_def)
  have b: "next_buddy buddy_queue = Some 3" "last_buddy buddy_queue = Some 4"
      "skip_buddy buddy_queue = None"
    by (simp_all add: buddy_queue_def)
  have 1: "pick_next_entity debit_gentle default_tunables buddy_ents buddy_queue None
       = Inr (Some 3, buddy_queue\<lparr>next_buddy := None\<rparr>)"
    using pick_next_entity_buddy_guard [of buddy_ents buddy_queue None 2 debit_gentle
        default_tunables] buddy_left buddy_wpe b c
    by auto
  have b2: "next_buddy (buddy_queue\<lparr>next_buddy := None\<rparr>) = None"
      "last_buddy (buddy_queue\<lparr>next_buddy := None\<rparr>) = Some 4"
      "skip_buddy (buddy_queue\<lparr>next_buddy := None\<rparr>) = None"
    by (simp_all add: buddy_queue_def)
  from pick_next_entity_buddy_guard [of buddy_ents "buddy_queue\<lparr>next_buddy := None\<rparr>" None 2
        debit_gentle default_tunables, THEN conjunct1, rule_format, OF l2]
  obtain se s where
    r: "pick_next_entity debit_gentle default_tunables buddy_ents
          (buddy_queue\<lparr>next_buddy := None\<rparr>) None
        = Inr (Some se, clear_buddies (buddy_queue\<lparr>next_buddy := None\<rparr>) se)"
    and g: "se = s
             \<or> (next_buddy (buddy_queue\<lparr>next_buddy := None\<rparr>) = Some se
                  \<or> last_buddy (buddy_queue\<lparr>next_buddy := None\<rparr>) = Some se)
               \<and> wakeup_preempt_entity default_tunables (buddy_ents se) (buddy_ents 2) < 1"
    and k: "skip_buddy (buddy_queue\<lparr>next_buddy := None\<rparr>) \<noteq> Some 2 \<longrightarrow> s = 2"
    by blast
  have "s = 2"
    using k b2 by simp
  moreover have "se = s"
    using g b2 buddy_wpe by auto
  ultimately have 2: "pick_next_entity debit_gentle default_tunables buddy_ents
         (buddy_queue\<lparr>next_buddy := None\<rparr>) None
       = Inr (Some 2, buddy_queue\<lparr>next_buddy := None\<rparr>)"
    using r c by simp
  have G: "unat (sysctl_sched_wakeup_granularity default_tunables) = 1000000"
      "(ucast (sysctl_sched_wakeup_granularity default_tunables) :: u64) = 1000000"
    by (simp_all add: default_tunables_def)
  have sv: "sint (600000 :: u64) = 600000" "sint (1500000 :: u64) = 1500000"
      "sint (1000000 :: u64) = 1000000"
    by (simp_all add: sint_unat_small)
  have scene: "(\<not> wakeup_preempt_entity default_tunables
                    (weighted_ents w iw v 3) (weighted_ents w iw v 2) < 1 \<longrightarrow>
                 pick_next_entity debit_gentle default_tunables (weighted_ents w iw v) pair_queue None
                   = Inr (Some 2, pair_queue))
             \<and> (wakeup_preempt_entity default_tunables
                    (weighted_ents w iw v 3) (weighted_ents w iw v 2) < 1 \<longrightarrow>
                 pick_next_entity debit_gentle default_tunables (weighted_ents w iw v) pair_queue None
                   = Inr (Some 3, pair_queue\<lparr>next_buddy := None\<rparr>))
             \<and> (wakeup_preempt_entity default_tunables
                    (weighted_ents w iw v 3) (weighted_ents w iw v 2) < 1 \<longleftrightarrow>
                  sint v \<le> 0
                  \<or> sint v \<le> sint (calc_delta_fair 1000000 (weighted_ents w iw v 2)))
             \<and> (w = 1024 \<longrightarrow> calc_delta_fair 1000000 (weighted_ents w iw v 2) = 1000000)
             \<and> (inverse_weight_ok \<lparr>weight = w, inv_weight = iw\<rparr> \<longrightarrow>
                  sint (calc_delta_fair 1000000 (weighted_ents w iw v 2))
                    \<le> int (1024000000 div unat w)
                  \<and> int (1024000000 div unat w)
                    \<le> sint (calc_delta_fair 1000000 (weighted_ents w iw v 2)) + 1)"
    for w iw v
  proof -
    note T = pick_next_entity_buddy_guard [where ents = "weighted_ents w iw v"
        and q = pair_queue and cu = None and l = 2 and feat = debit_gentle
        and tun = default_tunables and b = "weighted_ents w iw v 3"
        and e = "weighted_ents w iw v 2"]
    from T [THEN conjunct1, rule_format, OF scaled_scene(1)]
    obtain se s where
      r: "pick_next_entity debit_gentle default_tunables (weighted_ents w iw v) pair_queue None
            = Inr (Some se, clear_buddies pair_queue se)"
      and g: "se = s
               \<or> (next_buddy pair_queue = Some se \<or> last_buddy pair_queue = Some se)
                 \<and> wakeup_preempt_entity default_tunables (weighted_ents w iw v se)
                     (weighted_ents w iw v 2) < 1"
      and n: "\<forall>nb. next_buddy pair_queue = Some nb
                 \<and> wakeup_preempt_entity default_tunables (weighted_ents w iw v nb)
                     (weighted_ents w iw v 2) < 1
                 \<longrightarrow> se = nb"
      and k: "skip_buddy pair_queue \<noteq> Some 2 \<longrightarrow> s = 2"
      by blast
    have s2: "s = 2"
      using k by (simp add: scaled_scene)
    have refuse: "\<not> wakeup_preempt_entity default_tunables
                    (weighted_ents w iw v 3) (weighted_ents w iw v 2) < 1 \<longrightarrow>
                 pick_next_entity debit_gentle default_tunables (weighted_ents w iw v) pair_queue None
                   = Inr (Some 2, pair_queue)"
    proof
      assume "\<not> wakeup_preempt_entity default_tunables
                    (weighted_ents w iw v 3) (weighted_ents w iw v 2) < 1"
      hence "se = 2"
        using g s2 by (auto simp: scaled_scene)
      thus "pick_next_entity debit_gentle default_tunables (weighted_ents w iw v) pair_queue None
                   = Inr (Some 2, pair_queue)"
        using r by (simp add: scaled_scene)
    qed
    have honour: "wakeup_preempt_entity default_tunables
                    (weighted_ents w iw v 3) (weighted_ents w iw v 2) < 1 \<longrightarrow>
                 pick_next_entity debit_gentle default_tunables (weighted_ents w iw v) pair_queue None
                   = Inr (Some 3, pair_queue\<lparr>next_buddy := None\<rparr>)"
    proof
      assume "wakeup_preempt_entity default_tunables
                    (weighted_ents w iw v 3) (weighted_ents w iw v 2) < 1"
      hence "se = 3"
        using n by (simp add: scaled_scene)
      thus "pick_next_entity debit_gentle default_tunables (weighted_ents w iw v) pair_queue None
                   = Inr (Some 3, pair_queue\<lparr>next_buddy := None\<rparr>)"
        using r by (simp add: scaled_scene)
    qed
    have guard: "wakeup_preempt_entity default_tunables
                    (weighted_ents w iw v 3) (weighted_ents w iw v 2) < 1 \<longleftrightarrow>
                  sint v \<le> 0
                  \<or> sint v \<le> sint (calc_delta_fair 1000000 (weighted_ents w iw v 2))"
      using T [THEN conjunct2, THEN conjunct1] by (simp only: scaled_scene G)
    have nice0: "w = 1024 \<longrightarrow> calc_delta_fair 1000000 (weighted_ents w iw v 2) = 1000000"
      using T [THEN conjunct2, THEN conjunct2, THEN conjunct2, THEN conjunct1]
      by (simp add: scaled_scene G NICE_0_LOAD_def)
    have bounds: "inverse_weight_ok \<lparr>weight = w, inv_weight = iw\<rparr> \<longrightarrow>
                  sint (calc_delta_fair 1000000 (weighted_ents w iw v 2))
                    \<le> int (1024000000 div unat w)
                  \<and> int (1024000000 div unat w)
                    \<le> sint (calc_delta_fair 1000000 (weighted_ents w iw v 2)) + 1"
      using T [THEN conjunct2, THEN conjunct2, THEN conjunct2, THEN conjunct2]
      by (simp add: scaled_scene G)
    show ?thesis
      by (intro conjI refuse honour guard nice0 bounds)
  qed
  have 3: "pick_next_entity debit_gentle default_tunables
         (weighted_ents 2048 2097152 600000) pair_queue None
       = Inr (Some 2, pair_queue)"
  proof -
    note S = scene [of 2048 2097152 600000]
    have "sint (calc_delta_fair 1000000 (weighted_ents 2048 2097152 600000 2)) \<le> 500000"
      using S [THEN conjunct2, THEN conjunct2, THEN conjunct2, THEN conjunct2, rule_format,
          OF scaled_weights(1)]
      by simp
    hence "\<not> wakeup_preempt_entity default_tunables
               (weighted_ents 2048 2097152 600000 3) (weighted_ents 2048 2097152 600000 2) < 1"
      using S [THEN conjunct2, THEN conjunct2, THEN conjunct1] by (simp add: sv)
    thus ?thesis
      using S [THEN conjunct1] by blast
  qed
  have 4: "pick_next_entity debit_gentle default_tunables
         (weighted_ents 512 8388608 1500000) pair_queue None
       = Inr (Some 3, pair_queue\<lparr>next_buddy := None\<rparr>)"
  proof -
    note S = scene [of 512 8388608 1500000]
    have "1999999 \<le> sint (calc_delta_fair 1000000 (weighted_ents 512 8388608 1500000 2))"
      using S [THEN conjunct2, THEN conjunct2, THEN conjunct2, THEN conjunct2, rule_format,
          OF scaled_weights(2)]
      by simp
    hence "wakeup_preempt_entity default_tunables
               (weighted_ents 512 8388608 1500000 3) (weighted_ents 512 8388608 1500000 2) < 1"
      using S [THEN conjunct2, THEN conjunct2, THEN conjunct1] by (simp add: sv)
    thus ?thesis
      using S [THEN conjunct2, THEN conjunct1] by blast
  qed
  have 5: "pick_next_entity debit_gentle default_tunables
         (weighted_ents 1024 4194304 600000) pair_queue None
       = Inr (Some 3, pair_queue\<lparr>next_buddy := None\<rparr>)"
  proof -
    note S = scene [of 1024 4194304 600000]
    have "calc_delta_fair 1000000 (weighted_ents 1024 4194304 600000 2) = 1000000"
      using S [THEN conjunct2, THEN conjunct2, THEN conjunct2, THEN conjunct1] by simp
    hence "wakeup_preempt_entity default_tunables
               (weighted_ents 1024 4194304 600000 3) (weighted_ents 1024 4194304 600000 2) < 1"
      using S [THEN conjunct2, THEN conjunct2, THEN conjunct1] by (simp add: sv)
    thus ?thesis
      using S [THEN conjunct2, THEN conjunct1] by blast
  qed
  have 6: "pick_next_entity debit_gentle default_tunables
         (weighted_ents 1024 4194304 1500000) pair_queue None
       = Inr (Some 2, pair_queue)"
  proof -
    note S = scene [of 1024 4194304 1500000]
    have "calc_delta_fair 1000000 (weighted_ents 1024 4194304 1500000 2) = 1000000"
      using S [THEN conjunct2, THEN conjunct2, THEN conjunct2, THEN conjunct1] by simp
    hence "\<not> wakeup_preempt_entity default_tunables
               (weighted_ents 1024 4194304 1500000 3) (weighted_ents 1024 4194304 1500000 2) < 1"
      using S [THEN conjunct2, THEN conjunct2, THEN conjunct1] by (simp add: sv)
    thus ?thesis
      using S [THEN conjunct1] by blast
  qed
  show ?thesis
    using buddy_left 1 2 3 4 5 6 by simp
qed

section \<open>Properties of the runtime draw\<close>

lemma unat_ucast_32_64: "unat (ucast (x :: u32) :: u64) = unat x"
proof -
  have "uint (ucast x :: u64) = uint x"
    by (rule uint_up_ucast) (simp add: is_up)
  then show ?thesis
    by (simp only: unat_eq_nat_uint)
qed

lemma slice_bound: "unat (sched_cfs_bandwidth_slice tun) < 2 ^ 42"
proof -
  have "unat (sysctl_sched_cfs_bandwidth_slice tun) < 2 ^ 32"
    using unsigned_less [where 'a = nat, of "sysctl_sched_cfs_bandwidth_slice tun"] by simp
  then have "unat (ucast (sysctl_sched_cfs_bandwidth_slice tun) :: u64) * 1000 < 2 ^ 42"
    by (simp add: unat_ucast_32_64)
  then show ?thesis
    by (simp add: sched_cfs_bandwidth_slice_def NSEC_PER_USEC_def unat_word_ariths)
qed

lemma sint_add_unsigned:
  fixes r a :: u64
  assumes "sint r + int (unat a) < 9223372036854775808"
  shows "sint (r + a) = sint r + int (unat a)"
proof -
  have "r + a = of_int (sint r + uint a)"
    by simp
  then have "sint (r + a) = signed_take_bit 63 (sint r + uint a)"
    by (simp only: sint_sbintrunc') simp
  also have "\<dots> = sint r + uint a"
  proof (rule signed_take_bit_int_eq_self)
    have "- (2 ^ 63) \<le> sint r"
      using sint_ge [of r] by simp
    then show "- (2 ^ 63) \<le> sint r + uint a"
      using uint_ge_0 [of a] by linarith
    show "sint r + uint a < 2 ^ 63"
      using assms by simp
  qed
  finally show ?thesis
    by simp
qed

lemma unat_deficit:
  fixes s r :: u64
  assumes r: "sint r \<le> 0" and s: "unat s < 2 ^ 42"
  shows "unat (s - r) = unat s + nat (- sint r)"
proof -
  have lo: "- 9223372036854775808 \<le> sint r"
    using sint_ge [of r] by simp
  have s': "unat s < 4398046511104"
    using s by simp
  have su: "uint s < 4398046511104"
    using s' [unfolded unat_eq_nat_uint] by linarith
  have s0: "0 \<le> uint s"
    by (rule uint_ge_0)
  have "s - r = of_int (uint s - sint r)"
    by simp
  then have "uint (s - r) = take_bit 64 (uint s - sint r)"
    by (simp only: uint_word_of_int_eq) simp
  also have "\<dots> = uint s - sint r"
  proof (rule take_bit_int_eq_self)
    show "0 \<le> uint s - sint r"
      using r s0 by linarith
    show "uint s - sint r < 2 ^ 64"
      using lo su by simp
  qed
  finally have e: "uint (s - r) = uint s - sint r" .
  have "nat (uint (s - r)) = nat (uint s) + nat (- sint r)"
    unfolding e using r s0 by linarith
  then show ?thesis
    by (simp only: unat_eq_nat_uint)
qed

lemma sint_small:
  fixes d :: u64
  assumes "uint d < 9223372036854775808"
  shows "sint d = uint d"
proof -
  have "sint d = signed_take_bit 63 (uint d)"
    by (simp add: sint_uint)
  also have "\<dots> = uint d"
  proof (rule signed_take_bit_int_eq_self)
    show "- (2 ^ 63) \<le> uint d"
      by (rule order_trans [of _ 0]) simp_all
    show "uint d < 2 ^ 63"
      using assms by simp
  qed
  finally show ?thesis .
qed

lemma sint_slice: "sint (sched_cfs_bandwidth_slice tun) = int (unat (sched_cfs_bandwidth_slice tun))"
proof -
  have b: "unat (sched_cfs_bandwidth_slice tun) < 4398046511104"
    using slice_bound [of tun] by simp
  have "uint (sched_cfs_bandwidth_slice tun) < 9223372036854775808"
    using b [unfolded unat_eq_nat_uint] by linarith
  then have "sint (sched_cfs_bandwidth_slice tun) = uint (sched_cfs_bandwidth_slice tun)"
    by (rule sint_small)
  then show ?thesis
    by (simp only: uint_nat)
qed

lemma assign_inf:
  assumes "quota cfs_b = RUNTIME_INF"
  shows "snd (snd (assign_cfs_rq_runtime tun now (rq, cfs_b))) = cfs_b"
    and "runtime_remaining (fst (snd (assign_cfs_rq_runtime tun now (rq, cfs_b))))
           = sched_cfs_bandwidth_slice tun"
  using assms by (simp_all add: assign_cfs_rq_runtime_def Let_def)

lemma assign_finite:
  assumes "quota cfs_b \<noteq> RUNTIME_INF"
  shows "runtime (snd (snd (assign_cfs_rq_runtime tun now (rq, cfs_b))))
           = runtime (refreshed_pool now cfs_b)
               - min (runtime (refreshed_pool now cfs_b))
                   (sched_cfs_bandwidth_slice tun - runtime_remaining rq)
         \<and> runtime_remaining (fst (snd (assign_cfs_rq_runtime tun now (rq, cfs_b))))
           = runtime_remaining rq
               + min (runtime (refreshed_pool now cfs_b))
                   (sched_cfs_bandwidth_slice tun - runtime_remaining rq)"
proof (cases "0 < runtime (refreshed_pool now cfs_b)")
  case True
  then show ?thesis
    using assms by (simp add: assign_cfs_rq_runtime_def Let_def)
next
  case False
  then have "runtime (refreshed_pool now cfs_b) = 0"
    by (simp add: word_gt_0)
  then show ?thesis
    using assms by (simp add: assign_cfs_rq_runtime_def Let_def)
qed

lemma assign_ret:
  "fst (assign_cfs_rq_runtime tun now s)
     \<longleftrightarrow> 0 < sint (runtime_remaining (fst (snd (assign_cfs_rq_runtime tun now s))))"
  by (cases s) (simp add: assign_cfs_rq_runtime_def Let_def split_beta)

lemma draw_bounds:
  fixes pool rr :: u64 and tun :: tunables
  assumes r: "sint rr \<le> 0"
  defines "a \<equiv> min pool (sched_cfs_bandwidth_slice tun - rr)"
  shows "unat (pool - a) \<le> unat pool"
    and "unat pool - unat (pool - a) \<le> unat (sched_cfs_bandwidth_slice tun) + nat (- sint rr)"
    and "sint (rr + a) = sint rr + int (unat pool - unat (pool - a))"
    and "sint (rr + a) \<le> int (unat (sched_cfs_bandwidth_slice tun))"
proof -
  let ?s = "sched_cfs_bandwidth_slice tun"
  have m: "unat (?s - rr) = unat ?s + nat (- sint rr)"
    by (rule unat_deficit [OF r slice_bound])
  have ap: "a \<le> pool" and am: "a \<le> ?s - rr"
    by (simp_all add: a_def)
  have sub: "unat (pool - a) = unat pool - unat a"
    using ap by (simp add: unat_sub)
  have al: "unat a \<le> unat pool"
    using ap by (simp add: word_le_nat_alt)
  have ab: "unat a \<le> unat ?s + nat (- sint rr)"
    using am m by (simp add: word_le_nat_alt)
  have d: "unat pool - unat (pool - a) = unat a"
    using sub al by simp
  have sb: "unat ?s < 4398046511104"
    using slice_bound [of tun] by simp
  have lt: "sint rr + int (unat a) < 9223372036854775808"
    using ab r sb by linarith
  have sa: "sint (rr + a) = sint rr + int (unat a)"
    by (rule sint_add_unsigned [OF lt])
  show "unat (pool - a) \<le> unat pool"
    using sub by simp
  show "unat pool - unat (pool - a) \<le> unat ?s + nat (- sint rr)"
    using d ab by simp
  show "sint (rr + a) = sint rr + int (unat pool - unat (pool - a))"
    using sa d by simp
  show "sint (rr + a) \<le> int (unat ?s)"
    using sa ab r by linarith
qed

lemma overrun_draw:
  "assign_cfs_rq_runtime default_tunables 0 (overrun_rq, active_pool) =
     (True, \<lparr>runtime_remaining = 5000000, rq_runtime_expires = 100000000\<rparr>,
      active_pool\<lparr>runtime := 42000000\<rparr>)"
  by (simp add: assign_cfs_rq_runtime_def Let_def overrun_rq_def active_pool_def
      refreshed_pool_def RUNTIME_INF_def sched_cfs_bandwidth_slice_def default_tunables_def
      NSEC_PER_USEC_def)

text \<open>
  Claim C6, as amended. The default bandwidth period is 100 ms and the default slice
  5 ms. \<^verbatim>\<open>assign_cfs_rq_runtime\<close> returns success exactly when the queue's local
  runtime is positive after the call. When the local runtime is non-positive before
  the call, one draw takes from the pool (as found after the refresh of an inactive
  pool) at most one slice plus the queue's deficit, \<^verbatim>\<open>slice - runtime_remaining\<close>;
  what leaves the pool is what the queue receives, and the local runtime after the
  call is at most one slice. A pool with unlimited quota is left untouched.
\<close>

theorem assign_cfs_rq_runtime_draw:
  "default_cfs_period = 100000000
   \<and> sched_cfs_bandwidth_slice default_tunables = 5000000
   \<and> (fst (assign_cfs_rq_runtime tun now (rq, cfs_b))
        \<longleftrightarrow> 0 < sint (runtime_remaining (fst (snd (assign_cfs_rq_runtime tun now (rq, cfs_b))))))
   \<and> (sint (runtime_remaining rq) \<le> 0 \<longrightarrow>
        (quota cfs_b = RUNTIME_INF \<longrightarrow>
           snd (snd (assign_cfs_rq_runtime tun now (rq, cfs_b))) = cfs_b)
        \<and> (quota cfs_b \<noteq> RUNTIME_INF \<longrightarrow>
             unat (runtime (snd (snd (assign_cfs_rq_runtime tun now (rq, cfs_b)))))
               \<le> unat (runtime (refreshed_pool now cfs_b))
             \<and> unat (runtime (refreshed_pool now cfs_b))
                   - unat (runtime (snd (snd (assign_cfs_rq_runtime tun now (rq, cfs_b)))))
                 \<le> unat (sched_cfs_bandwidth_slice tun) + nat (- sint (runtime_remaining rq))
             \<and> sint (runtime_remaining (fst (snd (assign_cfs_rq_runtime tun now (rq, cfs_b)))))
                 = sint (runtime_remaining rq)
                   + int (unat (runtime (refreshed_pool now cfs_b))
                          - unat (runtime (snd (snd (assign_cfs_rq_runtime tun now (rq, cfs_b)))))))
        \<and> sint (runtime_remaining (fst (snd (assign_cfs_rq_runtime tun now (rq, cfs_b)))))
            \<le> int (unat (sched_cfs_bandwidth_slice tun)))"
proof (intro conjI impI)
  show "default_cfs_period = 100000000"
    by (simp add: default_cfs_period_def)
  show "sched_cfs_bandwidth_slice default_tunables = 5000000"
    by (simp add: sched_cfs_bandwidth_slice_def default_tunables_def NSEC_PER_USEC_def)
  show "fst (assign_cfs_rq_runtime tun now (rq, cfs_b))
        \<longleftrightarrow> 0 < sint (runtime_remaining (fst (snd (assign_cfs_rq_runtime tun now (rq, cfs_b)))))"
    by (rule assign_ret)
next
  assume "sint (runtime_remaining rq) \<le> 0" and "quota cfs_b = RUNTIME_INF"
  then show "snd (snd (assign_cfs_rq_runtime tun now (rq, cfs_b))) = cfs_b"
    by (simp add: assign_inf)
next
  assume r: "sint (runtime_remaining rq) \<le> 0" and q: "quota cfs_b \<noteq> RUNTIME_INF"
  note f = assign_finite [OF q, of tun now rq]
  note d = draw_bounds [OF r, of "runtime (refreshed_pool now cfs_b)" tun]
  show "unat (runtime (snd (snd (assign_cfs_rq_runtime tun now (rq, cfs_b)))))
               \<le> unat (runtime (refreshed_pool now cfs_b))"
    using f d(1) by simp
  show "unat (runtime (refreshed_pool now cfs_b))
                   - unat (runtime (snd (snd (assign_cfs_rq_runtime tun now (rq, cfs_b)))))
                 \<le> unat (sched_cfs_bandwidth_slice tun) + nat (- sint (runtime_remaining rq))"
    using f d(2) by simp
  show "sint (runtime_remaining (fst (snd (assign_cfs_rq_runtime tun now (rq, cfs_b)))))
                 = sint (runtime_remaining rq)
                   + int (unat (runtime (refreshed_pool now cfs_b))
                          - unat (runtime (snd (snd (assign_cfs_rq_runtime tun now (rq, cfs_b))))))"
    using f d(3) by simp
next
  assume r: "sint (runtime_remaining rq) \<le> 0"
  show "sint (runtime_remaining (fst (snd (assign_cfs_rq_runtime tun now (rq, cfs_b)))))
            \<le> int (unat (sched_cfs_bandwidth_slice tun))"
  proof (cases "quota cfs_b = RUNTIME_INF")
    case True
    then show ?thesis
      by (simp add: assign_inf sint_slice)
  next
    case False
    then show ?thesis
      using assign_finite [OF False, of tun now rq]
        draw_bounds(4) [OF r, of "runtime (refreshed_pool now cfs_b)" tun]
      by simp
  qed
qed

theorem assign_cfs_rq_runtime_draw_witness:
  "sint (runtime_remaining overrun_rq) = - 3000000
   \<and> quota active_pool \<noteq> RUNTIME_INF
   \<and> fst (assign_cfs_rq_runtime default_tunables 0 (overrun_rq, active_pool))
   \<and> unat (runtime (refreshed_pool 0 active_pool))
         - unat (runtime (snd (snd (assign_cfs_rq_runtime default_tunables 0
                                      (overrun_rq, active_pool))))) \<le> 8000000
   \<and> sint (runtime_remaining (fst (snd (assign_cfs_rq_runtime default_tunables 0
                                      (overrun_rq, active_pool))))) \<le> 5000000"
proof -
  have r: "sint (runtime_remaining overrun_rq) = - 3000000"
    by (simp add: overrun_rq_def)
  have r0: "sint (runtime_remaining overrun_rq) \<le> 0"
    by (simp add: r)
  have q: "quota active_pool \<noteq> RUNTIME_INF"
    by (simp add: active_pool_def RUNTIME_INF_def)
  have s: "unat (sched_cfs_bandwidth_slice default_tunables) = 5000000"
    by (simp add: sched_cfs_bandwidth_slice_def default_tunables_def NSEC_PER_USEC_def)
  have p: "0 < sint (runtime_remaining (fst (snd (assign_cfs_rq_runtime default_tunables 0
                                      (overrun_rq, active_pool)))))"
    by (simp add: overrun_draw)
  note t = assign_cfs_rq_runtime_draw [of default_tunables 0 overrun_rq active_pool]
  have ret: "fst (assign_cfs_rq_runtime default_tunables 0 (overrun_rq, active_pool))"
    using t p by blast
  have b: "unat (runtime (refreshed_pool 0 active_pool))
         - unat (runtime (snd (snd (assign_cfs_rq_runtime default_tunables 0
                                      (overrun_rq, active_pool)))))
       \<le> unat (sched_cfs_bandwidth_slice default_tunables)
           + nat (- sint (runtime_remaining overrun_rq))"
    using t r0 q by blast
  have c: "sint (runtime_remaining (fst (snd (assign_cfs_rq_runtime default_tunables 0
                                      (overrun_rq, active_pool)))))
       \<le> int (unat (sched_cfs_bandwidth_slice default_tunables))"
    using t r0 by blast
  have b': "unat (runtime (refreshed_pool 0 active_pool))
         - unat (runtime (snd (snd (assign_cfs_rq_runtime default_tunables 0
                                      (overrun_rq, active_pool))))) \<le> 8000000"
    using b unfolding s r by simp
  have c': "sint (runtime_remaining (fst (snd (assign_cfs_rq_runtime default_tunables 0
                                      (overrun_rq, active_pool))))) \<le> 5000000"
    using c unfolding s by simp
  show ?thesis
    using r q ret b' c' by blast
qed

text \<open>
  A queue that is 3 ms in deficit draws 8 ms from a pool of 50 ms: more than one
  slice leaves the pool in one call.
\<close>

theorem assign_cfs_rq_runtime_draw_counterexample:
  "sint (runtime_remaining overrun_rq) \<le> 0
   \<and> unat (sched_cfs_bandwidth_slice default_tunables)
       < unat (runtime active_pool)
         - unat (runtime (snd (snd (assign_cfs_rq_runtime default_tunables 0
                                      (overrun_rq, active_pool)))))"
  by (simp add: overrun_draw)
     (simp add: overrun_rq_def active_pool_def sched_cfs_bandwidth_slice_def
        default_tunables_def NSEC_PER_USEC_def)

section \<open>Properties of the tunable write handler\<close>

lemma read_write_data [simp]: "read_data d (write_data d v s) = v"
  by (cases d) simp_all

lemma write_read_data [simp]: "write_data d (read_data d s) (write_data d v s) = s"
  by (cases d) simp_all

lemma write_data_enable [simp]: "sched_enable_hmp (write_data d v s) = sched_enable_hmp s"
  by (cases d) simp_all

lemma set_hmp_defaults_sysctl [simp]:
  "sched_enable_hmp (set_hmp_defaults s) = sched_enable_hmp s"
  "sysctl_sched_grp_upmigrate_pct (set_hmp_defaults s) = sysctl_sched_grp_upmigrate_pct s"
  "sysctl_sched_grp_downmigrate_pct (set_hmp_defaults s) = sysctl_sched_grp_downmigrate_pct s"
  "sysctl_sched_upmigrate_pct (set_hmp_defaults s) = sysctl_sched_upmigrate_pct s"
  "sysctl_sched_downmigrate_pct (set_hmp_defaults s) = sysctl_sched_downmigrate_pct s"
  "sysctl_sched_upmigrate_min_nice (set_hmp_defaults s) = sysctl_sched_upmigrate_min_nice s"
  by (simp_all add: set_hmp_defaults_def update_up_down_migrate_def Let_def)

lemma handler_proc_error:
  assumes "sched_enable_hmp s" "proc_ret reply \<noteq> 0"
  shows "sched_hmp_proc_update_handler data wr reply s = (proc_ret reply, s)"
  using assms
  by (simp add: sched_hmp_proc_update_handler_def proc_dointvec_minmax_def Let_def
      del: write_data.simps read_data.simps)

lemma handler_grp_reject:
  assumes "sched_enable_hmp s" "v \<noteq> read_data data s"
    and "data = Grp_upmigrate_pct \<or> data = Grp_downmigrate_pct"
    and "sysctl_sched_grp_downmigrate_pct (write_data data v s)
           > sysctl_sched_grp_upmigrate_pct (write_data data v s)"
  shows "sched_hmp_proc_update_handler data True \<lparr>proc_ret = 0, proc_val = v\<rparr> s = (- EINVAL, s)"
  using assms
  by (auto simp add: sched_hmp_proc_update_handler_def proc_dointvec_minmax_def Let_def
      simp del: write_data.simps read_data.simps)

lemma handler_nice_reject:
  assumes "sched_enable_hmp s" "v \<noteq> read_data Upmigrate_min_nice s"
    and "sint v < - 20 \<or> 19 < sint v"
  shows "sched_hmp_proc_update_handler Upmigrate_min_nice True \<lparr>proc_ret = 0, proc_val = v\<rparr> s
           = (- EINVAL, s)"
  using assms
  by (auto simp add: sched_hmp_proc_update_handler_def proc_dointvec_minmax_def Let_def
      simp del: write_data.simps read_data.simps)

lemma handler_pct_reject:
  assumes "sched_enable_hmp s" "v \<noteq> read_data data s"
    and "data \<in> {Spill_load_pct, Small_task_pct, Heavy_task_pct, Upmigrate_pct,
                 Downmigrate_pct, Init_task_load_pct}"
    and "sysctl_sched_downmigrate_pct (write_data data v s)
           > sysctl_sched_upmigrate_pct (write_data data v s) \<or> v > 100"
  shows "sched_hmp_proc_update_handler data True \<lparr>proc_ret = 0, proc_val = v\<rparr> s = (- EINVAL, s)"
proof -
  have w: "write_data data (read_data data s) (write_data data v s) = s"
    by simp
  have r: "read_data data (write_data data v s) = v"
    by simp
  show ?thesis
    using assms(1,2,3)
    using assms(4)
    by (auto simp add: sched_hmp_proc_update_handler_def proc_dointvec_minmax_def Let_def
        simp del: write_data.simps read_data.simps)
qed

lemma handler_grp_accept:
  assumes "sched_enable_hmp s" "v \<noteq> read_data data s"
    and "data = Grp_upmigrate_pct \<or> data = Grp_downmigrate_pct"
    and "\<not> sysctl_sched_grp_downmigrate_pct (write_data data v s)
           > sysctl_sched_grp_upmigrate_pct (write_data data v s)"
  shows "sched_hmp_proc_update_handler data True \<lparr>proc_ret = 0, proc_val = v\<rparr> s
           = (0, set_hmp_defaults (write_data data v s))"
  using assms
  by (auto simp add: sched_hmp_proc_update_handler_def proc_dointvec_minmax_def Let_def
      simp del: write_data.simps read_data.simps)

lemma initial_hmp_fields:
  "sched_enable_hmp initial_hmp_state"
  "sysctl_sched_grp_upmigrate_pct initial_hmp_state = 120"
  "sysctl_sched_grp_downmigrate_pct initial_hmp_state = 100"
  by (simp_all add: initial_hmp_state_def)

lemma initial_hmp_pct:
  "sysctl_sched_upmigrate_pct initial_hmp_state = 80"
  "sysctl_sched_downmigrate_pct initial_hmp_state = 60"
  "sysctl_sched_upmigrate_min_nice initial_hmp_state = 15"
  by (simp_all add: initial_hmp_state_def)

text \<open>
  Claim C8, as amended. With HMP enabled, a write of a new value is rejected with
  \<open>-EINVAL\<close>, and the whole state is as before the write, when the value is a
  min-nice outside \<open>[-20, 19]\<close>; or a task-level percentage above 100, or one that
  leaves the downmigrate percentage above the upmigrate percentage; or a group
  threshold that leaves the group downmigrate percentage above the group upmigrate
  percentage. Group thresholds are not limited to 100. A write that
  \<^verbatim>\<open>proc_dointvec_minmax\<close> refuses returns its error and changes nothing. With HMP
  disabled the handler returns 0 and neither reads nor writes.
\<close>

theorem hmp_handler_rejects:
  "(\<not> sched_enable_hmp s \<longrightarrow> sched_hmp_proc_update_handler data wr reply s = (0, s))
   \<and> (sched_enable_hmp s \<and> proc_ret reply \<noteq> 0 \<longrightarrow>
      sched_hmp_proc_update_handler data wr reply s = (proc_ret reply, s))
   \<and> (sched_enable_hmp s \<and> v \<noteq> read_data data s
        \<and> (data = Grp_upmigrate_pct \<or> data = Grp_downmigrate_pct)
        \<and> sysctl_sched_grp_downmigrate_pct (write_data data v s)
             > sysctl_sched_grp_upmigrate_pct (write_data data v s) \<longrightarrow>
      sched_hmp_proc_update_handler data True \<lparr>proc_ret = 0, proc_val = v\<rparr> s = (- EINVAL, s))
   \<and> (sched_enable_hmp s \<and> v \<noteq> read_data Upmigrate_min_nice s
        \<and> (sint v < - 20 \<or> 19 < sint v) \<longrightarrow>
      sched_hmp_proc_update_handler Upmigrate_min_nice True \<lparr>proc_ret = 0, proc_val = v\<rparr> s
        = (- EINVAL, s))
   \<and> (sched_enable_hmp s \<and> v \<noteq> read_data data s
        \<and> data \<in> {Spill_load_pct, Small_task_pct, Heavy_task_pct, Upmigrate_pct,
                     Downmigrate_pct, Init_task_load_pct}
        \<and> (sysctl_sched_downmigrate_pct (write_data data v s)
               > sysctl_sched_upmigrate_pct (write_data data v s) \<or> v > 100) \<longrightarrow>
      sched_hmp_proc_update_handler data True \<lparr>proc_ret = 0, proc_val = v\<rparr> s = (- EINVAL, s))"
proof (intro conjI impI)
  assume "\<not> sched_enable_hmp s"
  then show "sched_hmp_proc_update_handler data wr reply s = (0, s)"
    by (simp add: sched_hmp_proc_update_handler_def)
next
  assume "sched_enable_hmp s \<and> proc_ret reply \<noteq> 0"
  then show "sched_hmp_proc_update_handler data wr reply s = (proc_ret reply, s)"
    by (simp add: handler_proc_error)
next
  assume "sched_enable_hmp s \<and> v \<noteq> read_data data s
        \<and> (data = Grp_upmigrate_pct \<or> data = Grp_downmigrate_pct)
        \<and> sysctl_sched_grp_downmigrate_pct (write_data data v s)
             > sysctl_sched_grp_upmigrate_pct (write_data data v s)"
  then show "sched_hmp_proc_update_handler data True \<lparr>proc_ret = 0, proc_val = v\<rparr> s = (- EINVAL, s)"
    by (intro handler_grp_reject) blast+
next
  assume "sched_enable_hmp s \<and> v \<noteq> read_data Upmigrate_min_nice s
        \<and> (sint v < - 20 \<or> 19 < sint v)"
  then show "sched_hmp_proc_update_handler Upmigrate_min_nice True \<lparr>proc_ret = 0, proc_val = v\<rparr> s
        = (- EINVAL, s)"
    by (intro handler_nice_reject) blast+
next
  assume "sched_enable_hmp s \<and> v \<noteq> read_data data s
        \<and> data \<in> {Spill_load_pct, Small_task_pct, Heavy_task_pct, Upmigrate_pct,
                     Downmigrate_pct, Init_task_load_pct}
        \<and> (sysctl_sched_downmigrate_pct (write_data data v s)
               > sysctl_sched_upmigrate_pct (write_data data v s) \<or> v > 100)"
  then show "sched_hmp_proc_update_handler data True \<lparr>proc_ret = 0, proc_val = v\<rparr> s = (- EINVAL, s)"
    by (intro handler_pct_reject) blast+
qed

theorem hmp_handler_rejects_witness:
  "sched_hmp_proc_update_handler Upmigrate_pct True \<lparr>proc_ret = 0, proc_val = 150\<rparr>
       initial_hmp_state = (- EINVAL, initial_hmp_state)
   \<and> sched_hmp_proc_update_handler Downmigrate_pct True \<lparr>proc_ret = 0, proc_val = 90\<rparr>
       initial_hmp_state = (- EINVAL, initial_hmp_state)
   \<and> sched_hmp_proc_update_handler Upmigrate_min_nice True \<lparr>proc_ret = 0, proc_val = 25\<rparr>
       initial_hmp_state = (- EINVAL, initial_hmp_state)
   \<and> sched_hmp_proc_update_handler Grp_downmigrate_pct True \<lparr>proc_ret = 0, proc_val = 130\<rparr>
       initial_hmp_state = (- EINVAL, initial_hmp_state)
   \<and> sched_hmp_proc_update_handler Upmigrate_pct True \<lparr>proc_ret = - 22, proc_val = 50\<rparr>
       initial_hmp_state = (- 22, initial_hmp_state)"
proof -
  note f = initial_hmp_fields initial_hmp_pct
  have 1: "sched_hmp_proc_update_handler Upmigrate_pct True \<lparr>proc_ret = 0, proc_val = 150\<rparr>
       initial_hmp_state = (- EINVAL, initial_hmp_state)"
    using hmp_handler_rejects [where s = initial_hmp_state and v = 150 and data = Upmigrate_pct] f by simp
  have 2: "sched_hmp_proc_update_handler Downmigrate_pct True \<lparr>proc_ret = 0, proc_val = 90\<rparr>
       initial_hmp_state = (- EINVAL, initial_hmp_state)"
    using hmp_handler_rejects [where s = initial_hmp_state and v = 90 and data = Downmigrate_pct] f by simp
  have 3: "sched_hmp_proc_update_handler Upmigrate_min_nice True \<lparr>proc_ret = 0, proc_val = 25\<rparr>
       initial_hmp_state = (- EINVAL, initial_hmp_state)"
    using hmp_handler_rejects [where s = initial_hmp_state and v = 25 and data = Upmigrate_min_nice] f by simp
  have 4: "sched_hmp_proc_update_handler Grp_downmigrate_pct True \<lparr>proc_ret = 0, proc_val = 130\<rparr>
       initial_hmp_state = (- EINVAL, initial_hmp_state)"
    using hmp_handler_rejects [where s = initial_hmp_state and v = 130 and data = Grp_downmigrate_pct] f by simp
  have 5: "sched_hmp_proc_update_handler Upmigrate_pct True \<lparr>proc_ret = - 22, proc_val = 50\<rparr>
       initial_hmp_state = (- 22, initial_hmp_state)"
    using hmp_handler_rejects [where s = initial_hmp_state
        and reply = "\<lparr>proc_ret = - 22, proc_val = 50\<rparr>" and data = Upmigrate_pct and wr = True] f by simp
  show ?thesis
    using 1 2 3 4 5 by blast
qed

text \<open>
  The group upmigrate threshold, 120 at start, is written to 130: a percentage above
  100 that is accepted.
\<close>

theorem hmp_handler_rejects_counterexample:
  "(100 :: u32) < 130
   \<and> fst (sched_hmp_proc_update_handler Grp_upmigrate_pct True
             \<lparr>proc_ret = 0, proc_val = 130\<rparr> initial_hmp_state) = 0
   \<and> sysctl_sched_grp_upmigrate_pct
        (snd (sched_hmp_proc_update_handler Grp_upmigrate_pct True
                \<lparr>proc_ret = 0, proc_val = 130\<rparr> initial_hmp_state)) = 130"
proof -
  have "sched_hmp_proc_update_handler Grp_upmigrate_pct True
             \<lparr>proc_ret = 0, proc_val = 130\<rparr> initial_hmp_state
          = (0, set_hmp_defaults (write_data Grp_upmigrate_pct 130 initial_hmp_state))"
    using initial_hmp_fields by (intro handler_grp_accept) simp_all
  then show ?thesis
    by simp
qed

section \<open>Placement of a small task on a mostly idle CPU\<close>

text \<open>
  With \<^verbatim>\<open>sysctl_sched_restrict_tasks_spread\<close> off, one pass of the first loop of
  \<^verbatim>\<open>best_small_task_cpu\<close> returns the CPU when it is a first choice, and otherwise
  shrinks the search mask and may remember the CPU as the idle CPU in the lowest
  C-state. The inductions below are on the size of the search mask.
\<close>

lemma small_task_step_found:
  assumes "\<not> sysctl_sched_restrict_tasks_spread e" "first_choice e i"
  shows "small_task_step e p False (\<not> cpumask_equal (mpc_mask e) (cpu_possible_mask e)) i s
           = Inl i"
  using assms
  by (simp add: small_task_step_def first_choice_def mostly_idle_candidate_def
      idle_in_cstate_def highest_capacity_cpu_def Let_def)

lemma small_task_step_passed:
  assumes "\<not> sysctl_sched_restrict_tasks_spread e" "\<not> first_choice e i"
  shows "\<exists>s1. small_task_step e p False (\<not> cpumask_equal (mpc_mask e) (cpu_possible_mask e)) i s
                = Inr s1
           \<and> search_cpu s1 =
               (if highest_capacity_cpu e i
                then cpumask_andnot (search_cpu s) (freq_domain_cpumask (cpu_rq e i))
                else cpumask_clear_cpu i (search_cpu s))
           \<and> best_busy_cpu s1 = best_busy_cpu s
           \<and> min_cstate_cpu s1 =
               (if idle_choice e i \<and> cstate (cpu_rq e i) < min_cstate s
                then i else min_cstate_cpu s)
           \<and> min_cstate s1 =
               (if idle_choice e i \<and> cstate (cpu_rq e i) < min_cstate s
                then cstate (cpu_rq e i) else min_cstate s)"
  using assms
  by (auto simp: small_task_step_def first_choice_def mostly_idle_candidate_def
      idle_choice_def idle_in_cstate_def highest_capacity_cpu_def Let_def)

lemma cpumask_first_in:
  assumes "m \<noteq> []"
  shows "cpumask_first nr m \<in> set m"
  using assms Min_in [of "set m"] by (simp add: cpumask_first_def)

lemma cpumask_first_le:
  assumes "d \<in> set m"
  shows "cpumask_first nr m \<le> d"
proof -
  have "m \<noteq> []"
    using assms by auto
  moreover have "Min (set m) \<le> d"
    using assms by (intro Min_le) simp_all
  ultimately show ?thesis
    by (simp add: cpumask_first_def)
qed

lemma search_after_step:
  assumes big: "domains_by_capacity e search" and i: "i \<in> set search"
    and s1: "search1 =
               (if highest_capacity_cpu e i
                then cpumask_andnot search (freq_domain_cpumask (cpu_rq e i))
                else cpumask_clear_cpu i search)"
  shows "set search1 \<subseteq> set search"
    and "length search1 < length search"
    and "domains_by_capacity e search1"
    and "\<And>d. d \<in> set search \<Longrightarrow> d \<notin> set search1 \<Longrightarrow>
            (if highest_capacity_cpu e i then highest_capacity_cpu e d else d = i)"
proof -
  have own: "highest_capacity_cpu e i \<Longrightarrow> i \<in> set (freq_domain_cpumask (cpu_rq e i))"
    using big i unfolding domains_by_capacity_def by blast
  have others: "highest_capacity_cpu e i \<Longrightarrow> d \<in> set search \<Longrightarrow>
                  d \<in> set (freq_domain_cpumask (cpu_rq e i)) \<Longrightarrow> highest_capacity_cpu e d" for d
    using big i unfolding domains_by_capacity_def by blast
  have mem: "d \<in> set search1 \<longleftrightarrow>
               d \<in> set search
               \<and> (if highest_capacity_cpu e i
                  then d \<notin> set (freq_domain_cpumask (cpu_rq e i)) else d \<noteq> i)" for d
    by (simp add: s1 cpumask_andnot_def cpumask_clear_cpu_def)
  show sub: "set search1 \<subseteq> set search"
    using mem by blast
  have ni: "i \<notin> set search1"
    using own by (simp add: mem)
  have "search1 = filter (\<lambda>d. d \<in> set search1) search"
    by (simp add: s1 cpumask_andnot_def cpumask_clear_cpu_def mem cong: filter_cong)
  moreover have "length (filter (\<lambda>d. d \<in> set search1) search) < length search"
    using i ni by (rule length_filter_less)
  ultimately show "length search1 < length search"
    by simp
  show "domains_by_capacity e search1"
    using big sub unfolding domains_by_capacity_def by blast
  show "\<And>d. d \<in> set search \<Longrightarrow> d \<notin> set search1 \<Longrightarrow>
            (if highest_capacity_cpu e i then highest_capacity_cpu e d else d = i)"
    using others by (auto simp: mem split: if_splits)
qed

lemma small_task_loop_unfold:
  assumes "small_task_step e p sync hc i s = Inr s1" "search_cpu s1 \<noteq> []"
    "\<forall>d\<in>set (search_cpu s1). d < nr_cpu_ids e"
  shows "small_task_loop e p sync hc i s
           = small_task_loop e p sync hc (cpumask_first (nr_cpu_ids e) (search_cpu s1)) s1"
proof -
  have "cpumask_first (nr_cpu_ids e) (search_cpu s1) < nr_cpu_ids e"
    using cpumask_first_in [OF assms(2)] assms(3) by blast
  thus ?thesis
    by (subst small_task_loop.simps) (simp add: assms(1))
qed

lemma small_task_loop_end:
  assumes "small_task_step e p sync hc i s = Inr s1" "search_cpu s1 = []"
  shows "small_task_loop e p sync hc i s = Some (Inr s1)"
  by (subst small_task_loop.simps) (simp add: assms cpumask_first_def)

lemma small_task_loop_found:
  assumes r: "\<not> sysctl_sched_restrict_tasks_spread e"
    and "\<forall>d\<in>set (search_cpu s). d < nr_cpu_ids e"
    and "i \<in> set (search_cpu s)"
    and "\<exists>c\<in>set (search_cpu s). first_choice e c"
    and "domains_by_capacity e (search_cpu s)"
  shows "\<exists>r. small_task_loop e p False (\<not> cpumask_equal (mpc_mask e) (cpu_possible_mask e)) i s
               = Some (Inl r)
             \<and> r \<in> set (search_cpu s) \<and> first_choice e r
             \<and> (first_choice e i \<longrightarrow> r = i)
             \<and> ((\<forall>d\<in>set (search_cpu s). i \<le> d) \<or> \<not> first_choice e i
                  \<longrightarrow> (\<forall>d\<in>set (search_cpu s). first_choice e d \<longrightarrow> r \<le> d))"
  using assms(2-)
proof (induction "length (search_cpu s)" arbitrary: s i rule: less_induct)
  case less
  let ?hc = "\<not> cpumask_equal (mpc_mask e) (cpu_possible_mask e)"
  show ?case
  proof (cases "first_choice e i")
    case True
    have "small_task_loop e p False ?hc i s = Some (Inl i)"
      by (subst small_task_loop.simps) (simp add: small_task_step_found [OF r True])
    thus ?thesis
      using True less.prems(2) by auto
  next
    case False
    from small_task_step_passed [OF r False, of p s]
    obtain s1 where s1: "small_task_step e p False ?hc i s = Inr s1"
      and search: "search_cpu s1 =
               (if highest_capacity_cpu e i
                then cpumask_andnot (search_cpu s) (freq_domain_cpumask (cpu_rq e i))
                else cpumask_clear_cpu i (search_cpu s))"
      by blast
    note a = search_after_step [OF less.prems(4) less.prems(2) search]
    have keep: "d \<in> set (search_cpu s1)" if "d \<in> set (search_cpu s)" "first_choice e d" for d
    proof (rule ccontr)
      assume "d \<notin> set (search_cpu s1)"
      hence "if highest_capacity_cpu e i then highest_capacity_cpu e d else d = i"
        using that(1) by (rule a(4) [rotated])
      thus False
        using that(2) False
        by (auto simp: first_choice_def mostly_idle_candidate_def split: if_splits)
    qed
    have ex: "\<exists>c\<in>set (search_cpu s1). first_choice e c"
      using less.prems(3) keep by blast
    hence ne: "search_cpu s1 \<noteq> []"
      by auto
    have valid: "\<forall>d\<in>set (search_cpu s1). d < nr_cpu_ids e"
      using less.prems(1) a(1) by blast
    define i1 where "i1 = cpumask_first (nr_cpu_ids e) (search_cpu s1)"
    have i1: "i1 \<in> set (search_cpu s1)"
      unfolding i1_def by (rule cpumask_first_in [OF ne])
    have least: "\<forall>d\<in>set (search_cpu s1). i1 \<le> d"
      unfolding i1_def by (blast intro: cpumask_first_le)
    from less.hyps [OF a(2) valid i1 ex a(3)]
    obtain r where loop1: "small_task_loop e p False ?hc i1 s1 = Some (Inl r)"
      and r: "r \<in> set (search_cpu s1)" "first_choice e r"
      and ord: "(\<forall>d\<in>set (search_cpu s1). i1 \<le> d) \<or> \<not> first_choice e i1
                  \<longrightarrow> (\<forall>d\<in>set (search_cpu s1). first_choice e d \<longrightarrow> r \<le> d)"
      by blast
    have "small_task_loop e p False ?hc i s = small_task_loop e p False ?hc i1 s1"
      unfolding i1_def by (rule small_task_loop_unfold [OF s1 ne valid])
    hence "small_task_loop e p False ?hc i s = Some (Inl r)"
      by (simp only: loop1)
    moreover have "r \<in> set (search_cpu s)"
      using r(1) a(1) by blast
    moreover have "\<forall>d\<in>set (search_cpu s). first_choice e d \<longrightarrow> r \<le> d"
      using ord least keep by blast
    ultimately show ?thesis
      using r(2) False by blast
  qed
qed

lemma small_task_loop_passed:
  assumes r: "\<not> sysctl_sched_restrict_tasks_spread e"
    and "\<forall>d\<in>set (search_cpu s). d < nr_cpu_ids e"
    and "i \<in> set (search_cpu s)"
    and "\<forall>d\<in>set (search_cpu s). \<not> first_choice e d"
    and "domains_by_capacity e (search_cpu s)"
  shows "\<exists>s2. small_task_loop e p False (\<not> cpumask_equal (mpc_mask e) (cpu_possible_mask e)) i s
               = Some (Inr s2)
             \<and> best_busy_cpu s2 = best_busy_cpu s
             \<and> ((\<forall>d\<in>set (search_cpu s). idle_choice e d \<longrightarrow> min_cstate s \<le> cstate (cpu_rq e d))
                  \<longrightarrow> min_cstate_cpu s2 = min_cstate_cpu s \<and> min_cstate s2 = min_cstate s)
             \<and> ((\<exists>d\<in>set (search_cpu s). idle_choice e d \<and> cstate (cpu_rq e d) < min_cstate s)
                  \<longrightarrow> min_cstate_cpu s2 \<in> set (search_cpu s)
                      \<and> idle_choice e (min_cstate_cpu s2)
                      \<and> min_cstate s2 = cstate (cpu_rq e (min_cstate_cpu s2))
                      \<and> min_cstate s2 < min_cstate s
                      \<and> (\<forall>d\<in>set (search_cpu s). idle_choice e d
                            \<longrightarrow> min_cstate s2 \<le> cstate (cpu_rq e d)))"
  using assms(2-)
proof (induction "length (search_cpu s)" arbitrary: s i rule: less_induct)
  case less
  let ?hc = "\<not> cpumask_equal (mpc_mask e) (cpu_possible_mask e)"
  let ?cs = "\<lambda>d. cstate (cpu_rq e d)"
  let ?take = "idle_choice e i \<and> ?cs i < min_cstate s"
  have nf: "\<not> first_choice e i"
    using less.prems(2,3) by blast
  from small_task_step_passed [OF r nf, of p s]
  obtain s1 where s1: "small_task_step e p False ?hc i s = Inr s1"
    and search: "search_cpu s1 =
               (if highest_capacity_cpu e i
                then cpumask_andnot (search_cpu s) (freq_domain_cpumask (cpu_rq e i))
                else cpumask_clear_cpu i (search_cpu s))"
    and busy1: "best_busy_cpu s1 = best_busy_cpu s"
    and cpu1: "min_cstate_cpu s1 = (if ?take then i else min_cstate_cpu s)"
    and min1: "min_cstate s1 = (if ?take then ?cs i else min_cstate s)"
    by blast
  note a = search_after_step [OF less.prems(4) less.prems(2) search]
  have gone: "d = i" if "d \<in> set (search_cpu s)" "d \<notin> set (search_cpu s1)" "idle_choice e d" for d
    using a(4) [OF that(1,2)] that(3) by (auto simp: idle_choice_def split: if_splits)
  have le1: "min_cstate s1 \<le> min_cstate s"
    by (simp add: min1)
  show ?case
  proof (cases "search_cpu s1 = []")
    case True
    have loop: "small_task_loop e p False ?hc i s = Some (Inr s1)"
      by (rule small_task_loop_end [OF s1 True])
    have only: "d = i" if "d \<in> set (search_cpu s)" "idle_choice e d" for d
      using gone [OF that(1) _ that(2)] True by simp
    have A: "(\<forall>d\<in>set (search_cpu s). idle_choice e d \<longrightarrow> min_cstate s \<le> ?cs d)
               \<longrightarrow> min_cstate_cpu s1 = min_cstate_cpu s \<and> min_cstate s1 = min_cstate s"
      using less.prems(2) by (auto simp: cpu1 min1)
    have B: "(\<exists>d\<in>set (search_cpu s). idle_choice e d \<and> ?cs d < min_cstate s)
               \<longrightarrow> min_cstate_cpu s1 \<in> set (search_cpu s)
                   \<and> idle_choice e (min_cstate_cpu s1)
                   \<and> min_cstate s1 = ?cs (min_cstate_cpu s1)
                   \<and> min_cstate s1 < min_cstate s
                   \<and> (\<forall>d\<in>set (search_cpu s). idle_choice e d \<longrightarrow> min_cstate s1 \<le> ?cs d)"
    proof
      assume "\<exists>d\<in>set (search_cpu s). idle_choice e d \<and> ?cs d < min_cstate s"
      then obtain d where d: "d \<in> set (search_cpu s)" "idle_choice e d" "?cs d < min_cstate s"
        by blast
      have "d = i"
        using only d(1,2) by blast
      hence t: ?take
        using d by simp
      have "\<forall>d\<in>set (search_cpu s). idle_choice e d \<longrightarrow> ?cs i \<le> ?cs d"
        using only by auto
      thus "min_cstate_cpu s1 \<in> set (search_cpu s)
                   \<and> idle_choice e (min_cstate_cpu s1)
                   \<and> min_cstate s1 = ?cs (min_cstate_cpu s1)
                   \<and> min_cstate s1 < min_cstate s
                   \<and> (\<forall>d\<in>set (search_cpu s). idle_choice e d \<longrightarrow> min_cstate s1 \<le> ?cs d)"
        using t less.prems(2) by (simp add: cpu1 min1)
    qed
    show ?thesis
      using loop busy1 A B by blast
  next
    case False
    have valid: "\<forall>d\<in>set (search_cpu s1). d < nr_cpu_ids e"
      using less.prems(1) a(1) by blast
    have none: "\<forall>d\<in>set (search_cpu s1). \<not> first_choice e d"
      using less.prems(3) a(1) by blast
    define i1 where "i1 = cpumask_first (nr_cpu_ids e) (search_cpu s1)"
    have i1: "i1 \<in> set (search_cpu s1)"
      unfolding i1_def by (rule cpumask_first_in [OF False])
    from less.hyps [OF a(2) valid i1 none a(3)]
    obtain s2 where loop1: "small_task_loop e p False ?hc i1 s1 = Some (Inr s2)"
      and busy2: "best_busy_cpu s2 = best_busy_cpu s1"
      and A1: "(\<forall>d\<in>set (search_cpu s1). idle_choice e d \<longrightarrow> min_cstate s1 \<le> ?cs d)
                 \<longrightarrow> min_cstate_cpu s2 = min_cstate_cpu s1 \<and> min_cstate s2 = min_cstate s1"
      and B1: "(\<exists>d\<in>set (search_cpu s1). idle_choice e d \<and> ?cs d < min_cstate s1)
                 \<longrightarrow> min_cstate_cpu s2 \<in> set (search_cpu s1)
                     \<and> idle_choice e (min_cstate_cpu s2)
                     \<and> min_cstate s2 = ?cs (min_cstate_cpu s2)
                     \<and> min_cstate s2 < min_cstate s1
                     \<and> (\<forall>d\<in>set (search_cpu s1). idle_choice e d \<longrightarrow> min_cstate s2 \<le> ?cs d)"
      by blast
    have "small_task_loop e p False ?hc i s = small_task_loop e p False ?hc i1 s1"
      unfolding i1_def by (rule small_task_loop_unfold [OF s1 False valid])
    hence loop: "small_task_loop e p False ?hc i s = Some (Inr s2)"
      by (simp only: loop1)
    have A: "(\<forall>d\<in>set (search_cpu s). idle_choice e d \<longrightarrow> min_cstate s \<le> ?cs d)
               \<longrightarrow> min_cstate_cpu s2 = min_cstate_cpu s \<and> min_cstate s2 = min_cstate s"
    proof
      assume all: "\<forall>d\<in>set (search_cpu s). idle_choice e d \<longrightarrow> min_cstate s \<le> ?cs d"
      hence nt: "\<not> ?take"
        using less.prems(2) by auto
      hence e1: "min_cstate_cpu s1 = min_cstate_cpu s" "min_cstate s1 = min_cstate s"
        unfolding cpu1 min1 by (simp_all only: if_False)
      have "\<forall>d\<in>set (search_cpu s1). idle_choice e d \<longrightarrow> min_cstate s1 \<le> ?cs d"
        using all a(1) by (auto simp: e1)
      thus "min_cstate_cpu s2 = min_cstate_cpu s \<and> min_cstate s2 = min_cstate s"
        using A1 by (simp add: e1)
    qed
    have B: "(\<exists>d\<in>set (search_cpu s). idle_choice e d \<and> ?cs d < min_cstate s)
               \<longrightarrow> min_cstate_cpu s2 \<in> set (search_cpu s)
                   \<and> idle_choice e (min_cstate_cpu s2)
                   \<and> min_cstate s2 = ?cs (min_cstate_cpu s2)
                   \<and> min_cstate s2 < min_cstate s
                   \<and> (\<forall>d\<in>set (search_cpu s). idle_choice e d \<longrightarrow> min_cstate s2 \<le> ?cs d)"
    proof
      assume "\<exists>d\<in>set (search_cpu s). idle_choice e d \<and> ?cs d < min_cstate s"
      then obtain d0 where d0: "d0 \<in> set (search_cpu s)" "idle_choice e d0" "?cs d0 < min_cstate s"
        by blast
      have at_i: "min_cstate s1 \<le> ?cs i" if "idle_choice e i"
        using that by (simp add: min1)
      show "min_cstate_cpu s2 \<in> set (search_cpu s)
                   \<and> idle_choice e (min_cstate_cpu s2)
                   \<and> min_cstate s2 = ?cs (min_cstate_cpu s2)
                   \<and> min_cstate s2 < min_cstate s
                   \<and> (\<forall>d\<in>set (search_cpu s). idle_choice e d \<longrightarrow> min_cstate s2 \<le> ?cs d)"
      proof (cases "\<exists>d\<in>set (search_cpu s1). idle_choice e d \<and> ?cs d < min_cstate s1")
        case True
        with B1 have f: "min_cstate_cpu s2 \<in> set (search_cpu s1)"
            "idle_choice e (min_cstate_cpu s2)"
            "min_cstate s2 = ?cs (min_cstate_cpu s2)"
            "min_cstate s2 < min_cstate s1"
            "\<forall>d\<in>set (search_cpu s1). idle_choice e d \<longrightarrow> min_cstate s2 \<le> ?cs d"
          by blast+
        have "min_cstate s2 \<le> ?cs d" if "d \<in> set (search_cpu s)" "idle_choice e d" for d
        proof (cases "d \<in> set (search_cpu s1)")
          case True
          thus ?thesis using f(5) that(2) by blast
        next
          case False
          hence "d = i"
            using gone that by blast
          thus ?thesis
            using at_i that(2) f(4) by simp
        qed
        thus ?thesis
          using f a(1) le1 by auto
      next
        case False
        hence all1: "\<forall>d\<in>set (search_cpu s1). idle_choice e d \<longrightarrow> min_cstate s1 \<le> ?cs d"
          by auto
        with A1 have e2: "min_cstate_cpu s2 = min_cstate_cpu s1" "min_cstate s2 = min_cstate s1"
          by blast+
        have lt: "min_cstate s1 < min_cstate s"
        proof (cases "d0 \<in> set (search_cpu s1)")
          case True
          thus ?thesis using all1 d0 by force
        next
          case False
          hence "d0 = i"
            using gone d0 by blast
          thus ?thesis
            using d0 by (simp add: min1)
        qed
        hence t: ?take
          by (auto simp: min1 split: if_splits)
        have "min_cstate s1 \<le> ?cs d" if "d \<in> set (search_cpu s)" "idle_choice e d" for d
        proof (cases "d \<in> set (search_cpu s1)")
          case True
          thus ?thesis using all1 that(2) by blast
        next
          case False
          hence "d = i"
            using gone that by blast
          thus ?thesis
            using at_i that(2) by simp
        qed
        thus ?thesis
          using t lt less.prems(2) by (simp add: e2 cpu1 min1)
      qed
    qed
    show ?thesis
      using loop busy1 busy2 A B by auto
  qed
qed

lemma best_small_task_cpu_choice:
  assumes r: "\<not> sysctl_sched_restrict_tasks_spread e"
    and valid: "\<forall>d\<in>set (candidates e p). 0 \<le> d \<and> d < nr_cpu_ids e"
    and big: "domains_by_capacity e (candidates e p)"
    and c: "c \<in> set (candidates e p)" "mostly_idle_candidate e c"
      "idle_in_cstate e c \<longrightarrow> cstate (cpu_rq e c) < INT_MAX"
  shows "\<exists>r. best_small_task_cpu e p False = Some (Inr r) \<and> r \<in> set (candidates e p)
             \<and> (if \<exists>d\<in>set (candidates e p). first_choice e d
                 then first_choice e r
                      \<and> (if task_cpu p \<in> set (candidates e p) \<and> first_choice e (task_cpu p)
                          then r = task_cpu p
                          else \<forall>d\<in>set (candidates e p). first_choice e d \<longrightarrow> r \<le> d)
                 else idle_choice e r
                      \<and> (\<forall>d\<in>set (candidates e p). idle_choice e d
                            \<longrightarrow> cstate (cpu_rq e r) \<le> cstate (cpu_rq e d)))"
proof -
  let ?hc = "\<not> cpumask_equal (mpc_mask e) (cpu_possible_mask e)"
  define search where "search = cpumask_and (tsk_cpus_allowed p) (cpu_active_mask e)"
  define i0 where "i0 = (if \<not> cpumask_test_cpu (task_cpu p) search
                      then cpumask_first (nr_cpu_ids e) search else task_cpu p)"
  define s0 where "s0 = \<lparr> search_cpu = search, fb_search_cpu = [], min_cstate_cpu = - 1,
                        min_cstate = INT_MAX, best_busy_cpu = - 1, min_load = ULLONG_MAX \<rparr>"
  have cand: "candidates e p = search"
    by (simp add: candidates_def search_def)
  have s0f: "search_cpu s0 = search" "min_cstate_cpu s0 = - 1" "min_cstate s0 = INT_MAX"
      "best_busy_cpu s0 = - 1"
    by (simp_all add: s0_def)
  have ne: "search \<noteq> []"
    using c(1) cand by auto
  have first: "cpumask_first (nr_cpu_ids e) search \<in> set search"
    by (rule cpumask_first_in [OF ne])
  hence i0: "i0 \<in> set search"
    by (simp add: i0_def cpumask_test_cpu_def)
  have early: "\<not> (\<not> cpumask_test_cpu (task_cpu p) search
            \<and> (cpumask_empty search \<or> cpumask_first (nr_cpu_ids e) search \<ge> nr_cpu_ids e))"
    using first valid ne by (auto simp: cand cpumask_empty_def)
  have best: "best_small_task_cpu e p False =
      (case small_task_loop e p False ?hc i0 s0 of
         None \<Rightarrow> None
       | Some (Inl c) \<Rightarrow> Some (Inr c)
       | Some (Inr s) \<Rightarrow> Some (small_task_rest e p False s))"
    using early
    by (auto simp: best_small_task_cpu_def Let_def search_def [symmetric] i0_def [symmetric]
        s0_def [symmetric])
  have valid0: "\<forall>d\<in>set (search_cpu s0). d < nr_cpu_ids e"
    using valid by (simp add: s0f cand)
  have i00: "i0 \<in> set (search_cpu s0)"
    using i0 by (simp add: s0f)
  have big0: "domains_by_capacity e (search_cpu s0)"
    using big by (simp add: s0f cand)
  show ?thesis
  proof (cases "\<exists>d\<in>set search. first_choice e d")
    case True
    hence ex0: "\<exists>c\<in>set (search_cpu s0). first_choice e c"
      by (simp add: s0f)
    from small_task_loop_found [OF r valid0 i00 ex0 big0, of p]
    obtain r where loop: "small_task_loop e p False ?hc i0 s0 = Some (Inl r)"
      and r: "r \<in> set search" "first_choice e r" "first_choice e i0 \<longrightarrow> r = i0"
      and ord: "(\<forall>d\<in>set search. i0 \<le> d) \<or> \<not> first_choice e i0
                  \<longrightarrow> (\<forall>d\<in>set search. first_choice e d \<longrightarrow> r \<le> d)"
      unfolding s0f by blast
    have res: "best_small_task_cpu e p False = Some (Inr r)"
      by (simp add: best loop)
    have prev: "r = task_cpu p" if "task_cpu p \<in> set search" "first_choice e (task_cpu p)"
    proof -
      have "i0 = task_cpu p"
        using that(1) by (simp add: i0_def cpumask_test_cpu_def)
      thus ?thesis
        using r(3) that(2) by simp
    qed
    have low: "\<forall>d\<in>set search. first_choice e d \<longrightarrow> r \<le> d"
      if "\<not> (task_cpu p \<in> set search \<and> first_choice e (task_cpu p))"
    proof (cases "task_cpu p \<in> set search")
      case True
      hence "i0 = task_cpu p"
        by (simp add: i0_def cpumask_test_cpu_def)
      hence "\<not> first_choice e i0"
        using that True by simp
      thus ?thesis
        using ord by blast
    next
      case False
      hence "i0 = cpumask_first (nr_cpu_ids e) search"
        by (simp add: i0_def cpumask_test_cpu_def)
      hence "\<forall>d\<in>set search. i0 \<le> d"
        by (simp add: cpumask_first_le)
      thus ?thesis
        using ord by blast
    qed
    show ?thesis
      using True res r(1,2) prev low unfolding cand by auto
  next
    case False
    hence none0: "\<forall>d\<in>set (search_cpu s0). \<not> first_choice e d"
      by (simp add: s0f)
    from small_task_loop_passed [OF r valid0 i00 none0 big0, of p]
    obtain s2 where loop: "small_task_loop e p False ?hc i0 s0 = Some (Inr s2)"
      and busy: "best_busy_cpu s2 = - 1"
      and B: "(\<exists>d\<in>set search. idle_choice e d \<and> cstate (cpu_rq e d) < INT_MAX)
                  \<longrightarrow> min_cstate_cpu s2 \<in> set search
                      \<and> idle_choice e (min_cstate_cpu s2)
                      \<and> min_cstate s2 = cstate (cpu_rq e (min_cstate_cpu s2))
                      \<and> min_cstate s2 < INT_MAX
                      \<and> (\<forall>d\<in>set search. idle_choice e d
                            \<longrightarrow> min_cstate s2 \<le> cstate (cpu_rq e d))"
      unfolding s0f by blast
    have "\<not> first_choice e c"
      using False c(1) cand by blast
    hence "idle_choice e c \<and> cstate (cpu_rq e c) < INT_MAX"
      using c(2,3) by (auto simp: first_choice_def idle_choice_def mostly_idle_candidate_def)
    hence "\<exists>d\<in>set search. idle_choice e d \<and> cstate (cpu_rq e d) < INT_MAX"
      using c(1) cand by auto
    with B have f: "min_cstate_cpu s2 \<in> set search" "idle_choice e (min_cstate_cpu s2)"
        "\<forall>d\<in>set search. idle_choice e d
            \<longrightarrow> cstate (cpu_rq e (min_cstate_cpu s2)) \<le> cstate (cpu_rq e d)"
      by auto
    have "0 \<le> min_cstate_cpu s2"
      using f(1) valid cand by auto
    hence "small_task_rest e p False s2 = Inr (min_cstate_cpu s2)"
      using busy by (simp add: small_task_rest_def)
    hence res: "best_small_task_cpu e p False = Some (Inr (min_cstate_cpu s2))"
      by (simp add: best loop)
    show ?thesis
      using False res f unfolding cand by auto
  qed
qed

lemma initial_hmp_thresholds:
  "sched_small_task initial_hmp_state = 1000000"
  "sched_spill_load initial_hmp_state = 10000000"
  by (simp_all add: initial_hmp_state_def set_hmp_defaults_def pct_to_real_def max_task_load_def
      update_up_down_migrate_def Let_def)

lemmas place_eval_defs =
  select_best_cpu_def best_small_task_cpu_def small_task_rest_def small_task_step_def
  select_done_def select_packing_target_def packing_step_def busy_cpu_step_def
  fallback_cpu_step_def power_cost_def is_small_task_def sched_boost_def wake_to_idle_def
  cpu_load_sync_def mostly_idle_cpu_sync_def spill_threshold_crossed_def
  cpumask_and_def cpumask_andnot_def cpumask_test_cpu_def cpumask_clear_cpu_def
  cpumask_empty_def cpumask_equal_def cpumask_first_def cpumask_next_def
  uniform_env_def run_queue_def small_task_on_def initial_hmp_thresholds
  INT_MAX_def ULLONG_MAX_def Let_def

lemmas scene_eval_defs =
  mostly_idle_cpu_def busy_but_fits_def cpu_load_def spill_threshold_crossed_def
  small_task_wakeup_def is_small_task_def sched_boost_def wake_to_idle_def
  candidates_def cpumask_and_def cpumask_equal_def
  mostly_idle_candidate_def highest_capacity_cpu_def packing_cpu_def
  idle_in_cstate_def first_choice_def idle_choice_def domains_by_capacity_def
  mostly_idle_cpu_sync_def cpu_load_sync_def
  uniform_env_def run_queue_def small_task_on_def initial_hmp_thresholds INT_MAX_def Let_def

lemma two_cpus_scene:
  "small_task_wakeup two_cpus (small_task_on 1)"
  "candidates two_cpus (small_task_on 1) = [0, 1]"
  "mostly_idle_cpu two_cpus 0"
  "busy_but_fits two_cpus (small_task_on 1) 1"
  "mostly_idle_candidate two_cpus 0"
  "\<not> idle_in_cstate two_cpus 0"
  "\<not> first_choice two_cpus 1"
  "\<not> idle_choice two_cpus 1"
  "domains_by_capacity two_cpus [0, 1]"
  "\<not> packing_cpu two_cpus 0"
  "\<not> packing_cpu two_cpus 1"
  "\<not> sysctl_sched_restrict_tasks_spread two_cpus"
  "nr_cpu_ids two_cpus = 2"
  by (simp_all add: scene_eval_defs two_cpus_def)

lemma two_cpus_idle_scene:
  "small_task_wakeup (two_cpus_idle cs) (small_task_on 1)"
  "candidates (two_cpus_idle cs) (small_task_on 1) = [0, 1]"
  "mostly_idle_cpu (two_cpus_idle cs) 0"
  "busy_but_fits (two_cpus_idle cs) (small_task_on 1) 1"
  "mostly_idle_candidate (two_cpus_idle cs) 0"
  "idle_in_cstate (two_cpus_idle cs) 0 \<longleftrightarrow> cs \<noteq> 0"
  "cstate (cpu_rq (two_cpus_idle cs) 0) = cs"
  "\<not> first_choice (two_cpus_idle cs) 1"
  "\<not> idle_choice (two_cpus_idle cs) 1"
  "domains_by_capacity (two_cpus_idle cs) [0, 1]"
  "\<not> packing_cpu (two_cpus_idle cs) 0"
  "\<not> packing_cpu (two_cpus_idle cs) 1"
  "\<not> sysctl_sched_restrict_tasks_spread (two_cpus_idle cs)"
  "nr_cpu_ids (two_cpus_idle cs) = 2"
  by (simp_all add: scene_eval_defs two_cpus_idle_def)

lemma three_cpus_scene:
  "small_task_wakeup three_cpus (small_task_on 0)"
  "candidates three_cpus (small_task_on 0) = [0, 1, 2]"
  "mostly_idle_cpu three_cpus 0"
  "mostly_idle_cpu three_cpus 1"
  "cpu_load three_cpus 1 < cpu_load three_cpus 0"
  "busy_but_fits three_cpus (small_task_on 0) 2"
  by (simp_all add: scene_eval_defs three_cpus_def)

lemma big_little_scene:
  "small_task_wakeup big_little (small_task_on 1)"
  "candidates big_little (small_task_on 1) = [0, 1]"
  "mostly_idle_cpu big_little 0"
  "busy_but_fits big_little (small_task_on 1) 1"
  "highest_capacity_cpu big_little 0"
  by (simp_all add: scene_eval_defs big_little_def two_cpus_def)

lemma two_cpus_restricted_scene:
  "small_task_wakeup two_cpus_restricted (small_task_on 1)"
  "candidates two_cpus_restricted (small_task_on 1) = [0, 1]"
  "mostly_idle_cpu two_cpus_restricted 0"
  "busy_but_fits two_cpus_restricted (small_task_on 1) 1"
  "sysctl_sched_restrict_tasks_spread two_cpus_restricted"
  by (simp_all add: scene_eval_defs two_cpus_restricted_def two_cpus_def)

lemma two_cpus_packing_scene:
  "small_task_wakeup two_cpus_packing (small_task_on 0)"
  "candidates two_cpus_packing (small_task_on 0) = [0, 1]"
  "mostly_idle_cpu two_cpus_packing 1"
  "busy_but_fits two_cpus_packing (small_task_on 0) 0"
  "packing_cpu two_cpus_packing 1"
  by (simp_all add: scene_eval_defs two_cpus_packing_def)

lemma shared_domain_scene:
  "small_task_wakeup shared_domain (small_task_on 0)"
  "candidates shared_domain (small_task_on 0) = [0, 1, 2]"
  "mostly_idle_cpu shared_domain 1"
  "\<not> highest_capacity_cpu shared_domain 1"
  "busy_but_fits shared_domain (small_task_on 0) 2"
  "highest_capacity_cpu shared_domain 0"
  "freq_domain_cpumask (cpu_rq shared_domain 0) = [0, 1]"
  by (simp_all add: scene_eval_defs shared_domain_def)

lemma waker_hint_scene:
  "is_small_task waker_hint (small_task_on 1)"
  "\<not> sched_boost waker_hint"
  "wake_to_idle waker_hint (small_task_on 1)"
  "candidates waker_hint (small_task_on 1) = [0, 1]"
  "mostly_idle_cpu waker_hint 0"
  "\<not> highest_capacity_cpu waker_hint 0"
  "busy_but_fits waker_hint (small_task_on 1) 1"
  by (simp_all add: scene_eval_defs waker_hint_def little_cpus_def two_cpus_def)

lemma grouped_task_scene:
  "is_small_task little_cpus (grouped_task_on 1)"
  "\<not> sched_boost little_cpus"
  "\<not> wake_to_idle little_cpus (grouped_task_on 1)"
  "\<not> small_task_wakeup little_cpus (grouped_task_on 1)"
  "candidates little_cpus (grouped_task_on 1) = [0, 1]"
  "mostly_idle_cpu little_cpus 0"
  "\<not> highest_capacity_cpu little_cpus 0"
  "busy_but_fits little_cpus (grouped_task_on 1) 1"
  by (simp_all add: scene_eval_defs grouped_task_on_def little_cpus_def two_cpus_def)

lemmas general_eval_defs =
  place_eval_defs select_step_def skip_freq_domain_def skip_cpu_def task_load_will_fit_def
  eligible_cpu_def power_delta_exceeded_def fallback_idle_step_def

lemma initial_hmp_migrate:
  "sched_upmigrate initial_hmp_state = 8000000"
  "sched_downmigrate initial_hmp_state = 6000000"
  "sched_upmigrate_min_nice initial_hmp_state = 15"
  by (simp_all add: initial_hmp_state_def set_hmp_defaults_def pct_to_real_def max_task_load_def
      update_up_down_migrate_def Let_def)

lemma waker_hint_choice:
  "select_best_cpu waker_hint (small_task_on 1) 0 0 False = Some (Inr 1)"
  by (simp add: general_eval_defs initial_hmp_migrate waker_hint_def little_cpus_def
      two_cpus_def)

lemma grouped_task_choice:
  "select_best_cpu little_cpus (grouped_task_on 1) 0 0 False = Some (Inr 1)"
  by (simp add: general_eval_defs initial_hmp_migrate grouped_task_on_def little_cpus_def
      two_cpus_def)

lemma three_cpus_choice:
  "select_best_cpu three_cpus (small_task_on 0) 0 0 False = Some (Inr 0)"
  by (simp add: place_eval_defs three_cpus_def small_task_loop.simps)

lemma big_little_choice:
  "select_best_cpu big_little (small_task_on 1) 0 0 False = Some (Inr 1)"
  by (simp add: place_eval_defs big_little_def two_cpus_def small_task_loop.simps)

lemma two_cpus_restricted_choice:
  "select_best_cpu two_cpus_restricted (small_task_on 1) 0 0 False = Some (Inr 1)"
  by (simp add: place_eval_defs two_cpus_restricted_def two_cpus_def small_task_loop.simps)

lemma two_cpus_packing_choice:
  "select_best_cpu two_cpus_packing (small_task_on 0) 0 0 False = Some (Inr 0)"
  by (simp add: place_eval_defs two_cpus_packing_def small_task_loop.simps)

lemma two_cpus_idle_max_choice:
  "select_best_cpu (two_cpus_idle INT_MAX) (small_task_on 1) 0 0 False = Some (Inr 1)"
  by (simp add: place_eval_defs two_cpus_idle_def small_task_loop.simps)

lemma shared_domain_choice:
  "select_best_cpu shared_domain (small_task_on 0) 0 0 False = Some (Inr 2)"
  by (simp add: place_eval_defs shared_domain_def small_task_loop.simps)

text \<open>
  Claim C7, as amended. Take a non-sync wakeup of a task that \<^verbatim>\<open>select_best_cpu\<close>
  treats as small (small, no boost, no \<^verbatim>\<open>PF_WAKE_UP_IDLE\<close>, no preferred cluster
  above the minimum capacity), with \<^verbatim>\<open>sysctl_sched_restrict_tasks_spread\<close> off and
  no packing (a migration reason is given, or no candidate CPU runs below its
  mostly-idle frequency). The candidate CPUs have numbers from 0 to below
  \<^verbatim>\<open>nr_cpu_ids\<close>, and the frequency domain of each candidate of the highest possible
  capacity holds that CPU and no candidate of a lower capacity. Let the candidates
  include a CPU \<open>c\<close> that is mostly idle (load and running count at or below the
  mostly-idle thresholds, no high IRQ load), is not of the highest possible
  capacity where capacities differ, and, if it is idle in a C-state other than 0,
  has a C-state below \<^verbatim>\<open>INT_MAX\<close>. Then \<^verbatim>\<open>select_best_cpu\<close> returns a candidate CPU,
  and not a busy one. If some candidate is a first choice (mostly idle as \<open>c\<close> is,
  and not idle in a C-state other than 0), the result is the first such CPU in the
  order of the search: the task's previous CPU if that is one, else the one of the
  lowest number; it need not be the least loaded. If no candidate is a first choice,
  the result is a candidate idle in a C-state other than 0 (not of the highest
  capacity, no high IRQ load), of the lowest C-state among these. When no candidate
  other than \<open>c\<close> is of either kind, the result is \<open>c\<close> (CPU 0 of the two-CPU
  scenario).
\<close>

theorem select_best_cpu_small_task:
  assumes small: "small_task_wakeup e p"
    and r: "\<not> sysctl_sched_restrict_tasks_spread e"
    and pack: "reason \<noteq> 0 \<or> (\<forall>d\<in>set (candidates e p). \<not> packing_cpu e d)"
    and valid: "\<forall>d\<in>set (candidates e p). 0 \<le> d \<and> d < nr_cpu_ids e"
    and big: "domains_by_capacity e (candidates e p)"
    and c: "c \<in> set (candidates e p)" "mostly_idle_candidate e c"
      "idle_in_cstate e c \<longrightarrow> cstate (cpu_rq e c) < INT_MAX"
  shows "\<exists>r. select_best_cpu e p target reason False = Some (Inr r)
             \<and> r \<in> set (candidates e p)
             \<and> (if \<exists>d\<in>set (candidates e p). first_choice e d
                 then first_choice e r
                      \<and> (if task_cpu p \<in> set (candidates e p) \<and> first_choice e (task_cpu p)
                          then r = task_cpu p
                          else \<forall>d\<in>set (candidates e p). first_choice e d \<longrightarrow> r \<le> d)
                 else idle_choice e r
                      \<and> (\<forall>d\<in>set (candidates e p). idle_choice e d
                            \<longrightarrow> cstate (cpu_rq e r) \<le> cstate (cpu_rq e d)))
             \<and> ((\<forall>d\<in>set (candidates e p). d \<noteq> c
                     \<longrightarrow> \<not> first_choice e d \<and> \<not> idle_choice e d)
                  \<longrightarrow> r = c)"
proof -
  from best_small_task_cpu_choice [OF r valid big c]
  obtain r where best: "best_small_task_cpu e p False = Some (Inr r)"
    and rc: "r \<in> set (candidates e p)"
    and kind: "if \<exists>d\<in>set (candidates e p). first_choice e d
                 then first_choice e r
                      \<and> (if task_cpu p \<in> set (candidates e p) \<and> first_choice e (task_cpu p)
                          then r = task_cpu p
                          else \<forall>d\<in>set (candidates e p). first_choice e d \<longrightarrow> r \<le> d)
                 else idle_choice e r
                      \<and> (\<forall>d\<in>set (candidates e p). idle_choice e d
                            \<longrightarrow> cstate (cpu_rq e r) \<le> cstate (cpu_rq e d))"
    by blast
  have pref: "(case grp p of
               None \<Rightarrow> None
             | Some g \<Rightarrow>
                 (case preferred_cluster g of
                    None \<Rightarrow> None
                  | Some c \<Rightarrow>
                      if sysctl_sched_enable_colocation e \<and> cluster_capacity e c > min_capacity e
                      then Some c else None)) = None"
    using small by (auto simp: small_task_wakeup_def split: option.splits)
  have flags: "is_small_task e p" "\<not> sched_boost e" "\<not> wake_to_idle e p"
    using small by (simp_all add: small_task_wakeup_def)
  have "0 \<le> r"
    using valid rc by blast
  hence "select_done e p (reason \<noteq> 0) r (- 1) = Inr r"
    using pack rc
    by (auto simp: select_done_def select_packing_target_def packing_cpu_def Let_def not_less)
  hence res: "select_best_cpu e p target reason False = Some (Inr r)"
    by (simp add: select_best_cpu_def pref flags best)
  have either: "first_choice e r \<or> idle_choice e r"
    using kind by (auto split: if_splits)
  have only: "(\<forall>d\<in>set (candidates e p). d \<noteq> c
                 \<longrightarrow> \<not> first_choice e d \<and> \<not> idle_choice e d) \<longrightarrow> r = c"
    using either rc by blast
  show ?thesis
    using res rc kind only by blast
qed

text \<open>
  The two-CPU scenario: the small task last ran on the busy CPU 1 and is placed on
  CPU 0, when CPU 0 is mostly idle and runs a task, and when it is idle in C-state 1.
\<close>

theorem select_best_cpu_small_task_witness:
  "small_task_wakeup two_cpus (small_task_on 1)
   \<and> candidates two_cpus (small_task_on 1) = [0, 1]
   \<and> mostly_idle_cpu two_cpus 0
   \<and> busy_but_fits two_cpus (small_task_on 1) 1
   \<and> select_best_cpu two_cpus (small_task_on 1) 0 0 False = Some (Inr 0)
   \<and> small_task_wakeup (two_cpus_idle 1) (small_task_on 1)
   \<and> candidates (two_cpus_idle 1) (small_task_on 1) = [0, 1]
   \<and> mostly_idle_cpu (two_cpus_idle 1) 0
   \<and> idle_in_cstate (two_cpus_idle 1) 0
   \<and> busy_but_fits (two_cpus_idle 1) (small_task_on 1) 1
   \<and> select_best_cpu (two_cpus_idle 1) (small_task_on 1) 0 0 False = Some (Inr 0)"
proof -
  have "\<exists>r. select_best_cpu two_cpus (small_task_on 1) 0 0 False = Some (Inr r)
          \<and> ((\<forall>d\<in>set (candidates two_cpus (small_task_on 1)). d \<noteq> 0
                  \<longrightarrow> \<not> first_choice two_cpus d \<and> \<not> idle_choice two_cpus d)
               \<longrightarrow> r = 0)"
    using select_best_cpu_small_task [where e = two_cpus and p = "small_task_on 1" and c = 0
        and target = 0 and reason = 0]
    by (simp add: two_cpus_scene)
  hence 1: "select_best_cpu two_cpus (small_task_on 1) 0 0 False = Some (Inr 0)"
    by (auto simp: two_cpus_scene)
  have "\<exists>r. select_best_cpu (two_cpus_idle 1) (small_task_on 1) 0 0 False = Some (Inr r)
          \<and> ((\<forall>d\<in>set (candidates (two_cpus_idle 1) (small_task_on 1)). d \<noteq> 0
                  \<longrightarrow> \<not> first_choice (two_cpus_idle 1) d \<and> \<not> idle_choice (two_cpus_idle 1) d)
               \<longrightarrow> r = 0)"
    using select_best_cpu_small_task [where e = "two_cpus_idle 1" and p = "small_task_on 1"
        and c = 0 and target = 0 and reason = 0]
    by (simp add: two_cpus_idle_scene INT_MAX_def)
  hence 2: "select_best_cpu (two_cpus_idle 1) (small_task_on 1) 0 0 False = Some (Inr 0)"
    by (auto simp: two_cpus_idle_scene)
  show ?thesis
    using 1 2 by (simp add: two_cpus_scene two_cpus_idle_scene)
qed

text \<open>
  The claim as stated fails. With CPUs 0 and 1 both mostly idle and CPU 1 the less
  loaded, the task that last ran on CPU 0 stays on CPU 0. In the two-CPU scenario
  the task goes to the busy CPU when the mostly idle CPU alone has the highest
  possible capacity, when \<^verbatim>\<open>sysctl_sched_restrict_tasks_spread\<close> is set and the busy
  CPU has the lower load, when packing moves it to the first CPU of the frequency
  domain, and when the mostly idle CPU is idle in C-state \<^verbatim>\<open>INT_MAX\<close>, which the loop
  never remembers. With three CPUs it goes to the busy CPU 2 when the mostly idle
  CPU 1 is in the frequency domain of CPU 0, of the highest capacity, and is set
  aside with it. A small task whose waker carries \<^verbatim>\<open>PF_WAKE_UP_IDLE\<close>, or whose group
  prefers a cluster above the minimum capacity, does not take the small-task path:
  of two CPUs below the highest capacity it gets the busy one, which has the lower
  load.
\<close>

theorem select_best_cpu_small_task_counterexample:
  "(small_task_wakeup three_cpus (small_task_on 0)
      \<and> candidates three_cpus (small_task_on 0) = [0, 1, 2]
      \<and> mostly_idle_cpu three_cpus 0 \<and> mostly_idle_cpu three_cpus 1
      \<and> cpu_load three_cpus 1 < cpu_load three_cpus 0
      \<and> busy_but_fits three_cpus (small_task_on 0) 2
      \<and> select_best_cpu three_cpus (small_task_on 0) 0 0 False = Some (Inr 0))
   \<and> (small_task_wakeup big_little (small_task_on 1)
      \<and> candidates big_little (small_task_on 1) = [0, 1]
      \<and> mostly_idle_cpu big_little 0
      \<and> highest_capacity_cpu big_little 0
      \<and> busy_but_fits big_little (small_task_on 1) 1
      \<and> select_best_cpu big_little (small_task_on 1) 0 0 False = Some (Inr 1))
   \<and> (small_task_wakeup two_cpus_restricted (small_task_on 1)
      \<and> candidates two_cpus_restricted (small_task_on 1) = [0, 1]
      \<and> mostly_idle_cpu two_cpus_restricted 0
      \<and> sysctl_sched_restrict_tasks_spread two_cpus_restricted
      \<and> busy_but_fits two_cpus_restricted (small_task_on 1) 1
      \<and> select_best_cpu two_cpus_restricted (small_task_on 1) 0 0 False = Some (Inr 1))
   \<and> (small_task_wakeup two_cpus_packing (small_task_on 0)
      \<and> candidates two_cpus_packing (small_task_on 0) = [0, 1]
      \<and> mostly_idle_cpu two_cpus_packing 1
      \<and> packing_cpu two_cpus_packing 1
      \<and> busy_but_fits two_cpus_packing (small_task_on 0) 0
      \<and> select_best_cpu two_cpus_packing (small_task_on 0) 0 0 False = Some (Inr 0))
   \<and> (small_task_wakeup (two_cpus_idle INT_MAX) (small_task_on 1)
      \<and> candidates (two_cpus_idle INT_MAX) (small_task_on 1) = [0, 1]
      \<and> mostly_idle_cpu (two_cpus_idle INT_MAX) 0
      \<and> idle_in_cstate (two_cpus_idle INT_MAX) 0
      \<and> cstate (cpu_rq (two_cpus_idle INT_MAX) 0) = INT_MAX
      \<and> busy_but_fits (two_cpus_idle INT_MAX) (small_task_on 1) 1
      \<and> select_best_cpu (two_cpus_idle INT_MAX) (small_task_on 1) 0 0 False = Some (Inr 1))
   \<and> (small_task_wakeup shared_domain (small_task_on 0)
      \<and> candidates shared_domain (small_task_on 0) = [0, 1, 2]
      \<and> mostly_idle_cpu shared_domain 1
      \<and> \<not> highest_capacity_cpu shared_domain 1
      \<and> highest_capacity_cpu shared_domain 0
      \<and> freq_domain_cpumask (cpu_rq shared_domain 0) = [0, 1]
      \<and> busy_but_fits shared_domain (small_task_on 0) 2
      \<and> select_best_cpu shared_domain (small_task_on 0) 0 0 False = Some (Inr 2))
   \<and> (is_small_task waker_hint (small_task_on 1) \<and> \<not> sched_boost waker_hint
      \<and> wake_to_idle waker_hint (small_task_on 1)
      \<and> candidates waker_hint (small_task_on 1) = [0, 1]
      \<and> mostly_idle_cpu waker_hint 0
      \<and> \<not> highest_capacity_cpu waker_hint 0
      \<and> busy_but_fits waker_hint (small_task_on 1) 1
      \<and> select_best_cpu waker_hint (small_task_on 1) 0 0 False = Some (Inr 1))
   \<and> (is_small_task little_cpus (grouped_task_on 1) \<and> \<not> sched_boost little_cpus
      \<and> \<not> wake_to_idle little_cpus (grouped_task_on 1)
      \<and> \<not> small_task_wakeup little_cpus (grouped_task_on 1)
      \<and> candidates little_cpus (grouped_task_on 1) = [0, 1]
      \<and> mostly_idle_cpu little_cpus 0
      \<and> \<not> highest_capacity_cpu little_cpus 0
      \<and> busy_but_fits little_cpus (grouped_task_on 1) 1
      \<and> select_best_cpu little_cpus (grouped_task_on 1) 0 0 False = Some (Inr 1))"
proof -
  have m: "INT_MAX \<noteq> 0"
    by (simp add: INT_MAX_def)
  show ?thesis
    by (simp add: three_cpus_scene three_cpus_choice big_little_scene big_little_choice
        two_cpus_restricted_scene two_cpus_restricted_choice
        two_cpus_packing_scene two_cpus_packing_choice
        two_cpus_idle_scene two_cpus_idle_max_choice m
        shared_domain_scene shared_domain_choice
        waker_hint_scene waker_hint_choice grouped_task_scene grouped_task_choice)
qed

end
